(* ===== verification/Prelude.thy ===== *)
theory Prelude
  imports Main "HOL-Library.List_Lexorder" "HOL-Library.Char_ord"
begin

text \<open>
  Shared vocabulary of the development: the Go types the services use (identifiers as
  canonical UUID strings, 64-bit and 32-bit integers as \<open>int\<close> with their range and
  wrap-around written out, times and durations as nanosecond counts), the three ways a Go
  call can end, and the list lemmas that the table models rest on.  Strings are compared
  byte-wise (\<open>Char_ord\<close>, \<open>List_Lexorder\<close>), as Go compares them.
\<close>

section \<open>Go types\<close>

type_synonym uuid = string
type_synonym timestamp = int
type_synonym duration = int

definition int64_min :: int where "int64_min = - 9223372036854775808"
definition int64_max :: int where "int64_max = 9223372036854775807"
definition int32_max :: int where "int32_max = 2147483647"

definition in_int64 :: "int \<Rightarrow> bool" where
  "in_int64 k \<longleftrightarrow> int64_min \<le> k \<and> k \<le> int64_max"

text \<open>Two's complement wrap-around of Go's \<open>int64\<close> arithmetic.\<close>

definition wrap64 :: "int \<Rightarrow> int" where
  "wrap64 k = (k + 9223372036854775808) mod 18446744073709551616 - 9223372036854775808"

definition go_neg64 :: "int \<Rightarrow> int" where
  "go_neg64 k = wrap64 (- k)"

lemma in_int64_alt: "in_int64 k \<longleftrightarrow> - 9223372036854775808 \<le> k \<and> k \<le> 9223372036854775807"
  by (simp add: in_int64_def int64_min_def int64_max_def)

lemma wrap64_range: "in_int64 (wrap64 k)"
proof -
  have "0 \<le> (k + 9223372036854775808) mod 18446744073709551616"
    and "(k + 9223372036854775808) mod 18446744073709551616 < 18446744073709551616"
    by simp_all
  then show ?thesis unfolding in_int64_alt wrap64_def by linarith
qed

lemma wrap64_id: "in_int64 k \<Longrightarrow> wrap64 k = k"
  by (simp add: wrap64_def in_int64_alt)

lemma go_neg64_pos: "0 < k \<Longrightarrow> k \<le> int64_max \<Longrightarrow> go_neg64 k = - k"
  by (simp add: go_neg64_def wrap64_id in_int64_def int64_min_def int64_max_def)

section \<open>How a call ends\<close>

text \<open>
  A Go call returns a value, returns an error, or panics.  A database transaction body
  only returns; it is a sum with the error on the left.
\<close>

datatype ('e, 'a) outcome = Ret 'a | Err 'e | Panic string

section \<open>Tables as lists\<close>

text \<open>
  A table is the list of its rows; a key column is a projection whose values are distinct.
\<close>

named_theorems table_simps "selection and update of a row by its key"

lemma find_SomeD: "find P xs = Some x \<Longrightarrow> x \<in> set xs \<and> P x"
  by (auto simp: find_Some_iff)

lemma find_None_all: "find P xs = None \<longleftrightarrow> (\<forall>x\<in>set xs. \<not> P x)"
  by (auto simp: find_None_iff)

lemma find_append: "find P (xs @ ys) = (case find P xs of Some x \<Rightarrow> Some x | None \<Rightarrow> find P ys)"
  by (induction xs) auto

lemma find_key [table_simps]:
  "distinct (map f xs) \<Longrightarrow> x \<in> set xs \<Longrightarrow> find (\<lambda>y. f y = f x) xs = Some x"
  by (induction xs) force+

lemma find_map_inv:
  assumes "\<And>x. x \<in> set xs \<Longrightarrow> P (h x) = P x"
  shows "find P (map h xs) = map_option h (find P xs)"
  using assms by (induction xs) auto

lemma key_inj: "distinct (map f xs) \<Longrightarrow> x \<in> set xs \<Longrightarrow> y \<in> set xs \<Longrightarrow> f x = f y \<Longrightarrow> x = y"
  by (simp add: distinct_map inj_on_def)

lemma key_fresh: "distinct (map f (a # xs)) \<Longrightarrow> y \<in> set xs \<Longrightarrow> f y \<noteq> f a"
  by (metis distinct.simps(2) imageI list.set_map list.simps(9))

lemma filter_key [table_simps]:
  "distinct (map f xs) \<Longrightarrow> x \<in> set xs \<Longrightarrow> filter (\<lambda>y. f y = f x) xs = [x]"
proof (induction xs)
  case Nil
  then show ?case by simp
next
  case (Cons a xs)
  show ?case
  proof (cases "x = a")
    case True
    have "\<forall>y\<in>set xs. f y \<noteq> f a" using key_fresh [OF Cons.prems(1)] by blast
    then have "filter (\<lambda>y. f y = f a) xs = []" by (simp add: filter_empty_conv)
    with True show ?thesis by simp
  next
    case False
    with Cons.prems have "x \<in> set xs" and "f a \<noteq> f x" by force+
    with Cons show ?thesis by simp
  qed
qed

lemma sum_list_update_key:
  fixes g :: "'a \<Rightarrow> int"
  assumes "distinct (map f xs)" and "x \<in> set xs"
  shows "(\<Sum>y\<leftarrow>xs. g (if f y = f x then h y else y)) = (\<Sum>y\<leftarrow>xs. g y) - g x + g (h x)"
  using assms
proof (induction xs)
  case Nil
  then show ?case by simp
next
  case (Cons a xs)
  show ?case
  proof (cases "x = a")
    case True
    have "\<forall>y\<in>set xs. f y \<noteq> f a" using key_fresh [OF Cons.prems(1)] by blast
    then have "map (\<lambda>y. g (if f y = f a then h y else y)) xs = map g xs" by simp
    then have "(\<Sum>y\<leftarrow>xs. g (if f y = f a then h y else y)) = (\<Sum>y\<leftarrow>xs. g y)"
      by (rule arg_cong)
    with True show ?thesis by simp
  next
    case False
    with Cons.prems have "x \<in> set xs" and "f a \<noteq> f x" by force+
    with Cons show ?thesis by simp
  qed
qed

lemma list_ex_key [table_simps]: "list_ex (\<lambda>u. f u = k) xs \<longleftrightarrow> k \<in> f ` set xs"
  by (auto simp: list_ex_iff)

lemma map_mem: "v \<in> set (map h xs) \<longleftrightarrow> (\<exists>x\<in>set xs. v = h x)"
  by auto

lemma sum_list_zero: "(\<And>x. x \<in> set xs \<Longrightarrow> f x = 0) \<Longrightarrow> (\<Sum>x\<leftarrow>xs. f x) = (0::int)"
  by (induction xs) auto

lemma map_id_on: "(\<And>x. x \<in> set xs \<Longrightarrow> h x = x) \<Longrightarrow> map h xs = xs"
  by (simp add: map_idI)

end
