(* ===== verification/GoErrors.thy ===== *)
theory GoErrors
  imports Prelude
begin

text \<open>
  The errors of \<open>services/wallet/store.go\<close> and the part of Go's error protocol the services
  use: wrapping with \<open>fmt.Errorf("...: %w", err)\<close>, \<open>errors.Is\<close> and \<open>errors.As\<close> on
  \<open>*pgconn.PgError\<close>, and the text of \<open>err.Error()\<close>.
\<close>

section \<open>Error values\<close>

datatype go_error =
    ErrNotFound
  | ErrInsufficientFunds
  | ErrSameWallet
  | ErrCurrencyMismatch
  | ErrIdempotencyConflict
  | ErrTooMuchContention
  | ErrVersionConflict
  | ErrNoRows
  | ContextCanceled
  | ContextDeadlineExceeded
  | PgError (pg_code: string) (pg_text: string)
  | WrapError (wrap_prefix: string) (wrapped: go_error)
  | OtherError string

text \<open>\<open>errors.Is(err, target)\<close> walks the chain of wrapped errors.\<close>

fun errors_Is :: "go_error \<Rightarrow> go_error \<Rightarrow> bool" where
  "errors_Is (WrapError p e) target = (WrapError p e = target \<or> errors_Is e target)"
| "errors_Is e target = (e = target)"

text \<open>\<open>errors.As(err, &pgErr)\<close>: the first \<open>PgError\<close> of the chain, by its SQLSTATE.\<close>

fun errors_As_PgError :: "go_error \<Rightarrow> string option" where
  "errors_As_PgError (PgError c t) = Some c"
| "errors_As_PgError (WrapError p e) = errors_As_PgError e"
| "errors_As_PgError _ = None"

text \<open>The text of \<open>err.Error()\<close>.\<close>

fun error_text :: "go_error \<Rightarrow> string" where
  "error_text ErrNotFound = ''not found''"
| "error_text ErrInsufficientFunds = ''insufficient funds''"
| "error_text ErrSameWallet = ''cannot transfer to your own wallet''"
| "error_text ErrCurrencyMismatch = ''currency mismatch''"
| "error_text ErrIdempotencyConflict = ''idempotency_key was already used for a different request''"
| "error_text ErrTooMuchContention = ''too much contention on this wallet, retry the request''"
| "error_text ErrVersionConflict = ''version conflict''"
| "error_text ErrNoRows = ''no rows in result set''"
| "error_text ContextCanceled = ''context canceled''"
| "error_text ContextDeadlineExceeded = ''context deadline exceeded''"
| "error_text (PgError c t) = t"
| "error_text (WrapError p e) = p @ '': '' @ error_text e"
| "error_text (OtherError t) = t"

section \<open>Classification\<close>

text \<open>\<open>isBusinessError\<close> of \<open>services/wallet/metrics.go\<close>: a loop over the sentinel errors.\<close>

definition business_errors :: "go_error list" where
  "business_errors = [ErrNotFound, ErrInsufficientFunds, ErrSameWallet,
     ErrCurrencyMismatch, ErrIdempotencyConflict, ErrTooMuchContention]"

definition isBusinessError :: "go_error \<Rightarrow> bool" where
  "isBusinessError err = list_ex (errors_Is err) business_errors"

text \<open>The condition under which \<open>withRetries\<close> tries again.\<close>

definition retryable :: "go_error \<Rightarrow> bool" where
  "retryable err \<longleftrightarrow>
     errors_Is err ErrVersionConflict \<or> errors_As_PgError err = Some ''23505''"

lemma errors_Is_refl [simp]: "errors_Is e e"
  by (cases e) simp_all

lemma errors_Is_WrapError [simp]:
  "errors_Is (WrapError p e) ErrNotFound = errors_Is e ErrNotFound"
  "errors_Is (WrapError p e) ErrVersionConflict = errors_Is e ErrVersionConflict"
  by simp_all

text \<open>The sentinel at the end of a chain is unique: no error is two business errors at once.\<close>

fun error_root :: "go_error \<Rightarrow> go_error" where
  "error_root (WrapError p e) = error_root e"
| "error_root e = e"

lemma errors_Is_root: "(\<And>p x. target \<noteq> WrapError p x) \<Longrightarrow> errors_Is e target \<longleftrightarrow> error_root e = target"
  by (induction e rule: error_root.induct) auto

lemma isBusinessError_root: "isBusinessError e \<longleftrightarrow> error_root e \<in> set business_errors"
  unfolding isBusinessError_def list_ex_iff business_errors_def
  by (simp add: errors_Is_root)

lemma errors_As_root:
  "errors_As_PgError e = (case error_root e of PgError c t \<Rightarrow> Some c | _ \<Rightarrow> None)"
  by (induction e rule: error_root.induct) auto

lemma retryable_root:
  "retryable e \<longleftrightarrow> error_root e = ErrVersionConflict \<or> (\<exists>t. error_root e = PgError ''23505'' t)"
  unfolding retryable_def errors_As_root
  by (auto simp: errors_Is_root split: go_error.splits)

text \<open>What \<open>withRetries\<close> retries is never an error it hands to the caller as a business error.\<close>

lemma retryable_not_business: "retryable e \<Longrightarrow> \<not> isBusinessError e"
  by (auto simp: retryable_root isBusinessError_root business_errors_def)

end
