(* ===== verification/Events.thy ===== *)
theory Events
  imports GoErrors
begin

text \<open>
  The event payloads at the end of \<open>services/wallet/store.go\<close> and their JSON form (the struct
  tags).  The outbox column is \<open>jsonb\<close>, so a payload is a JSON value, not a text.
\<close>

section \<open>JSON values\<close>

text \<open>A number is an integer, or the text of a number with a fraction or an exponent.\<close>

datatype json =
    JNull
  | JBool bool
  | JNum int
  | JFrac string
  | JStr string
  | JArr "json list"
  | JObj "(string \<times> json) list"

text \<open>\<open>node.get(field)\<close> on an object.\<close>

fun json_get :: "json \<Rightarrow> string \<Rightarrow> json option" where
  "json_get (JObj kvs) f = map_of kvs f"
| "json_get _ f = None"

section \<open>Topics\<close>

definition topicTransfers :: string where "topicTransfers = ''transfers.completed''"
definition topicDeposits :: string where "topicDeposits = ''wallet.deposited''"

section \<open>Payloads\<close>

record transferEvent =
  te_EventID :: string
  te_Type :: string
  te_TransactionID :: string
  te_FromWalletID :: string
  te_ToWalletID :: string
  te_FromUserID :: string
  te_ToUserID :: string
  te_AmountCents :: int
  te_Currency :: string
  te_OccurredAt :: string

record depositEvent =
  de_EventID :: string
  de_Type :: string
  de_TransactionID :: string
  de_WalletID :: string
  de_UserID :: string
  de_AmountCents :: int
  de_Currency :: string
  de_OccurredAt :: string

definition transferEvent_json :: "transferEvent \<Rightarrow> json" where
  "transferEvent_json e = JObj
     [(''eventId'', JStr (te_EventID e)),
      (''type'', JStr (te_Type e)),
      (''transactionId'', JStr (te_TransactionID e)),
      (''fromWalletId'', JStr (te_FromWalletID e)),
      (''toWalletId'', JStr (te_ToWalletID e)),
      (''fromUserId'', JStr (te_FromUserID e)),
      (''toUserId'', JStr (te_ToUserID e)),
      (''amountCents'', JNum (te_AmountCents e)),
      (''currency'', JStr (te_Currency e)),
      (''occurredAt'', JStr (te_OccurredAt e))]"

definition depositEvent_json :: "depositEvent \<Rightarrow> json" where
  "depositEvent_json e = JObj
     [(''eventId'', JStr (de_EventID e)),
      (''type'', JStr (de_Type e)),
      (''transactionId'', JStr (de_TransactionID e)),
      (''walletId'', JStr (de_WalletID e)),
      (''userId'', JStr (de_UserID e)),
      (''amountCents'', JNum (de_AmountCents e)),
      (''currency'', JStr (de_Currency e)),
      (''occurredAt'', JStr (de_OccurredAt e))]"

lemma topics_distinct [simp]: "topicTransfers \<noteq> topicDeposits" "topicDeposits \<noteq> topicTransfers"
  by (simp_all add: topicTransfers_def topicDeposits_def)

text \<open>The encodings are injective: every field of an event can be read back.\<close>

lemma transferEvent_json_inject [simp]:
  "transferEvent_json a = transferEvent_json b \<longleftrightarrow> a = b"
  by (auto simp: transferEvent_json_def)

lemma depositEvent_json_inject [simp]:
  "depositEvent_json a = depositEvent_json b \<longleftrightarrow> a = b"
  by (auto simp: depositEvent_json_def)

end
