(* ===== verification/Schema.thy ===== *)
theory Schema
  imports Events
begin

text \<open>
  The tables of \<open>db/migrations/V2__wallet.sql\<close> and the SQL statements of the wallet
  service, each as a function on the tables.  A table is the list of its rows.  A statement
  that violates a constraint of the migration is an error with PostgreSQL's SQLSTATE
  (22003 numeric out of range, 23503 foreign key, 23505 unique, 23514 check).  The values
  the server draws (\<open>gen_random_uuid()\<close>, \<open>now()\<close>, the sequence of \<open>bigserial\<close>) are
  arguments.
\<close>

section \<open>Tables\<close>

record wallet_row =
  wr_id :: uuid
  wr_user_id :: uuid
  wr_balance_cents :: int
  wr_currency :: string
  wr_version :: int
  wr_created_at :: timestamp
  wr_updated_at :: timestamp

record tx_row =
  tr_id :: uuid
  tr_user_id :: uuid
  tr_kind :: string
  tr_from_wallet_id :: "uuid option"
  tr_to_wallet_id :: uuid
  tr_amount_cents :: int
  tr_status :: string
  tr_idempotency_key :: string
  tr_created_at :: timestamp

record outbox_row =
  ob_id :: int
  ob_topic :: string
  ob_message_key :: string
  ob_payload :: json
  ob_headers :: json
  ob_created_at :: timestamp
  ob_published_at :: "timestamp option"

record db =
  wallets :: "wallet_row list"
  transactions :: "tx_row list"
  outbox :: "outbox_row list"

definition empty_db :: db where
  "empty_db = \<lparr>wallets = [], transactions = [], outbox = []\<rparr>"

section \<open>Statements on \<open>wallet.wallets\<close>\<close>

definition select_wallet_by_user :: "uuid \<Rightarrow> db \<Rightarrow> wallet_row option" where
  "select_wallet_by_user uid d = find (\<lambda>w. wr_user_id w = uid) (wallets d)"

definition select_wallet_by_id :: "uuid \<Rightarrow> db \<Rightarrow> wallet_row option" where
  "select_wallet_by_id wid d = find (\<lambda>w. wr_id w = wid) (wallets d)"

text \<open>
  \<open>INSERT INTO wallet.wallets (user_id) VALUES ($1) ON CONFLICT (user_id) DO UPDATE SET
  user_id = EXCLUDED.user_id RETURNING ...\<close>.  The conflict target is \<open>user_id\<close> only, so a
  generated id that is already taken is a unique violation.
\<close>

definition insert_wallet :: "uuid \<Rightarrow> timestamp \<Rightarrow> uuid \<Rightarrow> db \<Rightarrow> go_error + wallet_row \<times> db" where
  "insert_wallet gen now uid d =
     (case find (\<lambda>w. wr_user_id w = uid) (wallets d) of
        Some w \<Rightarrow>
          let w' = w\<lparr>wr_user_id := uid\<rparr>
          in Inr (w', d\<lparr>wallets := map (\<lambda>v. if wr_user_id v = uid then v\<lparr>wr_user_id := uid\<rparr> else v)
                                    (wallets d)\<rparr>)
      | None \<Rightarrow>
          if list_ex (\<lambda>w. wr_id w = gen) (wallets d)
          then Inl (PgError ''23505'' ''duplicate key value violates unique constraint'')
          else let w = \<lparr>wr_id = gen, wr_user_id = uid, wr_balance_cents = 0, wr_currency = ''USD'',
                        wr_version = 0, wr_created_at = now, wr_updated_at = now\<rparr>
               in Inr (w, d\<lparr>wallets := wallets d @ [w]\<rparr>))"

text \<open>
  \<open>UPDATE wallet.wallets SET balance_cents = balance_cents + $2, version = version + 1,
  updated_at = now() WHERE id = $1 AND version = $3\<close>: the number of rows affected and the
  new table.  \<open>balance_cents\<close> is a \<open>bigint\<close> with \<open>CHECK (balance_cents >= 0)\<close>, \<open>version\<close> an
  \<open>integer\<close>; both additions fail when they leave their range.
\<close>

definition bump_row :: "timestamp \<Rightarrow> int \<Rightarrow> wallet_row \<Rightarrow> wallet_row" where
  "bump_row now delta w = w\<lparr>wr_balance_cents := wr_balance_cents w + delta,
     wr_version := wr_version w + 1, wr_updated_at := now\<rparr>"

definition update_wallet ::
    "timestamp \<Rightarrow> uuid \<Rightarrow> int \<Rightarrow> int \<Rightarrow> db \<Rightarrow> go_error + nat \<times> db" where
  "update_wallet now wid delta ver d =
     (let hit = (\<lambda>w. wr_id w = wid \<and> wr_version w = ver);
          rows = filter hit (wallets d)
      in if list_ex (\<lambda>w. \<not> in_int64 (wr_balance_cents w + delta) \<or> int32_max < wr_version w + 1) rows
         then Inl (PgError ''22003'' ''out of range'')
         else if list_ex (\<lambda>w. wr_balance_cents w + delta < 0) rows
         then Inl (PgError ''23514'' ''violates check constraint'')
         else Inr (length rows,
                   d\<lparr>wallets := map (\<lambda>w. if hit w then bump_row now delta w else w) (wallets d)\<rparr>))"

section \<open>Statements on \<open>wallet.transactions\<close>\<close>

definition select_tx_by_key :: "uuid \<Rightarrow> string \<Rightarrow> db \<Rightarrow> tx_row option" where
  "select_tx_by_key uid key d =
     find (\<lambda>t. tr_user_id t = uid \<and> tr_idempotency_key t = key) (transactions d)"

text \<open>The join of \<open>GetTransaction\<close>: a transaction with a wallet of the user on either side.\<close>

definition select_tx_of_user :: "uuid \<Rightarrow> uuid \<Rightarrow> db \<Rightarrow> tx_row option" where
  "select_tx_of_user uid txid d =
     find (\<lambda>t. tr_id t = txid \<and>
             list_ex (\<lambda>w. wr_user_id w = uid \<and>
                       (tr_from_wallet_id t = Some (wr_id w) \<or> tr_to_wallet_id t = wr_id w))
               (wallets d))
       (transactions d)"

text \<open>The row-level checks of the table, and its foreign keys.\<close>

definition tx_checks :: "tx_row \<Rightarrow> bool" where
  "tx_checks t \<longleftrightarrow> tr_kind t \<in> {''DEPOSIT'', ''TRANSFER''} \<and> 0 < tr_amount_cents t \<and>
     tr_from_wallet_id t \<noteq> Some (tr_to_wallet_id t)"

definition tx_refs :: "db \<Rightarrow> tx_row \<Rightarrow> bool" where
  "tx_refs d t \<longleftrightarrow> list_ex (\<lambda>w. wr_id w = tr_to_wallet_id t) (wallets d) \<and>
     (case tr_from_wallet_id t of None \<Rightarrow> True
      | Some f \<Rightarrow> list_ex (\<lambda>w. wr_id w = f) (wallets d))"

definition insert_tx :: "tx_row \<Rightarrow> db \<Rightarrow> go_error + tx_row \<times> db" where
  "insert_tx t d =
     (if \<not> tx_checks t
      then Inl (PgError ''23514'' ''violates check constraint'')
      else if list_ex (\<lambda>u. tr_id u = tr_id t) (transactions d) \<or>
              list_ex (\<lambda>u. tr_user_id u = tr_user_id t \<and>
                        tr_idempotency_key u = tr_idempotency_key t) (transactions d)
      then Inl (PgError ''23505'' ''duplicate key value violates unique constraint'')
      else if \<not> tx_refs d t
      then Inl (PgError ''23503'' ''violates foreign key constraint'')
      else Inr (t, d\<lparr>transactions := transactions d @ [t]\<rparr>))"

section \<open>Statements on \<open>wallet.outbox\<close>\<close>

definition insert_outbox :: "outbox_row \<Rightarrow> db \<Rightarrow> go_error + db" where
  "insert_outbox r d =
     (if list_ex (\<lambda>u. ob_id u = ob_id r) (outbox d)
      then Inl (PgError ''23505'' ''duplicate key value violates unique constraint'')
      else Inr (d\<lparr>outbox := outbox d @ [r]\<rparr>))"

text \<open>
  The statements of the relay.  \<open>SELECT id, topic, message_key, payload ... WHERE published_at
  IS NULL ORDER BY id LIMIT $1 FOR UPDATE SKIP LOCKED\<close>: \<open>locked\<close> are the ids of the rows other
  transactions hold.  \<open>UPDATE ... SET published_at = now() WHERE id = ANY($1)\<close>, and the
  clean-up \<open>DELETE ... WHERE published_at IS NOT NULL AND published_at < cutoff\<close>.
\<close>

definition unpublished :: "db \<Rightarrow> outbox_row list" where
  "unpublished d = filter (\<lambda>r. ob_published_at r = None) (outbox d)"

definition select_unpublished :: "int set \<Rightarrow> nat \<Rightarrow> db \<Rightarrow> outbox_row list" where
  "select_unpublished locked limit d =
     take limit (filter (\<lambda>r. ob_id r \<notin> locked) (sort_key ob_id (unpublished d)))"

definition mark_published :: "timestamp \<Rightarrow> int list \<Rightarrow> db \<Rightarrow> db" where
  "mark_published now ids d =
     d\<lparr>outbox := map (\<lambda>r. if ob_id r \<in> set ids then r\<lparr>ob_published_at := Some now\<rparr> else r) (outbox d)\<rparr>"

definition delete_published :: "timestamp \<Rightarrow> db \<Rightarrow> nat \<times> db" where
  "delete_published cutoff d =
     (let old = (\<lambda>r. case ob_published_at r of None \<Rightarrow> False | Some t \<Rightarrow> t < cutoff)
      in (length (filter old (outbox d)), d\<lparr>outbox := filter (\<lambda>r. \<not> old r) (outbox d)\<rparr>))"

section \<open>What the migration guarantees\<close>

definition wallet_checks :: "wallet_row \<Rightarrow> bool" where
  "wallet_checks w \<longleftrightarrow> 0 \<le> wr_balance_cents w \<and> wr_balance_cents w \<le> int64_max \<and>
     wr_version w \<le> int32_max"

definition schema_ok :: "db \<Rightarrow> bool" where
  "schema_ok d \<longleftrightarrow>
     distinct (map wr_id (wallets d)) \<and> distinct (map wr_user_id (wallets d)) \<and>
     list_all wallet_checks (wallets d) \<and>
     distinct (map tr_id (transactions d)) \<and>
     distinct (map (\<lambda>t. (tr_user_id t, tr_idempotency_key t)) (transactions d)) \<and>
     list_all (\<lambda>t. tx_checks t \<and> tx_refs d t) (transactions d) \<and>
     distinct (map ob_id (outbox d))"

lemma schema_okD:
  assumes "schema_ok d"
  shows "distinct (map wr_id (wallets d))" and "distinct (map wr_user_id (wallets d))"
    and "\<And>w. w \<in> set (wallets d) \<Longrightarrow> wallet_checks w"
    and "distinct (map tr_id (transactions d))"
    and "distinct (map (\<lambda>t. (tr_user_id t, tr_idempotency_key t)) (transactions d))"
    and "\<And>t. t \<in> set (transactions d) \<Longrightarrow> tx_checks t \<and> tx_refs d t"
    and "distinct (map ob_id (outbox d))"
  using assms by (simp_all add: schema_ok_def list_all_iff)

lemma schema_ok_empty: "schema_ok empty_db"
  by (simp add: schema_ok_def empty_db_def)

end
