(* ===== verification/GoTime.thy ===== *)
theory GoTime
  imports Prelude
begin

text \<open>
  The part of Go's \<open>time\<close> and \<open>strconv\<close> packages the services use: decimal text of integers,
  and \<open>t.UTC().Format(layout)\<close> for the layouts \<open>time.RFC3339\<close> and \<open>time.RFC3339Nano\<close>.  A time
  is the number of nanoseconds since the Unix epoch.
\<close>

section \<open>Decimal text\<close>

definition digits :: string where "digits = ''0123456789''"

definition digit_char :: "int \<Rightarrow> char" where
  "digit_char k = digits ! nat (k mod 10)"

function dec_text :: "int \<Rightarrow> string" where
  "dec_text n = (if n < 10 then [digit_char n] else dec_text (n div 10) @ [digit_char n])"
  by pat_completeness auto
termination
  by (relation "measure nat") auto

declare dec_text.simps [simp del]

definition strconv_Itoa :: "int \<Rightarrow> string" where
  "strconv_Itoa k = (if k < 0 then CHR ''-'' # dec_text (- k) else dec_text k)"

text \<open>Zero padding on the left up to a width.\<close>

definition pad_text :: "nat \<Rightarrow> int \<Rightarrow> string" where
  "pad_text width n = (let s = dec_text n in replicate (width - length s) (CHR ''0'') @ s)"

lemma length_digits [simp]: "length digits = 10"
  by (simp add: digits_def)

lemma digit_index: "nat (k mod 10) < length digits" for k :: int
  by (simp add: nat_less_iff)

lemma digit_char_inject: "digit_char a = digit_char b \<longleftrightarrow> a mod 10 = b mod 10"
proof -
  have "distinct digits" by (simp add: digits_def)
  then have "digit_char a = digit_char b \<longleftrightarrow> nat (a mod 10) = nat (b mod 10)"
    unfolding digit_char_def by (rule nth_eq_iff_index_eq) (rule digit_index)+
  then show ?thesis by (simp add: eq_nat_nat_iff)
qed

lemma digit_char_in [simp]: "digit_char k \<in> set digits"
  unfolding digit_char_def by (rule nth_mem) (rule digit_index)

lemma dec_text_nonempty [simp]: "dec_text n \<noteq> []"
  by (subst dec_text.simps) simp

lemma dec_text_digits: "set (dec_text n) \<subseteq> set digits"
proof (induction n rule: dec_text.induct)
  case (1 n)
  then show ?case by (cases "n < 10") (simp_all add: dec_text.simps [of n])
qed

lemma dec_text_length_gt: "\<not> n < 10 \<Longrightarrow> length (dec_text n) = Suc (length (dec_text (n div 10)))"
  by (simp add: dec_text.simps [of n])

lemma dec_text_length_lt: "n < 10 \<Longrightarrow> length (dec_text n) = 1"
  by (simp add: dec_text.simps [of n])

lemma dec_text_inject: "0 \<le> m \<Longrightarrow> 0 \<le> n \<Longrightarrow> dec_text m = dec_text n \<Longrightarrow> m = n"
proof (induction m arbitrary: n rule: dec_text.induct)
  case (1 m)
  note eq = "1.prems"
  have len: "length (dec_text k) = 1 \<longleftrightarrow> k < 10" for k
    by (cases "k < 10") (simp_all add: dec_text_length_lt dec_text_length_gt)
  have iff: "m < 10 \<longleftrightarrow> n < 10" using eq(3) len by metis
  show ?case
  proof (cases "m < 10")
    case True
    with iff eq have "m mod 10 = n mod 10"
      by (simp add: dec_text.simps [of m] dec_text.simps [of n] digit_char_inject)
    with True iff eq show ?thesis by simp
  next
    case False
    with iff eq have "dec_text (m div 10) = dec_text (n div 10)" and "m mod 10 = n mod 10"
      by (simp_all add: dec_text.simps [of m] dec_text.simps [of n] digit_char_inject)
    with "1.IH" [OF False, of "n div 10"] eq have "m div 10 = n div 10"
      by (simp add: pos_imp_zdiv_nonneg_iff)
    with \<open>m mod 10 = n mod 10\<close> show ?thesis by (metis div_mult_mod_eq)
  qed
qed

lemma dec_text_no: "c \<notin> set digits \<Longrightarrow> c \<notin> set (dec_text n)"
  using dec_text_digits by blast

lemma strconv_Itoa_no_colon: "CHR '':'' \<notin> set (strconv_Itoa k)"
proof -
  have "CHR '':'' \<notin> set digits" by (simp add: digits_def)
  then show ?thesis by (simp add: strconv_Itoa_def dec_text_no)
qed

lemma dec_text_not_minus: "dec_text n \<noteq> CHR ''-'' # xs"
proof -
  have "CHR ''-'' \<notin> set digits" by (simp add: digits_def)
  then have "CHR ''-'' \<notin> set (dec_text n)" by (rule dec_text_no)
  then show ?thesis by auto
qed

lemma strconv_Itoa_inject: "strconv_Itoa a = strconv_Itoa b \<Longrightarrow> a = b"
  using dec_text_inject [of "- a" "- b"] dec_text_inject [of a b]
    dec_text_not_minus dec_text_not_minus [symmetric]
  by (auto simp: strconv_Itoa_def split: if_splits)

section \<open>Calendar date and RFC 3339\<close>

text \<open>Days since 1970-01-01 to year, month, day in the proleptic Gregorian calendar.\<close>

definition civil_from_days :: "int \<Rightarrow> int \<times> int \<times> int" where
  "civil_from_days days =
     (let z = days + 719468;
          era = z div 146097;
          doe = z mod 146097;
          yoe = (doe - doe div 1460 + doe div 36524 - doe div 146096) div 365;
          doy = doe - (365 * yoe + yoe div 4 - yoe div 100);
          mp = (5 * doy + 2) div 153;
          d = doy - (153 * mp + 2) div 5 + 1;
          m = (if mp < 10 then mp + 3 else mp - 9);
          y = yoe + era * 400 + (if m \<le> 2 then 1 else 0)
      in (y, m, d))"

definition year_text :: "int \<Rightarrow> string" where
  "year_text y = (if y < 0 then CHR ''-'' # pad_text 4 (- y) else pad_text 4 y)"

definition clock_text :: "timestamp \<Rightarrow> string" where
  "clock_text t =
     (let secs = t div 1000000000;
          (y, m, d) = civil_from_days (secs div 86400);
          s = secs mod 86400
      in year_text y @ ''-'' @ pad_text 2 m @ ''-'' @ pad_text 2 d @ ''T'' @
         pad_text 2 (s div 3600) @ '':'' @ pad_text 2 (s mod 3600 div 60) @ '':'' @
         pad_text 2 (s mod 60))"

definition trim_zeros :: "string \<Rightarrow> string" where
  "trim_zeros s = rev (dropWhile (\<lambda>c. c = CHR ''0'') (rev s))"

definition format_RFC3339 :: "timestamp \<Rightarrow> string" where
  "format_RFC3339 t = clock_text t @ ''Z''"

definition format_RFC3339Nano :: "timestamp \<Rightarrow> string" where
  "format_RFC3339Nano t =
     (let ns = t mod 1000000000
      in clock_text t @ (if ns = 0 then '''' else ''.'' @ trim_zeros (pad_text 9 ns)) @ ''Z'')"

end
