(* ===== verification/Store.thy ===== *)
theory Store
  imports Schema GoTime
begin

text \<open>
  \<open>services/wallet/store.go\<close>: the reads, and the bodies of \<open>Deposit\<close> and \<open>Transfer\<close> that run
  inside one database transaction.  A body is a function from the tables to an error or a
  result with the new tables; it never sees another transaction here (interleavings are the
  subject of theory \<open>Sessions\<close>).  The retry loop around a body is in theory \<open>Retry\<close>.

  A transaction handle \<open>tx_handle\<close> carries what PostgreSQL answers to the statements of one
  transaction: the values it draws, and for each statement a failure (a lost connection, a
  cancelled context) or none.
\<close>

section \<open>Go structs\<close>

record Wallet =
  w_ID :: uuid
  w_UserID :: uuid
  w_BalanceCents :: int
  w_Currency :: string
  w_Version :: int
  w_CreatedAt :: timestamp

record Transaction =
  t_ID :: uuid
  t_Kind :: string
  t_FromWalletID :: string
  t_ToWalletID :: uuid
  t_AmountCents :: int
  t_Status :: string
  t_IdempotencyKey :: string
  t_CreatedAt :: timestamp

record Result =
  res_Tx :: Transaction
  res_Replayed :: bool

datatype stmt = FindByKey | SelectSender | SelectRecipient | UpdateFirst | UpdateSecond
  | InsertTx | InsertOutbox

record tx_handle =
  h_now :: timestamp
  h_uuid :: uuid
  h_nextval :: int
  h_fault :: "stmt \<Rightarrow> go_error option"

section \<open>Scanning rows\<close>

text \<open>A query for one row: the failure of the query, no row, or the row.\<close>

definition QueryRow :: "go_error option \<Rightarrow> 'r option \<Rightarrow> go_error + 'r" where
  "QueryRow fault r =
     (case fault of Some e \<Rightarrow> Inl e
      | None \<Rightarrow> (case r of None \<Rightarrow> Inl ErrNoRows | Some x \<Rightarrow> Inr x))"

definition walletColumns :: "wallet_row \<Rightarrow> Wallet" where
  "walletColumns r = \<lparr>w_ID = wr_id r, w_UserID = wr_user_id r, w_BalanceCents = wr_balance_cents r,
     w_Currency = wr_currency r, w_Version = wr_version r, w_CreatedAt = wr_created_at r\<rparr>"

definition txColumns :: "tx_row \<Rightarrow> Transaction" where
  "txColumns r = \<lparr>t_ID = tr_id r, t_Kind = tr_kind r,
     t_FromWalletID = (case tr_from_wallet_id r of None \<Rightarrow> '''' | Some f \<Rightarrow> f),
     t_ToWalletID = tr_to_wallet_id r, t_AmountCents = tr_amount_cents r, t_Status = tr_status r,
     t_IdempotencyKey = tr_idempotency_key r, t_CreatedAt = tr_created_at r\<rparr>"

text \<open>The error of a scan: an empty result becomes \<open>ErrNotFound\<close>.\<close>

definition scan_error :: "go_error \<Rightarrow> go_error" where
  "scan_error err = (if errors_Is err ErrNoRows then ErrNotFound else err)"

definition scanWallet :: "go_error + wallet_row \<Rightarrow> go_error + Wallet" where
  "scanWallet row =
     (case row of
        Inl err \<Rightarrow> Inl (scan_error err)
      | Inr r \<Rightarrow> Inr (walletColumns r))"

definition scanTx :: "go_error + tx_row \<Rightarrow> go_error + Transaction" where
  "scanTx row =
     (case row of
        Inl err \<Rightarrow> Inl (scan_error err)
      | Inr r \<Rightarrow> Inr (txColumns r))"

section \<open>Wallets\<close>

text \<open>
  The pool-level calls: \<open>fault\<close> is the failure of the statement, \<open>gen\<close> and \<open>now\<close> what the
  server draws.  A single statement is its own transaction: an error leaves the tables as
  they were.
\<close>

definition CreateWallet ::
    "go_error option \<Rightarrow> uuid \<Rightarrow> timestamp \<Rightarrow> uuid \<Rightarrow> db \<Rightarrow> (go_error + Wallet) \<times> db" where
  "CreateWallet fault gen now userID d =
     (case fault of
        Some e \<Rightarrow> (scanWallet (Inl e), d)
      | None \<Rightarrow>
          (case insert_wallet gen now userID d of
             Inl e \<Rightarrow> (scanWallet (Inl e), d)
           | Inr (r, d') \<Rightarrow> (scanWallet (Inr r), d')))"

definition GetWalletByUser :: "go_error option \<Rightarrow> uuid \<Rightarrow> db \<Rightarrow> go_error + Wallet" where
  "GetWalletByUser fault userID d = scanWallet (QueryRow fault (select_wallet_by_user userID d))"

definition GetTransaction :: "go_error option \<Rightarrow> uuid \<Rightarrow> uuid \<Rightarrow> db \<Rightarrow> go_error + Transaction" where
  "GetTransaction fault userID txID d = scanTx (QueryRow fault (select_tx_of_user userID txID d))"

section \<open>Helpers\<close>

definition findByKey :: "tx_handle \<Rightarrow> uuid \<Rightarrow> string \<Rightarrow> db \<Rightarrow> go_error + Transaction" where
  "findByKey h userID key d = scanTx (QueryRow (h_fault h FindByKey) (select_tx_by_key userID key d))"

definition applyDelta :: "tx_handle \<Rightarrow> stmt \<Rightarrow> Wallet \<Rightarrow> int \<Rightarrow> db \<Rightarrow> go_error + db" where
  "applyDelta h st w delta d =
     (case h_fault h st of
        Some e \<Rightarrow> Inl e
      | None \<Rightarrow>
          (case update_wallet (h_now h) (w_ID w) delta (w_Version w) d of
             Inl e \<Rightarrow> Inl e
           | Inr (affected, d') \<Rightarrow> if affected = 0 then Inl ErrVersionConflict else Inr d'))"

text \<open>The row of \<open>INSERT INTO wallet.transactions (...) VALUES (...)\<close>, with the column defaults.\<close>

definition new_tx_row ::
    "tx_handle \<Rightarrow> uuid \<Rightarrow> string \<Rightarrow> uuid option \<Rightarrow> uuid \<Rightarrow> int \<Rightarrow> string \<Rightarrow> tx_row" where
  "new_tx_row h userID kind from to amount key =
     \<lparr>tr_id = h_uuid h, tr_user_id = userID, tr_kind = kind, tr_from_wallet_id = from,
      tr_to_wallet_id = to, tr_amount_cents = amount, tr_status = ''COMPLETED'',
      tr_idempotency_key = key, tr_created_at = h_now h\<rparr>"

definition new_outbox_row :: "tx_handle \<Rightarrow> string \<Rightarrow> string \<Rightarrow> json \<Rightarrow> outbox_row" where
  "new_outbox_row h topic key event =
     \<lparr>ob_id = h_nextval h, ob_topic = topic, ob_message_key = key, ob_payload = event,
      ob_headers = JObj [], ob_created_at = h_now h, ob_published_at = None\<rparr>"

definition insertTxRow ::
    "tx_handle \<Rightarrow> uuid \<Rightarrow> string \<Rightarrow> uuid option \<Rightarrow> uuid \<Rightarrow> int \<Rightarrow> string \<Rightarrow> db
       \<Rightarrow> go_error + Transaction \<times> db" where
  "insertTxRow h userID kind from to amount key d =
     (case h_fault h InsertTx of
        Some e \<Rightarrow> Inl (scan_error e)
      | None \<Rightarrow>
          (case insert_tx (new_tx_row h userID kind from to amount key) d of
             Inl e \<Rightarrow> Inl (scan_error e)
           | Inr (r, d') \<Rightarrow> Inr (txColumns r, d')))"

definition insertOutbox ::
    "tx_handle \<Rightarrow> string \<Rightarrow> string \<Rightarrow> json \<Rightarrow> db \<Rightarrow> go_error + db" where
  "insertOutbox h topic key event d =
     (case h_fault h InsertOutbox of
        Some e \<Rightarrow> Inl e
      | None \<Rightarrow>
          insert_outbox (new_outbox_row h topic key event) d)"

section \<open>Deposit\<close>

definition deposit_event :: "uuid \<Rightarrow> int \<Rightarrow> Wallet \<Rightarrow> Transaction \<Rightarrow> json" where
  "deposit_event userID amount w t = depositEvent_json
     \<lparr>de_EventID = t_ID t, de_Type = ''DepositCompleted'', de_TransactionID = t_ID t,
      de_WalletID = w_ID w, de_UserID = userID, de_AmountCents = amount,
      de_Currency = w_Currency w, de_OccurredAt = format_RFC3339Nano (t_CreatedAt t)\<rparr>"

definition Deposit_fn ::
    "uuid \<Rightarrow> int \<Rightarrow> string \<Rightarrow> tx_handle \<Rightarrow> db \<Rightarrow> go_error + Result \<times> db" where
  "Deposit_fn userID amount key h d =
     (case findByKey h userID key d of
        Inr existing \<Rightarrow>
          if t_Kind existing \<noteq> ''DEPOSIT'' \<or> t_AmountCents existing \<noteq> amount
          then Inl ErrIdempotencyConflict
          else Inr (\<lparr>res_Tx = existing, res_Replayed = True\<rparr>, d)
      | Inl err \<Rightarrow>
          if \<not> errors_Is err ErrNotFound then Inl err
          else
            (case scanWallet (QueryRow (h_fault h SelectSender) (select_wallet_by_user userID d)) of
               Inl err \<Rightarrow> Inl (WrapError ''wallet'' err)
             | Inr w \<Rightarrow>
                 (case applyDelta h UpdateFirst w amount d of
                    Inl err \<Rightarrow> Inl err
                  | Inr d1 \<Rightarrow>
                      (case insertTxRow h userID ''DEPOSIT'' None (w_ID w) amount key d1 of
                         Inl err \<Rightarrow> Inl err
                       | Inr (t, d2) \<Rightarrow>
                           (case insertOutbox h topicDeposits (w_ID w)
                                   (deposit_event userID amount w t) d2 of
                              Inl err \<Rightarrow> Inl err
                            | Inr d3 \<Rightarrow> Inr (\<lparr>res_Tx = t, res_Replayed = False\<rparr>, d3))))))"

section \<open>Transfer\<close>

definition transfer_event :: "int \<Rightarrow> Wallet \<Rightarrow> Wallet \<Rightarrow> Transaction \<Rightarrow> json" where
  "transfer_event amount from to t = transferEvent_json
     \<lparr>te_EventID = t_ID t, te_Type = ''TransferCompleted'', te_TransactionID = t_ID t,
      te_FromWalletID = w_ID from, te_ToWalletID = w_ID to, te_FromUserID = w_UserID from,
      te_ToUserID = w_UserID to, te_AmountCents = amount, te_Currency = w_Currency from,
      te_OccurredAt = format_RFC3339Nano (t_CreatedAt t)\<rparr>"

text \<open>The two updates, always in the order of the wallet ids.\<close>

definition update_order :: "Wallet \<Rightarrow> Wallet \<Rightarrow> int \<Rightarrow> (Wallet \<times> int) \<times> (Wallet \<times> int)" where
  "update_order from to amount =
     (if w_ID to < w_ID from
      then ((to, amount), (from, go_neg64 amount))
      else ((from, go_neg64 amount), (to, amount)))"

definition Transfer_fn ::
    "uuid \<Rightarrow> uuid \<Rightarrow> int \<Rightarrow> string \<Rightarrow> tx_handle \<Rightarrow> db \<Rightarrow> go_error + Result \<times> db" where
  "Transfer_fn userID toWalletID amount key h d =
     (case findByKey h userID key d of
        Inr existing \<Rightarrow>
          if t_Kind existing \<noteq> ''TRANSFER'' \<or> t_AmountCents existing \<noteq> amount \<or>
             t_ToWalletID existing \<noteq> toWalletID
          then Inl ErrIdempotencyConflict
          else Inr (\<lparr>res_Tx = existing, res_Replayed = True\<rparr>, d)
      | Inl err \<Rightarrow>
          if \<not> errors_Is err ErrNotFound then Inl err
          else
            (case scanWallet (QueryRow (h_fault h SelectSender) (select_wallet_by_user userID d)) of
               Inl err \<Rightarrow> Inl (WrapError ''sender wallet'' err)
             | Inr from \<Rightarrow>
            (case scanWallet (QueryRow (h_fault h SelectRecipient) (select_wallet_by_id toWalletID d)) of
               Inl err \<Rightarrow> Inl (WrapError ''recipient wallet'' err)
             | Inr to \<Rightarrow>
            if w_ID from = w_ID to then Inl ErrSameWallet
            else if w_Currency from \<noteq> w_Currency to then Inl ErrCurrencyMismatch
            else if w_BalanceCents from < amount then Inl ErrInsufficientFunds
            else
              (let ((first, firstDelta), (second, secondDelta)) = update_order from to amount in
               case applyDelta h UpdateFirst first firstDelta d of
                 Inl err \<Rightarrow> Inl err
               | Inr d1 \<Rightarrow>
              (case applyDelta h UpdateSecond second secondDelta d1 of
                 Inl err \<Rightarrow> Inl err
               | Inr d2 \<Rightarrow>
              (case insertTxRow h userID ''TRANSFER'' (Some (w_ID from)) (w_ID to) amount key d2 of
                 Inl err \<Rightarrow> Inl err
               | Inr (t, d3) \<Rightarrow>
              (case insertOutbox h topicTransfers (w_ID from) (transfer_event amount from to t) d3 of
                 Inl err \<Rightarrow> Inl err
               | Inr d4 \<Rightarrow> Inr (\<lparr>res_Tx = t, res_Replayed = False\<rparr>, d4))))))))"

end
