(* ===== verification/Accounting.thy ===== *)
theory Accounting
  imports Store
begin

text \<open>
  What a committed deposit or transfer does to the tables, stated without the locking
  protocol, and the invariants of the books: every balance is the sum of the movements
  recorded in \<open>wallet.transactions\<close>, every version counts them, and every movement has its
  event in the outbox.
\<close>

section \<open>Effect of one balance update\<close>

definition bump_wallet :: "timestamp \<Rightarrow> uuid \<Rightarrow> int \<Rightarrow> db \<Rightarrow> db" where
  "bump_wallet now wid delta d =
     d\<lparr>wallets := map (\<lambda>w. if wr_id w = wid then bump_row now delta w else w) (wallets d)\<rparr>"

definition bump_fits :: "int \<Rightarrow> wallet_row \<Rightarrow> bool" where
  "bump_fits delta w \<longleftrightarrow> in_int64 (wr_balance_cents w + delta) \<and> wr_version w < int32_max"

lemma bump_row_simps [simp]:
  "wr_id (bump_row now delta w) = wr_id w"
  "wr_user_id (bump_row now delta w) = wr_user_id w"
  "wr_currency (bump_row now delta w) = wr_currency w"
  "wr_balance_cents (bump_row now delta w) = wr_balance_cents w + delta"
  "wr_version (bump_row now delta w) = wr_version w + 1"
  "wr_created_at (bump_row now delta w) = wr_created_at w"
  by (simp_all add: bump_row_def)

lemma bump_wallet_simps [simp]:
  "transactions (bump_wallet now wid delta d) = transactions d"
  "outbox (bump_wallet now wid delta d) = outbox d"
  "map wr_id (wallets (bump_wallet now wid delta d)) = map wr_id (wallets d)"
  "map wr_user_id (wallets (bump_wallet now wid delta d)) = map wr_user_id (wallets d)"
  by (auto simp: bump_wallet_def)

lemma bump_wallet_other:
  "w \<in> set (wallets d) \<Longrightarrow> wr_id w \<noteq> wid \<Longrightarrow> w \<in> set (wallets (bump_wallet now wid delta d))"
  by (force simp: bump_wallet_def)

lemma bump_wallet_commute:
  "a \<noteq> b \<Longrightarrow>
     bump_wallet now a x (bump_wallet now b y d) = bump_wallet now b y (bump_wallet now a x d)"
  by (simp add: bump_wallet_def)

text \<open>
  The version check, in isolation, always matches the row that was read: the update hits
  exactly one row.
\<close>

lemma update_wallet_read_row:
  assumes "distinct (map wr_id (wallets d))" and "w \<in> set (wallets d)"
  shows "update_wallet now (wr_id w) delta (wr_version w) d =
     (if \<not> bump_fits delta w then Inl (PgError ''22003'' ''out of range'')
      else if wr_balance_cents w + delta < 0
      then Inl (PgError ''23514'' ''violates check constraint'')
      else Inr (1, bump_wallet now (wr_id w) delta d))"
proof -
  have "filter (\<lambda>v. wr_id v = wr_id w \<and> wr_version v = wr_version w) (wallets d) =
        filter (\<lambda>v. wr_version v = wr_version w) (filter (\<lambda>v. wr_id v = wr_id w) (wallets d))"
    by (auto intro: filter_cong)
  also have "\<dots> = [w]" using assms by (simp add: filter_key)
  finally have rows: "filter (\<lambda>v. wr_id v = wr_id w \<and> wr_version v = wr_version w) (wallets d) = [w]" .
  have same: "map (\<lambda>v. if wr_id v = wr_id w \<and> wr_version v = wr_version w then bump_row now delta v else v)
        (wallets d) =
      map (\<lambda>v. if wr_id v = wr_id w then bump_row now delta v else v) (wallets d)"
    using key_inj [OF assms(1) _ assms(2)] by (intro map_cong refl) auto
  show ?thesis
    unfolding update_wallet_def Let_def rows same
    by (auto simp: bump_fits_def bump_wallet_def)
qed

text \<open>A row that was changed since it was read has another version, and the update hits nothing.\<close>

lemma update_wallet_stale:
  assumes "\<And>v. v \<in> set (wallets d) \<Longrightarrow> wr_id v = wid \<Longrightarrow> wr_version v \<noteq> ver"
  shows "update_wallet now wid delta ver d = Inr (0, d)"
proof -
  have "filter (\<lambda>v. wr_id v = wid \<and> wr_version v = ver) (wallets d) = []"
    using assms by (auto simp: filter_empty_conv)
  moreover have "map (\<lambda>v. if wr_id v = wid \<and> wr_version v = ver then bump_row now delta v else v)
      (wallets d) = wallets d"
    using assms by (intro map_id_on) auto
  ultimately show ?thesis by (simp add: update_wallet_def)
qed

lemma applyDelta_read_row:
  assumes "distinct (map wr_id (wallets d))" and "w \<in> set (wallets d)"
  shows "applyDelta h st (walletColumns w) delta d =
     (case h_fault h st of Some e \<Rightarrow> Inl e
      | None \<Rightarrow>
          if \<not> bump_fits delta w then Inl (PgError ''22003'' ''out of range'')
          else if wr_balance_cents w + delta < 0
          then Inl (PgError ''23514'' ''violates check constraint'')
          else Inr (bump_wallet (h_now h) (wr_id w) delta d))"
  by (simp add: applyDelta_def walletColumns_def update_wallet_read_row [OF assms]
      split: option.splits)

lemma applyDelta_InrD:
  assumes "applyDelta h st (walletColumns w) delta d = Inr d'"
    and "distinct (map wr_id (wallets d))" and "w \<in> set (wallets d)"
  shows "d' = bump_wallet (h_now h) (wr_id w) delta d \<and> bump_fits delta w \<and>
    0 \<le> wr_balance_cents w + delta"
  using assms(1) unfolding applyDelta_read_row [OF assms(2,3)]
  by (auto split: option.splits if_splits)

section \<open>The committed states\<close>

definition deposit_row :: "tx_handle \<Rightarrow> uuid \<Rightarrow> string \<Rightarrow> int \<Rightarrow> wallet_row \<Rightarrow> tx_row" where
  "deposit_row h userID key amount w = new_tx_row h userID ''DEPOSIT'' None (wr_id w) amount key"

definition transfer_row ::
    "tx_handle \<Rightarrow> uuid \<Rightarrow> string \<Rightarrow> int \<Rightarrow> wallet_row \<Rightarrow> wallet_row \<Rightarrow> tx_row" where
  "transfer_row h userID key amount f t =
     new_tx_row h userID ''TRANSFER'' (Some (wr_id f)) (wr_id t) amount key"

definition deposit_outbox :: "tx_handle \<Rightarrow> uuid \<Rightarrow> string \<Rightarrow> int \<Rightarrow> wallet_row \<Rightarrow> outbox_row" where
  "deposit_outbox h userID key amount w = new_outbox_row h topicDeposits (wr_id w)
     (deposit_event userID amount (walletColumns w) (txColumns (deposit_row h userID key amount w)))"

definition transfer_outbox ::
    "tx_handle \<Rightarrow> uuid \<Rightarrow> string \<Rightarrow> int \<Rightarrow> wallet_row \<Rightarrow> wallet_row \<Rightarrow> outbox_row" where
  "transfer_outbox h userID key amount f t = new_outbox_row h topicTransfers (wr_id f)
     (transfer_event amount (walletColumns f) (walletColumns t)
        (txColumns (transfer_row h userID key amount f t)))"

lemma new_tx_row_simps [simp]:
  "tr_id (new_tx_row h u kind from to amount k) = h_uuid h"
  "tr_user_id (new_tx_row h u kind from to amount k) = u"
  "tr_kind (new_tx_row h u kind from to amount k) = kind"
  "tr_from_wallet_id (new_tx_row h u kind from to amount k) = from"
  "tr_to_wallet_id (new_tx_row h u kind from to amount k) = to"
  "tr_amount_cents (new_tx_row h u kind from to amount k) = amount"
  "tr_idempotency_key (new_tx_row h u kind from to amount k) = k"
  "tr_created_at (new_tx_row h u kind from to amount k) = h_now h"
  by (simp_all add: new_tx_row_def)

lemma new_outbox_row_simps [simp]:
  "ob_id (new_outbox_row h topic k ev) = h_nextval h"
  "ob_topic (new_outbox_row h topic k ev) = topic"
  "ob_message_key (new_outbox_row h topic k ev) = k"
  "ob_payload (new_outbox_row h topic k ev) = ev"
  "ob_published_at (new_outbox_row h topic k ev) = None"
  by (simp_all add: new_outbox_row_def)

definition post_deposit :: "tx_handle \<Rightarrow> uuid \<Rightarrow> string \<Rightarrow> int \<Rightarrow> wallet_row \<Rightarrow> db \<Rightarrow> db" where
  "post_deposit h userID key amount w d =
     (bump_wallet (h_now h) (wr_id w) amount d)
       \<lparr>transactions := transactions d @ [deposit_row h userID key amount w],
        outbox := outbox d @ [deposit_outbox h userID key amount w]\<rparr>"

definition post_transfer ::
    "tx_handle \<Rightarrow> uuid \<Rightarrow> string \<Rightarrow> int \<Rightarrow> wallet_row \<Rightarrow> wallet_row \<Rightarrow> db \<Rightarrow> db" where
  "post_transfer h userID key amount f t d =
     (bump_wallet (h_now h) (wr_id t) amount (bump_wallet (h_now h) (wr_id f) (- amount) d))
       \<lparr>transactions := transactions d @ [transfer_row h userID key amount f t],
        outbox := outbox d @ [transfer_outbox h userID key amount f t]\<rparr>"

text \<open>What the inserts of a body check: values drawn by the server that are not in use.\<close>

definition drawn_fresh :: "tx_handle \<Rightarrow> db \<Rightarrow> bool" where
  "drawn_fresh h d \<longleftrightarrow> h_uuid h \<notin> tr_id ` set (transactions d) \<and> h_nextval h \<notin> ob_id ` set (outbox d)"

lemma select_tx_by_key_None:
  "select_tx_by_key u k d = None \<longleftrightarrow>
     (\<forall>t\<in>set (transactions d). \<not> (tr_user_id t = u \<and> tr_idempotency_key t = k))"
  by (simp add: select_tx_by_key_def find_None_all)

lemma select_tx_by_key_SomeD:
  "select_tx_by_key u k d = Some t \<Longrightarrow>
     t \<in> set (transactions d) \<and> tr_user_id t = u \<and> tr_idempotency_key t = k"
  by (auto simp: select_tx_by_key_def dest: find_SomeD)

lemma select_wallet_by_user_SomeD:
  "select_wallet_by_user u d = Some w \<Longrightarrow> w \<in> set (wallets d) \<and> wr_user_id w = u"
  by (auto simp: select_wallet_by_user_def dest: find_SomeD)

lemma select_wallet_by_id_SomeD:
  "select_wallet_by_id i d = Some w \<Longrightarrow> w \<in> set (wallets d) \<and> wr_id w = i"
  by (auto simp: select_wallet_by_id_def dest: find_SomeD)

section \<open>Success of the statements\<close>

named_theorems stmt_inr "when a statement of a body succeeds, and with what"

lemma QueryRow_Inr [stmt_inr]: "QueryRow f r = Inr x \<longleftrightarrow> f = None \<and> r = Some x"
  by (auto simp: QueryRow_def split: option.splits)

lemma scanWallet_Inr [stmt_inr]: "scanWallet q = Inr w \<longleftrightarrow> (\<exists>r. q = Inr r \<and> w = walletColumns r)"
  by (auto simp: scanWallet_def split: sum.splits)

lemma scanTx_Inr [stmt_inr]: "scanTx q = Inr t \<longleftrightarrow> (\<exists>r. q = Inr r \<and> t = txColumns r)"
  by (auto simp: scanTx_def split: sum.splits)

lemma findByKey_Inr [stmt_inr]:
  "findByKey h u k d = Inr t \<longleftrightarrow>
     h_fault h FindByKey = None \<and> (\<exists>r. select_tx_by_key u k d = Some r \<and> t = txColumns r)"
  by (auto simp: findByKey_def stmt_inr)

lemma insert_tx_Inr [stmt_inr]:
  "insert_tx t d = Inr (r, d') \<longleftrightarrow>
     tx_checks t \<and> tr_id t \<notin> tr_id ` set (transactions d) \<and>
     select_tx_by_key (tr_user_id t) (tr_idempotency_key t) d = None \<and> tx_refs d t \<and>
     r = t \<and> d' = d\<lparr>transactions := transactions d @ [t]\<rparr>"
  by (auto simp: insert_tx_def list_ex_key select_tx_by_key_None) (auto simp: list_ex_iff)

lemma insertTxRow_Inr [stmt_inr]:
  "insertTxRow h u kind from to amt k d = Inr (t, d') \<longleftrightarrow>
     h_fault h InsertTx = None \<and>
     (\<exists>r. insert_tx (new_tx_row h u kind from to amt k) d = Inr (r, d') \<and> t = txColumns r)"
  by (auto simp: insertTxRow_def split: option.splits sum.splits)

lemma insertOutbox_Inr [stmt_inr]:
  "insertOutbox h topic k ev d = Inr d' \<longleftrightarrow>
     h_fault h InsertOutbox = None \<and> h_nextval h \<notin> ob_id ` set (outbox d) \<and>
     d' = d\<lparr>outbox := outbox d @ [new_outbox_row h topic k ev]\<rparr>"
  by (auto simp: insertOutbox_def insert_outbox_def list_ex_key split: option.splits)

section \<open>Success of the bodies\<close>

text \<open>A deposit that returns either replays the recorded one or adds the money once.\<close>

definition deposit_replays :: "uuid \<Rightarrow> int \<Rightarrow> string \<Rightarrow> db \<Rightarrow> tx_row \<Rightarrow> bool" where
  "deposit_replays u amount k d t \<longleftrightarrow>
     select_tx_by_key u k d = Some t \<and> tr_kind t = ''DEPOSIT'' \<and> tr_amount_cents t = amount"

definition deposit_moves :: "uuid \<Rightarrow> int \<Rightarrow> string \<Rightarrow> tx_handle \<Rightarrow> db \<Rightarrow> wallet_row \<Rightarrow> bool" where
  "deposit_moves u amount k h d w \<longleftrightarrow>
     select_tx_by_key u k d = None \<and> select_wallet_by_user u d = Some w \<and> 0 < amount \<and>
     bump_fits amount w \<and> 0 \<le> wr_balance_cents w + amount \<and> drawn_fresh h d"

lemma Deposit_fn_Inr:
  assumes ok: "schema_ok d" and ret: "Deposit_fn u amount k h d = Inr (r, d')"
  obtains
    (replay) t where "deposit_replays u amount k d t" and "d' = d"
      and "r = \<lparr>res_Tx = txColumns t, res_Replayed = True\<rparr>"
  | (moved) w where "deposit_moves u amount k h d w"
      and "d' = post_deposit h u k amount w d"
      and "r = \<lparr>res_Tx = txColumns (deposit_row h u k amount w), res_Replayed = False\<rparr>"
proof (cases "findByKey h u k d")
  case (Inr e)
  with ret that(1) show ?thesis
    by (auto simp: Deposit_fn_def stmt_inr txColumns_def deposit_replays_def split: if_splits)
next
  case (Inl e)
  with ret obtain cw d1 t d2 where
    sel: "scanWallet (QueryRow (h_fault h SelectSender) (select_wallet_by_user u d)) = Inr cw"
    and upd: "applyDelta h UpdateFirst cw amount d = Inr d1"
    and ins: "insertTxRow h u ''DEPOSIT'' None (w_ID cw) amount k d1 = Inr (t, d2)"
    and out: "insertOutbox h topicDeposits (w_ID cw) (deposit_event u amount cw t) d2 = Inr d'"
    and r: "r = \<lparr>res_Tx = t, res_Replayed = False\<rparr>"
    by (auto simp: Deposit_fn_def split: if_splits sum.splits)
  from sel obtain w where w: "select_wallet_by_user u d = Some w" and cw: "cw = walletColumns w"
    by (auto simp: stmt_inr)
  from w have mem: "w \<in> set (wallets d)" by (blast dest: select_wallet_by_user_SomeD)
  from applyDelta_InrD [OF upd [unfolded cw] schema_okD(1) [OF ok] mem]
  have d1: "d1 = bump_wallet (h_now h) (wr_id w) amount d" and fits: "bump_fits amount w"
    and nonneg: "0 \<le> wr_balance_cents w + amount" by simp_all
  have key: "select_tx_by_key u k d1 = select_tx_by_key u k d"
    by (simp add: d1 select_tx_by_key_def)
  from ins out have "deposit_moves u amount k h d w"
    using w fits nonneg key
    by (auto simp: deposit_moves_def stmt_inr drawn_fresh_def d1 tx_checks_def)
  moreover from ins out d1 have "d' = post_deposit h u k amount w d"
    by (auto simp: stmt_inr post_deposit_def deposit_row_def deposit_outbox_def cw walletColumns_def)
  moreover from ins r have "r = \<lparr>res_Tx = txColumns (deposit_row h u k amount w), res_Replayed = False\<rparr>"
    by (auto simp: stmt_inr deposit_row_def cw walletColumns_def)
  ultimately show ?thesis by (rule that(2))
qed

text \<open>A transfer that returns either replays the recorded one or moves the money once.\<close>

definition transfer_replays :: "uuid \<Rightarrow> uuid \<Rightarrow> int \<Rightarrow> string \<Rightarrow> db \<Rightarrow> tx_row \<Rightarrow> bool" where
  "transfer_replays u to amount k d t \<longleftrightarrow>
     select_tx_by_key u k d = Some t \<and> tr_kind t = ''TRANSFER'' \<and> tr_amount_cents t = amount \<and>
     tr_to_wallet_id t = to"

definition transfer_moves ::
    "uuid \<Rightarrow> uuid \<Rightarrow> int \<Rightarrow> string \<Rightarrow> tx_handle \<Rightarrow> db \<Rightarrow> wallet_row \<Rightarrow> wallet_row \<Rightarrow> bool" where
  "transfer_moves u to amount k h d f t \<longleftrightarrow>
     select_tx_by_key u k d = None \<and> select_wallet_by_user u d = Some f \<and>
     select_wallet_by_id to d = Some t \<and> wr_id f \<noteq> wr_id t \<and> wr_currency f = wr_currency t \<and>
     0 < amount \<and> amount \<le> wr_balance_cents f \<and> bump_fits (- amount) f \<and> bump_fits amount t \<and>
     drawn_fresh h d"

text \<open>The two guarded updates, in either order, are the two bumps.\<close>

lemma applyDelta_twice:
  assumes ids: "distinct (map wr_id (wallets d))" and a: "a \<in> set (wallets d)"
    and b: "b \<in> set (wallets d)" and ne: "wr_id a \<noteq> wr_id b"
    and u1: "applyDelta h s1 (walletColumns a) x d = Inr d1"
    and u2: "applyDelta h s2 (walletColumns b) y d1 = Inr d2"
  shows "d2 = bump_wallet (h_now h) (wr_id b) y (bump_wallet (h_now h) (wr_id a) x d) \<and>
    bump_fits x a \<and> bump_fits y b \<and> 0 \<le> wr_balance_cents a + x \<and> 0 \<le> wr_balance_cents b + y"
proof -
  from applyDelta_InrD [OF u1 ids a] have d1: "d1 = bump_wallet (h_now h) (wr_id a) x d"
    and fa: "bump_fits x a" "0 \<le> wr_balance_cents a + x" by simp_all
  have "b \<in> set (wallets d1)" using b ne by (simp add: d1 bump_wallet_other)
  moreover have "distinct (map wr_id (wallets d1))" using ids by (simp add: d1)
  ultimately show ?thesis using applyDelta_InrD [OF u2] d1 fa by simp
qed

lemma Transfer_fn_Inr_body:
  assumes ret: "Transfer_fn u to amount k h d = Inr (r, d')" and new: "findByKey h u k d = Inl e"
  obtains f t a x b y d1 d2 tx d3 where
    "select_wallet_by_user u d = Some f" and "select_wallet_by_id to d = Some t"
    and "wr_id f \<noteq> wr_id t" and "wr_currency f = wr_currency t" and "amount \<le> wr_balance_cents f"
    and "(a, x, b, y) = (f, go_neg64 amount, t, amount) \<or> (a, x, b, y) = (t, amount, f, go_neg64 amount)"
    and "applyDelta h UpdateFirst (walletColumns a) x d = Inr d1"
    and "applyDelta h UpdateSecond (walletColumns b) y d1 = Inr d2"
    and "insertTxRow h u ''TRANSFER'' (Some (wr_id f)) (wr_id t) amount k d2 = Inr (tx, d3)"
    and "insertOutbox h topicTransfers (wr_id f)
           (transfer_event amount (walletColumns f) (walletColumns t) tx) d3 = Inr d'"
    and "r = \<lparr>res_Tx = tx, res_Replayed = False\<rparr>"
proof -
  have cols [simp]: "w_ID (walletColumns w) = wr_id w" "w_Currency (walletColumns w) = wr_currency w"
    "w_BalanceCents (walletColumns w) = wr_balance_cents w" for w
    by (simp_all add: walletColumns_def)
  from ret new obtain cf ct where
    f: "scanWallet (QueryRow (h_fault h SelectSender) (select_wallet_by_user u d)) = Inr cf" and
    t: "scanWallet (QueryRow (h_fault h SelectRecipient) (select_wallet_by_id to d)) = Inr ct"
    by (auto simp: Transfer_fn_def split: if_splits sum.splits)
  from f obtain wf where wf: "select_wallet_by_user u d = Some wf" "cf = walletColumns wf"
    by (auto simp: stmt_inr)
  from t obtain wt where wt: "select_wallet_by_id to d = Some wt" "ct = walletColumns wt"
    by (auto simp: stmt_inr)
  show thesis
  proof (cases "wr_id wt < wr_id wf")
    case True
    with ret new f t wf wt that [of wf wt wt amount wf "go_neg64 amount"] show thesis
      by (auto simp: Transfer_fn_def update_order_def split: if_splits sum.splits)
  next
    case False
    with ret new f t wf wt that [of wf wt wf "go_neg64 amount" wt amount] show thesis
      by (auto simp: Transfer_fn_def update_order_def split: if_splits sum.splits)
  qed
qed

lemma Transfer_fn_Inr:
  assumes ok: "schema_ok d" and ret: "Transfer_fn u to amount k h d = Inr (r, d')"
  obtains
    (replay) t where "transfer_replays u to amount k d t" and "d' = d"
      and "r = \<lparr>res_Tx = txColumns t, res_Replayed = True\<rparr>"
  | (moved) f t where "transfer_moves u to amount k h d f t"
      and "d' = post_transfer h u k amount f t d"
      and "r = \<lparr>res_Tx = txColumns (transfer_row h u k amount f t), res_Replayed = False\<rparr>"
proof (cases "findByKey h u k d")
  case (Inr e)
  with ret that(1) show ?thesis
    by (auto simp: Transfer_fn_def stmt_inr txColumns_def transfer_replays_def split: if_splits)
next
  case (Inl e)
  obtain f t a x b y d1 d2 tx d3 where
    f: "select_wallet_by_user u d = Some f" and t: "select_wallet_by_id to d = Some t"
    and ne: "wr_id f \<noteq> wr_id t" and cur: "wr_currency f = wr_currency t"
    and bal: "amount \<le> wr_balance_cents f"
    and ord: "(a, x, b, y) = (f, go_neg64 amount, t, amount) \<or> (a, x, b, y) = (t, amount, f, go_neg64 amount)"
    and u1: "applyDelta h UpdateFirst (walletColumns a) x d = Inr d1"
    and u2: "applyDelta h UpdateSecond (walletColumns b) y d1 = Inr d2"
    and ins: "insertTxRow h u ''TRANSFER'' (Some (wr_id f)) (wr_id t) amount k d2 = Inr (tx, d3)"
    and out: "insertOutbox h topicTransfers (wr_id f)
           (transfer_event amount (walletColumns f) (walletColumns t) tx) d3 = Inr d'"
    and r: "r = \<lparr>res_Tx = tx, res_Replayed = False\<rparr>"
    by (rule Transfer_fn_Inr_body [OF ret Inl])
  have fm: "f \<in> set (wallets d)" and tm: "t \<in> set (wallets d)"
    using f t by (blast dest: select_wallet_by_user_SomeD select_wallet_by_id_SomeD)+
  from ins have pos: "0 < amount" by (auto simp: stmt_inr tx_checks_def)
  have neg: "go_neg64 amount = - amount"
    using pos bal schema_okD(3) [OF ok fm] by (intro go_neg64_pos) (auto simp: wallet_checks_def)
  have d2: "d2 = bump_wallet (h_now h) (wr_id t) amount (bump_wallet (h_now h) (wr_id f) (- amount) d) \<and>
      bump_fits (- amount) f \<and> bump_fits amount t"
    using ord
  proof (elim disjE)
    assume "(a, x, b, y) = (f, go_neg64 amount, t, amount)"
    with u1 u2 neg show ?thesis
      using applyDelta_twice [OF schema_okD(1) [OF ok] fm tm ne] by simp
  next
    assume "(a, x, b, y) = (t, amount, f, go_neg64 amount)"
    with u1 u2 neg show ?thesis
      using applyDelta_twice [OF schema_okD(1) [OF ok] tm fm ne [symmetric]]
        bump_wallet_commute [OF ne] by simp
  qed
  have key: "select_tx_by_key u k d2 = select_tx_by_key u k d"
    using d2 by (simp add: select_tx_by_key_def)
  from ins out d2 have "transfer_moves u to amount k h d f t"
    using f t ne cur bal pos key by (auto simp: transfer_moves_def stmt_inr drawn_fresh_def)
  moreover from ins out d2 have "d' = post_transfer h u k amount f t d"
    by (auto simp: stmt_inr post_transfer_def transfer_row_def transfer_outbox_def)
  moreover from ins r have
    "r = \<lparr>res_Tx = txColumns (transfer_row h u k amount f t), res_Replayed = False\<rparr>"
    by (auto simp: stmt_inr transfer_row_def)
  ultimately show ?thesis by (rule that(2))
qed

section \<open>The bodies against their reference\<close>

text \<open>
  The same decisions without versions, without the ordering of the updates and with the
  constraint violations of the statements resolved: what a client of an isolated body sees.
\<close>

definition deposit_ref :: "uuid \<Rightarrow> int \<Rightarrow> string \<Rightarrow> tx_handle \<Rightarrow> db \<Rightarrow> go_error + Result \<times> db" where
  "deposit_ref u amount k h d =
     (case select_tx_by_key u k d of
        Some t \<Rightarrow>
          if tr_kind t = ''DEPOSIT'' \<and> tr_amount_cents t = amount
          then Inr (\<lparr>res_Tx = txColumns t, res_Replayed = True\<rparr>, d) else Inl ErrIdempotencyConflict
      | None \<Rightarrow>
          (case select_wallet_by_user u d of
             None \<Rightarrow> Inl (WrapError ''wallet'' ErrNotFound)
           | Some w \<Rightarrow>
               if \<not> bump_fits amount w then Inl (PgError ''22003'' ''out of range'')
               else Inr (\<lparr>res_Tx = txColumns (deposit_row h u k amount w), res_Replayed = False\<rparr>,
                         post_deposit h u k amount w d)))"

definition transfer_ref ::
    "uuid \<Rightarrow> uuid \<Rightarrow> int \<Rightarrow> string \<Rightarrow> tx_handle \<Rightarrow> db \<Rightarrow> go_error + Result \<times> db" where
  "transfer_ref u to amount k h d =
     (case select_tx_by_key u k d of
        Some t \<Rightarrow>
          if tr_kind t = ''TRANSFER'' \<and> tr_amount_cents t = amount \<and> tr_to_wallet_id t = to
          then Inr (\<lparr>res_Tx = txColumns t, res_Replayed = True\<rparr>, d) else Inl ErrIdempotencyConflict
      | None \<Rightarrow>
          (case (select_wallet_by_user u d, select_wallet_by_id to d) of
             (None, _) \<Rightarrow> Inl (WrapError ''sender wallet'' ErrNotFound)
           | (Some f, None) \<Rightarrow> Inl (WrapError ''recipient wallet'' ErrNotFound)
           | (Some f, Some t) \<Rightarrow>
               if wr_id f = wr_id t then Inl ErrSameWallet
               else if wr_currency f \<noteq> wr_currency t then Inl ErrCurrencyMismatch
               else if wr_balance_cents f < amount then Inl ErrInsufficientFunds
               else if \<not> (bump_fits (- amount) f \<and> bump_fits amount t)
               then Inl (PgError ''22003'' ''out of range'')
               else Inr (\<lparr>res_Tx = txColumns (transfer_row h u k amount f t), res_Replayed = False\<rparr>,
                         post_transfer h u k amount f t d)))"

lemma tx_refs_ids:
  "tx_refs d t \<longleftrightarrow> tr_to_wallet_id t \<in> set (map wr_id (wallets d)) \<and>
     (\<forall>f. tr_from_wallet_id t = Some f \<longrightarrow> f \<in> set (map wr_id (wallets d)))"
  by (auto simp: tx_refs_def list_ex_key split: option.splits)

lemma tx_refs_cong: "set (map wr_id (wallets d)) \<subseteq> set (map wr_id (wallets d')) \<Longrightarrow> tx_refs d t \<Longrightarrow> tx_refs d' t"
  unfolding tx_refs_ids by blast

lemma walletColumns_simps [simp]:
  "w_ID (walletColumns w) = wr_id w" "w_UserID (walletColumns w) = wr_user_id w"
  "w_Currency (walletColumns w) = wr_currency w" "w_Version (walletColumns w) = wr_version w"
  "w_BalanceCents (walletColumns w) = wr_balance_cents w" "w_CreatedAt (walletColumns w) = wr_created_at w"
  by (simp_all add: walletColumns_def)

lemma scan_no_fault:
  "scanWallet (QueryRow None r) = (case r of None \<Rightarrow> Inl ErrNotFound | Some x \<Rightarrow> Inr (walletColumns x))"
  "scanTx (QueryRow None r') = (case r' of None \<Rightarrow> Inl ErrNotFound | Some y \<Rightarrow> Inr (txColumns y))"
  by (simp_all add: scanWallet_def scanTx_def QueryRow_def scan_error_def split: option.splits)

lemma txColumns_simps [simp]:
  "t_ID (txColumns r) = tr_id r" "t_Kind (txColumns r) = tr_kind r"
  "t_ToWalletID (txColumns r) = tr_to_wallet_id r" "t_AmountCents (txColumns r) = tr_amount_cents r"
  "t_IdempotencyKey (txColumns r) = tr_idempotency_key r" "t_Status (txColumns r) = tr_status r"
  "t_CreatedAt (txColumns r) = tr_created_at r"
  by (simp_all add: txColumns_def)

lemma Deposit_fn_ref:
  assumes ok: "schema_ok d" and pos: "0 < amount"
    and up: "h_fault h = (\<lambda>_. None)" and fresh: "drawn_fresh h d"
  shows "Deposit_fn u amount k h d = deposit_ref u amount k h d"
proof (cases "select_tx_by_key u k d")
  case (Some t)
  then show ?thesis by (simp add: Deposit_fn_def deposit_ref_def findByKey_def up scan_no_fault)
next
  case key: None
  show ?thesis
  proof (cases "select_wallet_by_user u d")
    case None
    with key show ?thesis by (simp add: Deposit_fn_def deposit_ref_def findByKey_def up scan_no_fault)
  next
    case (Some w)
    then have mem: "w \<in> set (wallets d)" by (blast dest: select_wallet_by_user_SomeD)
    have nonneg: "\<not> wr_balance_cents w + amount < 0"
      using schema_okD(3) [OF ok mem] pos by (simp add: wallet_checks_def)
    let ?d1 = "bump_wallet (h_now h) (wr_id w) amount d"
    let ?t = "deposit_row h u k amount w"
    have refs: "tx_refs ?d1 ?t" using mem by (simp add: tx_refs_ids deposit_row_def)
    have "insertTxRow h u ''DEPOSIT'' None (wr_id w) amount k ?d1 =
        Inr (txColumns ?t, ?d1\<lparr>transactions := transactions d @ [?t]\<rparr>)"
      unfolding insertTxRow_Inr insert_tx_Inr using refs key fresh pos up
      by (auto simp: deposit_row_def tx_checks_def drawn_fresh_def select_tx_by_key_def)
    then show ?thesis
      using key Some fresh up nonneg applyDelta_read_row [OF schema_okD(1) [OF ok] mem]
      by (simp add: Deposit_fn_def deposit_ref_def findByKey_def scan_no_fault insertOutbox_def
          insert_outbox_def list_ex_key drawn_fresh_def post_deposit_def deposit_outbox_def)
  qed
qed

lemma applyDelta_both:
  assumes ids: "distinct (map wr_id (wallets d))" and a: "a \<in> set (wallets d)"
    and b: "b \<in> set (wallets d)" and ne: "wr_id a \<noteq> wr_id b" and up: "h_fault h = (\<lambda>_. None)"
    and na: "0 \<le> wr_balance_cents a + x" and nb: "0 \<le> wr_balance_cents b + y"
  shows "(case applyDelta h UpdateFirst (walletColumns a) x d of Inl e \<Rightarrow> Inl e
          | Inr d1 \<Rightarrow> (case applyDelta h UpdateSecond (walletColumns b) y d1 of Inl e \<Rightarrow> Inl e
                     | Inr d2 \<Rightarrow> rest d2)) =
     (if bump_fits x a \<and> bump_fits y b
      then rest (bump_wallet (h_now h) (wr_id b) y (bump_wallet (h_now h) (wr_id a) x d))
      else Inl (PgError ''22003'' ''out of range''))"
proof -
  let ?d1 = "bump_wallet (h_now h) (wr_id a) x d"
  have "distinct (map wr_id (wallets ?d1))" using ids by simp
  moreover have "b \<in> set (wallets ?d1)" using b ne by (simp add: bump_wallet_other)
  ultimately show ?thesis
    using applyDelta_read_row [OF ids a, of h UpdateFirst x]
      applyDelta_read_row [of ?d1 b h UpdateSecond y] up na nb
    by simp
qed

lemma Transfer_fn_ref:
  assumes ok: "schema_ok d" and pos: "0 < amount" and rng: "amount \<le> int64_max"
    and up: "h_fault h = (\<lambda>_. None)" and fresh: "drawn_fresh h d"
  shows "Transfer_fn u to amount k h d = transfer_ref u to amount k h d"
proof (cases "\<exists>f t. select_tx_by_key u k d = None \<and> select_wallet_by_user u d = Some f \<and>
    select_wallet_by_id to d = Some t \<and> wr_id f \<noteq> wr_id t \<and> amount \<le> wr_balance_cents f")
  case False
  then show ?thesis
    by (auto simp: Transfer_fn_def transfer_ref_def findByKey_def up scan_no_fault
        split: option.split)
next
  case True
  then obtain f t where key: "select_tx_by_key u k d = None" and f: "select_wallet_by_user u d = Some f"
    and t: "select_wallet_by_id to d = Some t" and ne: "wr_id f \<noteq> wr_id t"
    and bal: "amount \<le> wr_balance_cents f" by blast
  have fm: "f \<in> set (wallets d)" and tm: "t \<in> set (wallets d)"
    using f t by (blast dest: select_wallet_by_user_SomeD select_wallet_by_id_SomeD)+
  have neg: "go_neg64 amount = - amount" using pos rng by (rule go_neg64_pos)
  have nf: "0 \<le> wr_balance_cents f + - amount" using bal by simp
  have nt: "0 \<le> wr_balance_cents t + amount"
    using schema_okD(3) [OF ok tm] pos by (simp add: wallet_checks_def)
  let ?d2 = "bump_wallet (h_now h) (wr_id t) amount (bump_wallet (h_now h) (wr_id f) (- amount) d)"
  let ?r = "transfer_row h u k amount f t"
  have "tx_refs ?d2 ?r" using fm tm by (simp add: tx_refs_ids transfer_row_def)
  then have ins: "insertTxRow h u ''TRANSFER'' (Some (wr_id f)) (wr_id t) amount k ?d2 =
      Inr (txColumns ?r, ?d2\<lparr>transactions := transactions d @ [?r]\<rparr>)"
    unfolding insertTxRow_Inr insert_tx_Inr using key fresh pos up ne
    by (auto simp: transfer_row_def tx_checks_def drawn_fresh_def select_tx_by_key_def)
  note both = applyDelta_both [OF schema_okD(1) [OF ok] fm tm ne up nf nt]
    applyDelta_both [OF schema_okD(1) [OF ok] tm fm ne [symmetric] up nt nf]
  show ?thesis
    using key f t ne bal ins fresh up neg
    by (simp add: Transfer_fn_def transfer_ref_def findByKey_def scan_no_fault update_order_def
        both bump_wallet_commute [OF ne] insertOutbox_def insert_outbox_def list_ex_key
        drawn_fresh_def post_transfer_def transfer_outbox_def conj_commute)
qed

end
