(* ===== verification/Books.thy ===== *)
theory Books
  imports Accounting
begin

text \<open>
  The invariants of the wallet tables: the constraints of the migration, and the books.
  Every operation of the store keeps them, whatever the server answers.
\<close>

section \<open>Definitions\<close>

definition credits :: "uuid \<Rightarrow> tx_row list \<Rightarrow> int" where
  "credits wid ts = (\<Sum>t\<leftarrow>ts. if tr_to_wallet_id t = wid then tr_amount_cents t else 0)"

definition debits :: "uuid \<Rightarrow> tx_row list \<Rightarrow> int" where
  "debits wid ts = (\<Sum>t\<leftarrow>ts. if tr_from_wallet_id t = Some wid then tr_amount_cents t else 0)"

definition movements :: "uuid \<Rightarrow> tx_row list \<Rightarrow> int" where
  "movements wid ts = int (length (filter (\<lambda>t. tr_to_wallet_id t = wid \<or> tr_from_wallet_id t = Some wid) ts))"

definition row_in_books :: "tx_row list \<Rightarrow> wallet_row \<Rightarrow> bool" where
  "row_in_books ts w \<longleftrightarrow>
     wr_balance_cents w = credits (wr_id w) ts - debits (wr_id w) ts \<and>
     wr_version w = movements (wr_id w) ts"

definition kind_matches :: "tx_row \<Rightarrow> bool" where
  "kind_matches t \<longleftrightarrow> (tr_kind t = ''DEPOSIT'' \<longleftrightarrow> tr_from_wallet_id t = None)"

definition books_ok :: "db \<Rightarrow> bool" where
  "books_ok d \<longleftrightarrow> list_all (row_in_books (transactions d)) (wallets d) \<and>
     list_all kind_matches (transactions d)"

definition wallet_inv :: "db \<Rightarrow> bool" where
  "wallet_inv d \<longleftrightarrow> schema_ok d \<and> books_ok d"

definition total_balance :: "db \<Rightarrow> int" where
  "total_balance d = (\<Sum>w\<leftarrow>wallets d. wr_balance_cents w)"

definition total_deposits :: "db \<Rightarrow> int" where
  "total_deposits d = (\<Sum>t\<leftarrow>transactions d. if tr_from_wallet_id t = None then tr_amount_cents t else 0)"

section \<open>Sums and rows\<close>

lemma books_append [simp]:
  "credits w (ts @ [t]) = credits w ts + (if tr_to_wallet_id t = w then tr_amount_cents t else 0)"
  "debits w (ts @ [t]) = debits w ts + (if tr_from_wallet_id t = Some w then tr_amount_cents t else 0)"
  "movements w (ts @ [t]) = movements w ts +
     (if tr_to_wallet_id t = w \<or> tr_from_wallet_id t = Some w then 1 else 0)"
  by (simp_all add: credits_def debits_def movements_def)

lemma bump_wallet_wallets:
  "wallets (bump_wallet now wid delta d) =
     map (\<lambda>w. if wr_id w = wid then bump_row now delta w else w) (wallets d)"
  by (simp add: bump_wallet_def)

lemma bump_wallet_rows:
  "v \<in> set (wallets (bump_wallet now wid delta d)) \<longleftrightarrow>
     (\<exists>w\<in>set (wallets d). v = (if wr_id w = wid then bump_row now delta w else w))"
  by (simp only: bump_wallet_wallets map_mem)

lemma post_transfer_wallets:
  "wr_id f \<noteq> wr_id t \<Longrightarrow> wallets (post_transfer h u k amount f t d) =
     map (\<lambda>x. if wr_id x = wr_id f then bump_row (h_now h) (- amount) x
              else if wr_id x = wr_id t then bump_row (h_now h) amount x else x) (wallets d)"
  by (auto simp: post_transfer_def bump_wallet_def)

lemma wallet_checks_bump:
  "bump_fits delta w \<Longrightarrow> 0 \<le> wr_balance_cents w + delta \<Longrightarrow> wallet_checks (bump_row now delta w)"
  by (auto simp: wallet_checks_def bump_fits_def in_int64_def)

lemma total_balance_bump:
  assumes "distinct (map wr_id (wallets d))" and "w \<in> set (wallets d)"
  shows "total_balance (bump_wallet now (wr_id w) delta d) = total_balance d + delta"
  using sum_list_update_key [OF assms, of wr_balance_cents "bump_row now delta"]
  by (simp add: total_balance_def bump_wallet_def o_def)

text \<open>A commit keeps the keys of the wallets and appends one transaction and one event.\<close>

lemma schema_ok_extend:
  assumes "schema_ok d"
    and "map wr_id (wallets d') = map wr_id (wallets d)"
    and "map wr_user_id (wallets d') = map wr_user_id (wallets d)"
    and "\<And>w. w \<in> set (wallets d') \<Longrightarrow> wallet_checks w"
    and "transactions d' = transactions d @ [t]" and "tx_checks t" and "tx_refs d t"
    and "tr_id t \<notin> tr_id ` set (transactions d)"
    and "select_tx_by_key (tr_user_id t) (tr_idempotency_key t) d = None"
    and "outbox d' = outbox d @ [r]" and "ob_id r \<notin> ob_id ` set (outbox d)"
  shows "schema_ok d'"
proof -
  have refs: "tx_refs d' s = tx_refs d s" for s using assms(2) by (simp add: tx_refs_ids)
  from assms show ?thesis
    unfolding schema_ok_def refs [abs_def]
    by (auto simp: list_all_iff select_tx_by_key_None refs)
qed

section \<open>The two commits keep the invariants\<close>

lemma post_deposit_inv:
  assumes inv: "wallet_inv d" and mv: "deposit_moves u amount k h d w"
  shows "wallet_inv (post_deposit h u k amount w d)"
proof -
  from inv have ok: "schema_ok d" and books: "books_ok d" by (simp_all add: wallet_inv_def)
  from mv have mem: "w \<in> set (wallets d)" and pos: "0 < amount" and fits: "bump_fits amount w"
    and nonneg: "0 \<le> wr_balance_cents w + amount" and fresh: "drawn_fresh h d"
    and key: "select_tx_by_key u k d = None"
    by (auto simp: deposit_moves_def dest: select_wallet_by_user_SomeD)
  note ids = schema_okD(1) [OF ok]
  let ?d' = "post_deposit h u k amount w d" and ?t = "deposit_row h u k amount w"
  have rows: "v \<in> set (wallets ?d') \<longleftrightarrow>
      (\<exists>x\<in>set (wallets d). v = (if wr_id x = wr_id w then bump_row (h_now h) amount x else x))" for v
    by (simp add: post_deposit_def bump_wallet_rows)
  have same: "x = w" if "x \<in> set (wallets d)" "wr_id x = wr_id w" for x
    using key_inj [OF ids that(1) mem that(2)] .
  have "schema_ok ?d'"
  proof (rule schema_ok_extend [OF ok])
    show "wallet_checks v" if "v \<in> set (wallets ?d')" for v
      using that schema_okD(3) [OF ok] wallet_checks_bump [OF fits nonneg] same
      by (auto simp: rows split: if_splits)
    show "tx_refs d ?t" using mem by (simp add: tx_refs_ids deposit_row_def)
    show "transactions ?d' = transactions d @ [?t]" by (simp add: post_deposit_def)
    show "outbox ?d' = outbox d @ [deposit_outbox h u k amount w]" by (simp add: post_deposit_def)
  qed (use pos fresh key in \<open>simp_all add: post_deposit_def deposit_row_def deposit_outbox_def
         tx_checks_def drawn_fresh_def\<close>)
  moreover have "books_ok ?d'"
    using books same
    by (auto simp: books_ok_def list_all_iff rows row_in_books_def kind_matches_def)
       (auto simp: post_deposit_def deposit_row_def)
  ultimately show ?thesis by (simp add: wallet_inv_def)
qed

lemma post_transfer_inv:
  assumes inv: "wallet_inv d" and mv: "transfer_moves u to amount k h d f t"
  shows "wallet_inv (post_transfer h u k amount f t d)"
proof -
  from inv have ok: "schema_ok d" and books: "books_ok d" by (simp_all add: wallet_inv_def)
  from mv have fm: "f \<in> set (wallets d)" and tm: "t \<in> set (wallets d)" and pos: "0 < amount"
    and ne: "wr_id f \<noteq> wr_id t"
    and fits: "bump_fits (- amount) f" "bump_fits amount t" and bal: "amount \<le> wr_balance_cents f"
    and fresh: "drawn_fresh h d" and key: "select_tx_by_key u k d = None"
    by (auto simp: transfer_moves_def dest: select_wallet_by_user_SomeD select_wallet_by_id_SomeD)
  note ids = schema_okD(1) [OF ok]
  let ?d' = "post_transfer h u k amount f t d" and ?t = "transfer_row h u k amount f t"
  have rows: "v \<in> set (wallets ?d') \<longleftrightarrow> (\<exists>x\<in>set (wallets d).
      v = (if wr_id x = wr_id f then bump_row (h_now h) (- amount) x
           else if wr_id x = wr_id t then bump_row (h_now h) amount x else x))" for v
    by (simp only: post_transfer_wallets [OF ne] map_mem)
  have same: "x = f" if "x \<in> set (wallets d)" "wr_id x = wr_id f" for x
    using key_inj [OF ids that(1) fm that(2)] .
  have same': "x = t" if "x \<in> set (wallets d)" "wr_id x = wr_id t" for x
    using key_inj [OF ids that(1) tm that(2)] .
  have nonneg: "0 \<le> wr_balance_cents t + amount"
    using schema_okD(3) [OF ok tm] pos by (simp add: wallet_checks_def)
  have "schema_ok ?d'"
  proof (rule schema_ok_extend [OF ok])
    show "wallet_checks v" if v: "v \<in> set (wallets ?d')" for v
    proof -
      have "wallet_checks (bump_row (h_now h) (- amount) f)" "wallet_checks (bump_row (h_now h) amount t)"
        using bal nonneg by (simp_all add: wallet_checks_bump fits)
      moreover from v obtain x where "x \<in> set (wallets d)" and
        "v = (if wr_id x = wr_id f then bump_row (h_now h) (- amount) x
              else if wr_id x = wr_id t then bump_row (h_now h) amount x else x)"
        using rows by blast
      ultimately show ?thesis
        using schema_okD(3) [OF ok] by (auto dest: same same' split: if_splits)
    qed
    show "tx_refs d ?t" using fm tm by (simp add: tx_refs_ids transfer_row_def)
    show "transactions ?d' = transactions d @ [?t]" by (simp add: post_transfer_def)
    show "outbox ?d' = outbox d @ [transfer_outbox h u k amount f t]" by (simp add: post_transfer_def)
  qed (use pos fresh key ne in \<open>simp_all add: post_transfer_def transfer_row_def transfer_outbox_def
         tx_checks_def drawn_fresh_def\<close>)
  moreover have "books_ok ?d'"
    using books same same' ne
    by (auto simp: books_ok_def list_all_iff rows row_in_books_def kind_matches_def)
       (auto simp: post_transfer_def transfer_row_def)
  ultimately show ?thesis by (simp add: wallet_inv_def)
qed

section \<open>Everything that changes the tables\<close>

text \<open>
  The commits that can happen to the wallet schema: the store's operations and the relay's
  statements.  Between two statements of one request, other requests and pods may perform
  any number of them.
\<close>

inductive store_step :: "db \<Rightarrow> db \<Rightarrow> bool" where
  create: "CreateWallet fault gen now u d = (r, d') \<Longrightarrow> store_step d d'"
| deposit: "Deposit_fn u amount k h d = Inr (r, d') \<Longrightarrow> store_step d d'"
| transfer: "Transfer_fn u to amount k h d = Inr (r, d') \<Longrightarrow> store_step d d'"
| publish: "store_step d (mark_published now ids d)"
| cleanup: "delete_published cutoff d = (n, d') \<Longrightarrow> store_step d d'"

definition store_steps :: "db \<Rightarrow> db \<Rightarrow> bool" where
  "store_steps = store_step\<^sup>*\<^sup>*"

lemma insert_wallet_Inr:
  assumes "insert_wallet gen now u d = Inr (r, d')"
  shows "wr_user_id r = u \<and> r \<in> set (wallets d') \<and> transactions d' = transactions d \<and> outbox d' = outbox d \<and>
    (d' = d \<or> (gen \<notin> wr_id ` set (wallets d) \<and> select_wallet_by_user u d = None \<and>
      d' = d\<lparr>wallets := wallets d @ [\<lparr>wr_id = gen, wr_user_id = u, wr_balance_cents = 0,
        wr_currency = ''USD'', wr_version = 0, wr_created_at = now, wr_updated_at = now\<rparr>]\<rparr>))"
proof (cases "find (\<lambda>w. wr_user_id w = u) (wallets d)")
  case None
  with assms show ?thesis
    by (auto simp: insert_wallet_def Let_def list_ex_key select_wallet_by_user_def split: if_splits)
next
  case (Some w)
  then have w: "w \<in> set (wallets d)" "wr_user_id w = u" by (auto dest: find_SomeD)
  have "map (\<lambda>v. if wr_user_id v = u then v\<lparr>wr_user_id := u\<rparr> else v) (wallets d) = wallets d"
    by (rule map_id_on) auto
  with Some w assms show ?thesis by (auto simp: insert_wallet_def Let_def)
qed

lemma CreateWallet_cases:
  assumes "CreateWallet fault gen now u d = (res, d')"
  obtains (same) "d' = d"
  | (fresh) "gen \<notin> wr_id ` set (wallets d)" and "select_wallet_by_user u d = None" and
      "d' = d\<lparr>wallets := wallets d @ [\<lparr>wr_id = gen, wr_user_id = u, wr_balance_cents = 0,
        wr_currency = ''USD'', wr_version = 0, wr_created_at = now, wr_updated_at = now\<rparr>]\<rparr>"
  using assms insert_wallet_Inr [of gen now u d] that
  by (fastforce simp: CreateWallet_def split: option.splits sum.splits)

lemma CreateWallet_inv:
  assumes inv: "wallet_inv d" and ret: "CreateWallet fault gen now u d = (res, d')"
  shows "wallet_inv d'"
  using ret
proof (cases rule: CreateWallet_cases)
  case same
  with inv show ?thesis by simp
next
  case fresh
  from inv have ok: "schema_ok d" and books: "books_ok d" by (simp_all add: wallet_inv_def)
  have none: "tr_to_wallet_id t \<noteq> gen \<and> tr_from_wallet_id t \<noteq> Some gen" if "t \<in> set (transactions d)" for t
    using schema_okD(6) [OF ok that] fresh(1) by (auto simp: tx_refs_ids)
  have "credits gen (transactions d) = 0" "debits gen (transactions d) = 0"
    using none by (auto simp: credits_def debits_def intro!: sum_list_zero)
  moreover have "movements gen (transactions d) = 0"
    using none by (auto simp: movements_def filter_empty_conv)
  ultimately have "books_ok d'" using books by (simp add: books_ok_def row_in_books_def fresh(3))
  moreover have "schema_ok d'"
    using ok fresh
    by (auto simp: schema_ok_def wallet_checks_def int64_max_def int32_max_def list_all_iff
        select_wallet_by_user_def find_None_all tx_refs_ids)
  ultimately show ?thesis by (simp add: wallet_inv_def)
qed

lemma outbox_only_inv:
  assumes "wallet_inv d" and "distinct (map ob_id obs)"
  shows "wallet_inv (d\<lparr>outbox := obs\<rparr>)"
  using assms by (simp add: wallet_inv_def books_ok_def schema_ok_def tx_refs_ids list_all_iff)

lemma Deposit_fn_inv:
  assumes "wallet_inv d" and "Deposit_fn u amount k h d = Inr (r, d')"
  shows "wallet_inv d'"
proof -
  have "schema_ok d" using assms(1) by (simp add: wallet_inv_def)
  from this assms(2) show ?thesis
    by (cases rule: Deposit_fn_Inr) (use assms(1) post_deposit_inv in auto)
qed

lemma Transfer_fn_inv:
  assumes "wallet_inv d" and "Transfer_fn u to amount k h d = Inr (r, d')"
  shows "wallet_inv d'"
proof -
  have "schema_ok d" using assms(1) by (simp add: wallet_inv_def)
  from this assms(2) show ?thesis
    by (cases rule: Transfer_fn_Inr) (use assms(1) post_transfer_inv in auto)
qed

lemma store_step_inv: "store_step d d' \<Longrightarrow> wallet_inv d \<Longrightarrow> wallet_inv d'"
proof (induction rule: store_step.induct)
  case (publish d now ids)
  have "map ob_id (outbox (mark_published now ids d)) = map ob_id (outbox d)"
    by (auto simp: mark_published_def)
  with publish have "distinct (map ob_id (outbox (mark_published now ids d)))"
    by (simp add: wallet_inv_def schema_ok_def)
  from outbox_only_inv [OF publish this] show ?case by (simp add: mark_published_def)
next
  case (cleanup cutoff d n d')
  have "distinct (map ob_id (outbox d))" using cleanup(2) by (simp add: wallet_inv_def schema_ok_def)
  then have "distinct (map ob_id (outbox d'))"
    using cleanup(1) by (auto simp: delete_published_def Let_def intro: distinct_map_filter)
  from outbox_only_inv [OF cleanup(2) this] show ?case
    using cleanup(1) by (auto simp: delete_published_def Let_def)
qed (blast intro: CreateWallet_inv Deposit_fn_inv Transfer_fn_inv)+

lemma store_steps_inv: "store_steps d d' \<Longrightarrow> wallet_inv d \<Longrightarrow> wallet_inv d'"
  unfolding store_steps_def by (induction rule: rtranclp_induct) (auto intro: store_step_inv)

text \<open>The transaction log is append-only, and a recorded key stays recorded.\<close>

lemma store_step_log: "store_step d d' \<Longrightarrow> wallet_inv d \<Longrightarrow> \<exists>ts. transactions d' = transactions d @ ts"
proof (induction rule: store_step.induct)
  case (create fault gen now u d r d')
  from create(1) show ?case by (cases rule: CreateWallet_cases) auto
next
  case (deposit u amount k h d r d')
  from deposit(2) have "schema_ok d" by (simp add: wallet_inv_def)
  from this deposit(1) show ?case by (cases rule: Deposit_fn_Inr) (auto simp: post_deposit_def)
next
  case (transfer u to amount k h d r d')
  from transfer(2) have "schema_ok d" by (simp add: wallet_inv_def)
  from this transfer(1) show ?case by (cases rule: Transfer_fn_Inr) (auto simp: post_transfer_def)
qed (auto simp: mark_published_def delete_published_def Let_def)

lemma store_steps_log:
  "store_steps d d' \<Longrightarrow> wallet_inv d \<Longrightarrow> \<exists>ts. transactions d' = transactions d @ ts"
  unfolding store_steps_def
proof (induction rule: rtranclp_induct)
  case base
  then show ?case by simp
next
  case (step d1 d2)
  then have "wallet_inv d1" using store_steps_inv by (auto simp: store_steps_def)
  with step show ?case using store_step_log [OF step(2)] by (metis append_assoc)
qed

lemma store_steps_key:
  "store_steps d d' \<Longrightarrow> wallet_inv d \<Longrightarrow> select_tx_by_key u k d = Some t \<Longrightarrow> select_tx_by_key u k d' = Some t"
  using store_steps_log [of d d'] by (auto simp: select_tx_by_key_def find_append)

end
