(* ===== verification/Retry.thy ===== *)
theory Retry
  imports Books
begin

text \<open>
  \<open>withRetries\<close> of \<open>services/wallet/store.go\<close> and the calls \<open>Deposit\<close> and \<open>Transfer\<close> built on it.
  \<open>pgx.BeginFunc\<close> is a parameter: for every attempt, a function that runs a body as one
  database transaction.  What the code relies on is \<open>BeginFunc_doc\<close>, its documented
  behaviour: the body is run on the committed tables and its effect is kept if and only if
  the commit took place; an error may be reported for a transaction that did commit.
\<close>

section \<open>The retry loop\<close>

type_synonym tx_fn = "tx_handle \<Rightarrow> db \<Rightarrow> go_error + Result \<times> db"
type_synonym begin_func = "(db \<Rightarrow> go_error + Result \<times> db) \<Rightarrow> db \<Rightarrow> (go_error + Result) \<times> db"

text \<open>
  What one call meets: how each attempt's transaction runs, what the server draws for it,
  and whether the request's context ends while the attempt's back-off is waited for.
\<close>

record retry_env =
  re_begin :: "int \<Rightarrow> begin_func"
  re_handle :: "int \<Rightarrow> tx_handle"
  re_done :: "int \<Rightarrow> go_error option"

text \<open>
  \<open>min(500*time.Millisecond, 10*time.Millisecond<<attempt)\<close>, a shift of an \<open>int64\<close>.
  \<open>rand.N(limit)\<close> panics unless its argument is positive.
\<close>

definition backoff_limit :: "int \<Rightarrow> duration" where
  "backoff_limit attempt = min 500000000 (wrap64 (10000000 * 2 ^ nat attempt))"

function retry_loop ::
    "int \<Rightarrow> retry_env \<Rightarrow> tx_fn \<Rightarrow> int \<Rightarrow> nat \<Rightarrow> db \<Rightarrow> (go_error, Result) outcome \<times> nat \<times> db" where
  "retry_loop maxRetries env fn attempt lockRetries d =
     (if maxRetries < attempt then (Err ErrTooMuchContention, lockRetries, d)
      else
        (case re_begin env attempt (fn (re_handle env attempt)) d of
           (Inr res, d') \<Rightarrow> (Ret res, lockRetries, d')
         | (Inl err, d') \<Rightarrow>
             if \<not> retryable err then (Err err, lockRetries, d')
             else if backoff_limit attempt \<le> 0
             then (Panic ''invalid argument to N'', lockRetries + 1, d')
             else
               (case re_done env attempt of
                  Some e \<Rightarrow> (Err e, lockRetries + 1, d')
                | None \<Rightarrow> retry_loop maxRetries env fn (attempt + 1) (lockRetries + 1) d')))"
  by pat_completeness auto
termination
  by (relation "measure (\<lambda>(maxRetries, env, fn, attempt, n, d). nat (maxRetries + 1 - attempt))") auto

declare retry_loop.simps [simp del]

definition withRetries ::
    "int \<Rightarrow> retry_env \<Rightarrow> tx_fn \<Rightarrow> db \<Rightarrow> (go_error, Result) outcome \<times> nat \<times> db" where
  "withRetries maxRetries env fn d = retry_loop maxRetries env fn 1 0 d"

definition Deposit ::
    "int \<Rightarrow> retry_env \<Rightarrow> uuid \<Rightarrow> int \<Rightarrow> string \<Rightarrow> db \<Rightarrow> (go_error, Result) outcome \<times> nat \<times> db" where
  "Deposit maxRetries env userID amount key d =
     withRetries maxRetries env (Deposit_fn userID amount key) d"

definition Transfer ::
    "int \<Rightarrow> retry_env \<Rightarrow> uuid \<Rightarrow> uuid \<Rightarrow> int \<Rightarrow> string \<Rightarrow> db
       \<Rightarrow> (go_error, Result) outcome \<times> nat \<times> db" where
  "Transfer maxRetries env userID toWalletID amount key d =
     withRetries maxRetries env (Transfer_fn userID toWalletID amount key) d"

section \<open>What the loop relies on\<close>

text \<open>
  While a transaction runs, other requests may commit: the body takes effect on tables
  \<open>d0\<close> that evolved from the ones the attempt started with (theory \<open>Sessions\<close> shows that
  the interleaved execution of a body is of this kind).
\<close>

definition tx_ended ::
    "(db \<Rightarrow> db \<Rightarrow> bool) \<Rightarrow> (db \<Rightarrow> go_error + Result \<times> db) \<Rightarrow> db \<Rightarrow> go_error + Result \<Rightarrow> db \<Rightarrow> bool" where
  "tx_ended others fn d res d' \<longleftrightarrow>
     (\<exists>d0. others d d0 \<and>
        (case res of
           Inr r \<Rightarrow> fn d0 = Inr (r, d')
         | Inl err \<Rightarrow> d' = d0 \<or> (\<exists>r. fn d0 = Inr (r, d'))))"

definition BeginFunc_doc :: "(db \<Rightarrow> db \<Rightarrow> bool) \<Rightarrow> begin_func \<Rightarrow> bool" where
  "BeginFunc_doc others B \<longleftrightarrow> (\<forall>fn d. tx_ended others fn d (fst (B fn d)) (snd (B fn d)))"

text \<open>The undisturbed run: commit on success, roll back on error.\<close>

definition run_tx :: begin_func where
  "run_tx fn d = (case fn d of Inl err \<Rightarrow> (Inl err, d) | Inr (res, d') \<Rightarrow> (Inr res, d'))"

lemma BeginFunc_docD: "BeginFunc_doc others B \<Longrightarrow> B fn d = (res, d') \<Longrightarrow> tx_ended others fn d res d'"
  unfolding BeginFunc_doc_def by (metis fst_conv snd_conv)

lemma BeginFunc_doc_Inr:
  assumes "BeginFunc_doc others B" and "B fn d = (Inr res, d')"
  obtains d0 where "others d d0" and "fn d0 = Inr (res, d')"
  using BeginFunc_docD [OF assms] that by (auto simp: tx_ended_def)

lemma BeginFunc_doc_Inl:
  assumes "BeginFunc_doc others B" and "B fn d = (Inl err, d')"
  obtains (aborted) "others d d'" | (in_doubt) d0 res where "others d d0" and "fn d0 = Inr (res, d')"
  using BeginFunc_docD [OF assms] that by (auto simp: tx_ended_def)

lemma run_tx_doc: "(\<And>d. others d d) \<Longrightarrow> BeginFunc_doc others run_tx"
  by (auto simp: BeginFunc_doc_def run_tx_def tx_ended_def split: sum.splits)

section \<open>A proof rule for the loop\<close>

text \<open>
  A property that holds at the start and survives a failed attempt holds when the call ends
  without a result; a result comes from an attempt made where the property held.
\<close>

lemma retry_loop_rule:
  assumes fail: "\<And>i x e y. I x \<Longrightarrow> re_begin env i (fn (re_handle env i)) x = (Inl e, y) \<Longrightarrow> I y"
    and succ: "\<And>i x r y. I x \<Longrightarrow> re_begin env i (fn (re_handle env i)) x = (Inr r, y) \<Longrightarrow> Q r y"
  shows "I d \<Longrightarrow> retry_loop m env fn a n d = (out, n', d') \<Longrightarrow>
    (case out of Ret r \<Rightarrow> Q r d' | _ \<Rightarrow> I d')"
proof (induction "nat (m + 1 - a)" arbitrary: a n d rule: less_induct)
  case less
  show ?case
  proof (cases "m < a")
    case True
    with less.prems show ?thesis by (auto simp: retry_loop.simps [of m env fn a n d])
  next
    case False
    then have smaller: "nat (m + 1 - (a + 1)) < nat (m + 1 - a)" by simp
    obtain res y where B: "re_begin env a (fn (re_handle env a)) d = (res, y)" by fastforce
    show ?thesis
    proof (cases res)
      case (Inr r)
      with False B less.prems succ [of d a r y] show ?thesis
        by (auto simp: retry_loop.simps [of m env fn a n d])
    next
      case (Inl e)
      with B less.prems(1) have "I y" using fail by blast
      with False B Inl less.prems(2) less.hyps [OF smaller] show ?thesis
        by (auto simp: retry_loop.simps [of m env fn a n d] split: if_splits option.splits)
    qed
  qed
qed

lemma retry_loop_Ret:
  assumes "retry_loop m env fn a n d = (Ret r, n', d')" and "I d"
    and "\<And>i x e y. I x \<Longrightarrow> re_begin env i (fn (re_handle env i)) x = (Inl e, y) \<Longrightarrow> I y"
    and "\<And>i x r y. I x \<Longrightarrow> re_begin env i (fn (re_handle env i)) x = (Inr r, y) \<Longrightarrow> Q r y"
  shows "Q r d'"
  using retry_loop_rule [of I env fn Q, OF assms(3,4,2,1)] by simp

section \<open>Bodies and their environment\<close>

text \<open>What the other requests may do to the tables while this one runs.\<close>

locale environment =
  fixes inv :: "db \<Rightarrow> bool" and others :: "db \<Rightarrow> db \<Rightarrow> bool"
  assumes others_refl: "others d d"
    and others_trans: "others a b \<Longrightarrow> others b c \<Longrightarrow> others a c"
    and others_inv: "others d d' \<Longrightarrow> inv d \<Longrightarrow> inv d'"

text \<open>A body whose commits are steps of the same kind.\<close>

locale tx_body = environment +
  fixes fn :: tx_fn
  assumes body_step: "inv d \<Longrightarrow> fn h d = Inr (r, d') \<Longrightarrow> others d d'"
begin

lemma attempt_step:
  assumes B: "BeginFunc_doc others B" and inv: "inv d" and ret: "B (fn h) d = (res, d')"
  shows "others d d'"
proof (cases res)
  case (Inl e)
  from B ret [unfolded Inl] show ?thesis
    by (cases rule: BeginFunc_doc_Inl) (meson body_step inv others_inv others_trans)+
next
  case (Inr r)
  from B ret [unfolded Inr] obtain d0 where "others d d0" "fn h d0 = Inr (r, d')"
    by (rule BeginFunc_doc_Inr)
  then show ?thesis by (meson body_step inv others_inv others_trans)
qed

text \<open>Whatever the outcome, a call only performs steps of the kind the others perform.\<close>

lemma call_step:
  assumes B: "\<And>i. BeginFunc_doc others (re_begin env i)" and inv: "inv d"
    and ret: "withRetries m env fn d = (out, n, d')"
  shows "others d d'"
proof -
  have step: "others d y" if "others d x" "re_begin env i (fn (re_handle env i)) x = (res, y)" for i x res y
    using attempt_step [OF B _ that(2)] that(1) inv others_inv others_trans by blast
  have "case out of Ret r \<Rightarrow> others d d' | _ \<Rightarrow> others d d'"
    by (rule retry_loop_rule [of "others d" env fn "\<lambda>r. others d"])
      (use step others_refl ret [unfolded withRetries_def] in \<open>blast+\<close>)
  then show ?thesis by (cases out) simp_all
qed

text \<open>A result is that of the body, run on tables the others may have moved on.\<close>

lemma call_committed:
  assumes B: "\<And>i. BeginFunc_doc others (re_begin env i)" and inv: "inv d"
    and ret: "withRetries m env fn d = (Ret r, n, d')"
  shows "\<exists>h d0. others d d0 \<and> fn h d0 = Inr (r, d')"
proof -
  have step: "others d y" if "others d x" "re_begin env i (fn (re_handle env i)) x = (res, y)" for i x res y
    using attempt_step [OF B _ that(2)] that(1) inv others_inv others_trans by blast
  have "(\<lambda>r y. \<exists>h d0. others d d0 \<and> fn h d0 = Inr (r, y)) r d'"
  proof (rule retry_loop_Ret [OF ret [unfolded withRetries_def], of "others d"])
    fix i x r y
    assume x: "others d x" and run: "re_begin env i (fn (re_handle env i)) x = (Inr r, y)"
    from B run obtain x0 where "others x x0" "fn (re_handle env i) x0 = Inr (r, y)"
      by (rule BeginFunc_doc_Inr)
    with x show "\<exists>h d0. others d d0 \<and> fn h d0 = Inr (r, y)" using others_trans by blast
  qed (use others_refl step in blast)+
  then show ?thesis .
qed

lemma call_inv:
  assumes "\<And>i. BeginFunc_doc others (re_begin env i)" and "inv d"
    and "withRetries m env fn d = (out, n, d')"
  shows "inv d'"
  using call_step [OF assms] assms(2) by (rule others_inv)

end

text \<open>
  A body keyed by a user and an idempotency key: it records exactly one transaction under
  the key, and where one is recorded it only reads.
\<close>

locale keyed_body = tx_body +
  fixes u :: uuid and k :: string and matches :: "tx_row \<Rightarrow> bool"
  assumes others_key: "others d d' \<Longrightarrow> inv d \<Longrightarrow> select_tx_by_key u k d = Some t \<Longrightarrow>
      select_tx_by_key u k d' = Some t"
    and body_records: "inv d \<Longrightarrow> fn h d = Inr (r, d') \<Longrightarrow>
      \<exists>t. select_tx_by_key u k d' = Some t \<and> matches t \<and> res_Tx r = txColumns t"
    and body_replays: "inv d \<Longrightarrow> select_tx_by_key u k d = Some t \<Longrightarrow> fn h d = Inr (r, d') \<Longrightarrow>
      matches t \<and> d' = d \<and> r = \<lparr>res_Tx = txColumns t, res_Replayed = True\<rparr>"
begin

text \<open>A result is the recorded transaction.\<close>

lemma call_records:
  assumes B: "\<And>i. BeginFunc_doc others (re_begin env i)" and inv: "inv d"
    and ret: "withRetries m env fn d = (Ret r, n, d')"
  shows "\<exists>t. select_tx_by_key u k d' = Some t \<and> matches t \<and> res_Tx r = txColumns t"
proof -
  have good: "inv y" if "inv x" "re_begin env i (fn (re_handle env i)) x = (res, y)" for i x res y
    using attempt_step [OF B that] that(1) others_inv by blast
  from ret [unfolded withRetries_def] inv show ?thesis
  proof (rule retry_loop_Ret [where I = inv])
    fix i x r y
    assume "inv x" and run: "re_begin env i (fn (re_handle env i)) x = (Inr r, y)"
    from B run obtain x0 where "others x x0" "fn (re_handle env i) x0 = Inr (r, y)"
      by (rule BeginFunc_doc_Inr)
    with \<open>inv x\<close> show "\<exists>t. select_tx_by_key u k y = Some t \<and> matches t \<and> res_Tx r = txColumns t"
      using body_records others_inv by blast
  qed (rule good)
qed

text \<open>Once the key is recorded, a call neither records again nor moves money by itself.\<close>

lemma call_replays:
  assumes B: "\<And>i. BeginFunc_doc others (re_begin env i)" and inv: "inv d"
    and key: "select_tx_by_key u k d = Some t"
    and ret: "withRetries m env fn d = (Ret r, n, d')"
  shows "matches t \<and> r = \<lparr>res_Tx = txColumns t, res_Replayed = True\<rparr>"
proof -
  define I where "I x \<longleftrightarrow> inv x \<and> select_tx_by_key u k x = Some t" for x
  have keep: "I y" if "I x" "others x y" for x y
    using that others_inv [OF that(2)] others_key [OF that(2)] by (simp add: I_def)
  have good: "I y" if "I x" "re_begin env i (fn (re_handle env i)) x = (res, y)" for i x res y
    using keep [OF that(1) attempt_step [OF B _ that(2)]] that(1) by (simp add: I_def)
  have "I d" using inv key by (simp add: I_def)
  with ret [unfolded withRetries_def] show ?thesis
  proof (rule retry_loop_Ret [where I = I])
    fix i x r y
    assume "I x" and run: "re_begin env i (fn (re_handle env i)) x = (Inr r, y)"
    from B run obtain x0 where x0: "others x x0" "fn (re_handle env i) x0 = Inr (r, y)"
      by (rule BeginFunc_doc_Inr)
    from keep [OF \<open>I x\<close> x0(1)] x0(2) show "matches t \<and> r = \<lparr>res_Tx = txColumns t, res_Replayed = True\<rparr>"
      using body_replays [of x0 t "re_handle env i" r y] by (simp add: I_def)
  qed (rule good)
qed

text \<open>Two calls with the same key, one after the other returned: the same transaction.\<close>

lemma calls_agree:
  assumes B: "\<And>i. BeginFunc_doc others (re_begin env i)" and B': "\<And>i. BeginFunc_doc others (re_begin env' i)"
    and inv: "inv d" and first: "withRetries m env fn d = (Ret r, n, d1)" and mid: "others d1 d2"
    and second: "withRetries m' env' fn d2 = (Ret r', n', d3)"
  shows "r' = \<lparr>res_Tx = res_Tx r, res_Replayed = True\<rparr>"
proof -
  from call_records [OF B inv first] obtain t where
    t: "select_tx_by_key u k d1 = Some t" "res_Tx r = txColumns t" by blast
  have i1: "inv d1" using call_inv [OF B inv first] .
  have "inv d2" "select_tx_by_key u k d2 = Some t"
    using others_inv [OF mid i1] others_key [OF mid i1 t(1)] .
  from call_replays [OF B' this second] t show ?thesis by simp
qed

end

section \<open>The store's bodies are keyed bodies\<close>

interpretation store_env: environment wallet_inv store_steps
  by unfold_locales (auto simp: store_steps_def intro: store_steps_inv [unfolded store_steps_def])

lemma post_key:
  "select_tx_by_key u k d = None \<Longrightarrow>
     select_tx_by_key u k (post_deposit h u k amount w d) = Some (deposit_row h u k amount w)"
  "select_tx_by_key u k d = None \<Longrightarrow>
     select_tx_by_key u k (post_transfer h u k amount f t d) = Some (transfer_row h u k amount f t)"
  by (simp_all add: select_tx_by_key_def post_deposit_def post_transfer_def find_append
      deposit_row_def transfer_row_def)

lemma store_steps_single: "store_step d d' \<Longrightarrow> store_steps d d'"
  by (simp add: store_steps_def)

definition is_deposit_of :: "int \<Rightarrow> tx_row \<Rightarrow> bool" where
  "is_deposit_of amount t \<longleftrightarrow> tr_kind t = ''DEPOSIT'' \<and> tr_amount_cents t = amount"

definition is_transfer_of :: "uuid \<Rightarrow> int \<Rightarrow> tx_row \<Rightarrow> bool" where
  "is_transfer_of to amount t \<longleftrightarrow>
     tr_kind t = ''TRANSFER'' \<and> tr_amount_cents t = amount \<and> tr_to_wallet_id t = to"

interpretation dep: keyed_body wallet_inv store_steps "Deposit_fn u amount k" u k "is_deposit_of amount"
  for u amount k
proof unfold_locales
  fix h d r d'
  assume "wallet_inv d" and ret: "Deposit_fn u amount k h d = Inr (r, d')"
  then have ok: "schema_ok d" by (simp add: wallet_inv_def)
  from ret show "store_steps d d'" by (blast intro: store_steps_single store_step.deposit)
  from ok ret show "\<exists>t. select_tx_by_key u k d' = Some t \<and> is_deposit_of amount t \<and> res_Tx r = txColumns t"
    by (cases rule: Deposit_fn_Inr)
      (auto simp: deposit_replays_def deposit_moves_def post_key is_deposit_of_def deposit_row_def)
next
  fix h d r d' t
  assume "wallet_inv d" and key: "select_tx_by_key u k d = Some t"
    and ret: "Deposit_fn u amount k h d = Inr (r, d')"
  then have ok: "schema_ok d" by (simp add: wallet_inv_def)
  from ok ret key show "is_deposit_of amount t \<and> d' = d \<and> r = \<lparr>res_Tx = txColumns t, res_Replayed = True\<rparr>"
    by (cases rule: Deposit_fn_Inr)
      (auto simp: deposit_replays_def deposit_moves_def is_deposit_of_def)
qed (rule store_steps_key)

interpretation trf: keyed_body wallet_inv store_steps "Transfer_fn u to amount k" u k "is_transfer_of to amount"
  for u to amount k
proof unfold_locales
  fix h d r d'
  assume "wallet_inv d" and ret: "Transfer_fn u to amount k h d = Inr (r, d')"
  then have ok: "schema_ok d" by (simp add: wallet_inv_def)
  from ret show "store_steps d d'" by (blast intro: store_steps_single store_step.transfer)
  from ok ret show "\<exists>t. select_tx_by_key u k d' = Some t \<and> is_transfer_of to amount t \<and> res_Tx r = txColumns t"
    by (cases rule: Transfer_fn_Inr)
      (auto simp: transfer_replays_def transfer_moves_def post_key is_transfer_of_def transfer_row_def
        dest: select_wallet_by_id_SomeD)
next
  fix h d r d' t
  assume "wallet_inv d" and key: "select_tx_by_key u k d = Some t"
    and ret: "Transfer_fn u to amount k h d = Inr (r, d')"
  then have ok: "schema_ok d" by (simp add: wallet_inv_def)
  from ok ret key show "is_transfer_of to amount t \<and> d' = d \<and> r = \<lparr>res_Tx = txColumns t, res_Replayed = True\<rparr>"
    by (cases rule: Transfer_fn_Inr)
      (auto simp: transfer_replays_def transfer_moves_def is_transfer_of_def)
qed (rule store_steps_key)

section \<open>Back-off and outcomes\<close>

lemma backoff_limit_value:
  assumes "0 \<le> a" and "a \<le> 39"
  shows "backoff_limit a = min 500000000 (10000000 * 2 ^ nat a)"
proof -
  have "(2::int) ^ nat a \<le> 2 ^ 39" using assms by (intro power_increasing) auto
  then have "in_int64 (10000000 * 2 ^ nat a)"
    by (simp add: in_int64_alt) (rule order_trans [of _ 0]; simp)
  then show ?thesis by (simp add: backoff_limit_def wrap64_id)
qed

lemma backoff_limit_pos: "0 \<le> a \<Longrightarrow> a \<le> 39 \<Longrightarrow> 0 < backoff_limit a"
  by (simp add: backoff_limit_value)

text \<open>The errors a context ends with.\<close>

definition context_errors :: "go_error set" where
  "context_errors = {ContextCanceled, ContextDeadlineExceeded}"

lemma retry_loop_outcome:
  assumes "\<And>i e. re_done env i = Some e \<Longrightarrow> e \<in> context_errors"
  shows "0 \<le> a \<Longrightarrow> retry_loop m env fn a n d = (out, n', d') \<Longrightarrow>
    (m \<le> 39 \<longrightarrow> (\<forall>s. out \<noteq> Panic s)) \<and> (\<forall>e. out = Err e \<longrightarrow> \<not> retryable e) \<and>
    n' \<le> n + nat (m + 1 - a)"
proof (induction "nat (m + 1 - a)" arbitrary: a n d rule: less_induct)
  case less
  have ctx: "\<not> retryable e" if "e \<in> context_errors \<or> e = ErrTooMuchContention" for e
    using that by (auto simp: context_errors_def retryable_root)
  show ?case
  proof (cases "m < a")
    case True
    with less.prems show ?thesis by (auto simp: retry_loop.simps [of m env fn a n d] ctx)
  next
    case False
    then have smaller: "nat (m + 1 - (a + 1)) < nat (m + 1 - a)" by simp
    obtain res y where B: "re_begin env a (fn (re_handle env a)) d = (res, y)" by fastforce
    show ?thesis
    proof (cases "\<exists>e. res = Inl e \<and> retryable e \<and> 0 < backoff_limit a \<and> re_done env a = None")
      case True
      with False B less.prems(2) have "retry_loop m env fn (a + 1) (n + 1) y = (out, n', d')"
        by (auto simp: retry_loop.simps [of m env fn a n d])
      from less.hyps [OF smaller _ this] less.prems(1) False show ?thesis by auto
    next
      case stop: False
      have "a \<le> 39 \<Longrightarrow> 0 < backoff_limit a" using less.prems(1) by (rule backoff_limit_pos)
      with False B less.prems stop show ?thesis
        by (auto simp: retry_loop.simps [of m env fn a n d] ctx dest: assms
            split: sum.splits if_splits option.splits)
    qed
  qed
qed

lemma retry_loop_lost:
  assumes "a \<le> m" and "re_begin env a (fn (re_handle env a)) d = (Inl e, d1)" and "retryable e"
    and "0 < backoff_limit a" and "re_done env a = None"
  shows "retry_loop m env fn a n d = retry_loop m env fn (a + 1) (n + 1) d1"
  using assms by (simp add: retry_loop.simps [of m env fn a n d])

text \<open>The first attempt that commits ends the call.\<close>

lemma retry_loop_first_success:
  assumes "\<And>i. a \<le> i \<Longrightarrow> i < j \<Longrightarrow>
        re_begin env i (fn (re_handle env i)) (ds i) = (Inl (es i), ds (i + 1)) \<and>
        retryable (es i) \<and> 0 < backoff_limit i \<and> re_done env i = None"
    and "re_begin env j (fn (re_handle env j)) (ds j) = (Inr r, d')" and "j \<le> m"
  shows "a \<le> j \<Longrightarrow> retry_loop m env fn a n (ds a) = (Ret r, n + nat (j - a), d')"
  using assms(1)
proof (induction "nat (j - a)" arbitrary: a n)
  case 0
  then have "a = j" by simp
  with assms(2,3) show ?case by (simp add: retry_loop.simps [of m env fn])
next
  case (Suc k)
  then have lt: "a < j" by simp
  have "retry_loop m env fn (a + 1) (n + 1) (ds (a + 1)) = (Ret r, n + 1 + nat (j - (a + 1)), d')"
    using Suc.hyps(2) lt Suc.prems(2) by (intro Suc.hyps(1)) auto
  moreover have "n + 1 + nat (j - (a + 1)) = n + nat (j - a)" using lt by simp
  ultimately show ?case
    using Suc.prems(2) [of a] lt assms(3) by (simp add: retry_loop.simps [of m env fn a n "ds a"])
qed

end
