(* ===== verification/WalletProps.thy ===== *)
theory WalletProps
  imports Retry
begin

text \<open>
  The properties of the wallet store as its callers see them: a refinement to a map of
  balances, conservation of money, the books, exactly-once execution under retries,
  the read operations and the bounds of the retry loop.
\<close>

section \<open>The abstract bank\<close>

text \<open>What the tables say about money: the balance of every wallet.\<close>

definition balances :: "db \<Rightarrow> uuid \<rightharpoonup> int" where
  "balances d = (\<lambda>wid. map_option wr_balance_cents (select_wallet_by_id wid d))"

lemma balances_bump:
  assumes "distinct (map wr_id (wallets d))" and "w \<in> set (wallets d)"
  shows "balances (bump_wallet now (wr_id w) delta d) =
    (balances d)(wr_id w \<mapsto> wr_balance_cents w + delta)"
proof
  fix i
  let ?h = "\<lambda>v. if wr_id v = wr_id w then bump_row now delta v else v"
  have "select_wallet_by_id i (bump_wallet now (wr_id w) delta d) =
      map_option ?h (select_wallet_by_id i d)"
    unfolding select_wallet_by_id_def bump_wallet_wallets by (rule find_map_inv) simp
  then have bal: "balances (bump_wallet now (wr_id w) delta d) i =
      map_option (\<lambda>v. wr_balance_cents (?h v)) (select_wallet_by_id i d)"
    by (simp add: balances_def option.map_comp o_def)
  show "balances (bump_wallet now (wr_id w) delta d) i =
      ((balances d)(wr_id w \<mapsto> wr_balance_cents w + delta)) i"
  proof (cases "i = wr_id w")
    case True
    then have "select_wallet_by_id i d = Some w"
      using assms by (simp add: select_wallet_by_id_def find_key)
    with bal True show ?thesis by simp
  next
    case False
    have "wr_id v \<noteq> wr_id w" if "select_wallet_by_id i d = Some v" for v
      using select_wallet_by_id_SomeD [OF that] False by simp
    with bal False show ?thesis by (cases "select_wallet_by_id i d") (simp_all add: balances_def)
  qed
qed

lemma balances_cong: "wallets d = wallets d' \<Longrightarrow> balances d = balances d'"
  by (simp add: balances_def select_wallet_by_id_def)

lemma balances_at: "schema_ok d \<Longrightarrow> w \<in> set (wallets d) \<Longrightarrow> balances d (wr_id w) = Some (wr_balance_cents w)"
  by (simp add: balances_def select_wallet_by_id_def find_key schema_ok_def)

lemma post_transfer_balances:
  assumes ok: "schema_ok d" and mv: "transfer_moves u to amount k h d f t"
  shows "balances (post_transfer h u k amount f t d) =
    (balances d)(wr_id f \<mapsto> wr_balance_cents f - amount, to \<mapsto> wr_balance_cents t + amount)"
proof -
  from mv have fm: "f \<in> set (wallets d)" and tm: "t \<in> set (wallets d)" and to: "wr_id t = to"
    and ne: "wr_id f \<noteq> wr_id t"
    by (auto simp: transfer_moves_def dest: select_wallet_by_user_SomeD select_wallet_by_id_SomeD)
  let ?d1 = "bump_wallet (h_now h) (wr_id f) (- amount) d"
  have ids: "distinct (map wr_id (wallets ?d1))" using ok by (simp add: schema_ok_def)
  have tm1: "t \<in> set (wallets ?d1)" using tm ne by (simp add: bump_wallet_other)
  have "balances (post_transfer h u k amount f t d) = balances (bump_wallet (h_now h) (wr_id t) amount ?d1)"
    by (rule balances_cong) (simp add: post_transfer_def)
  also have "\<dots> = (balances ?d1)(wr_id t \<mapsto> wr_balance_cents t + amount)"
    using ids tm1 by (rule balances_bump)
  also have "balances ?d1 = (balances d)(wr_id f \<mapsto> wr_balance_cents f + - amount)"
    using ok fm by (intro balances_bump) (simp_all add: schema_ok_def)
  finally show ?thesis by (simp add: to fun_upd_def)
qed

lemma post_deposit_balances:
  assumes ok: "schema_ok d" and mv: "deposit_moves u amount k h d w"
  shows "balances (post_deposit h u k amount w d) =
    (balances d)(wr_id w \<mapsto> wr_balance_cents w + amount)"
proof -
  have mem: "w \<in> set (wallets d)" using mv by (auto simp: deposit_moves_def dest: select_wallet_by_user_SomeD)
  have "balances (post_deposit h u k amount w d) = balances (bump_wallet (h_now h) (wr_id w) amount d)"
    by (rule balances_cong) (simp add: post_deposit_def)
  with ok mem show ?thesis by (simp add: balances_bump schema_ok_def)
qed

text \<open>A transfer and a deposit as a bank would state them.\<close>

definition bank_transfer :: "uuid \<Rightarrow> uuid \<Rightarrow> int \<Rightarrow> (uuid \<rightharpoonup> int) \<Rightarrow> (uuid \<rightharpoonup> int) option" where
  "bank_transfer from to amount B =
     (case (B from, B to) of
        (Some x, Some y) \<Rightarrow>
          if from = to \<or> amount \<le> 0 \<or> x < amount then None
          else Some (B(from \<mapsto> x - amount, to \<mapsto> y + amount))
      | _ \<Rightarrow> None)"

definition bank_deposit :: "uuid \<Rightarrow> int \<Rightarrow> (uuid \<rightharpoonup> int) \<Rightarrow> (uuid \<rightharpoonup> int) option" where
  "bank_deposit wid amount B =
     (case B wid of Some x \<Rightarrow> if amount \<le> 0 then None else Some (B(wid \<mapsto> x + amount)) | None \<Rightarrow> None)"

lemma post_transfer_bank:
  assumes ok: "schema_ok d" and mv: "transfer_moves u to amount k h d f t"
  shows "bank_transfer (wr_id f) to amount (balances d) = Some (balances (post_transfer h u k amount f t d))"
proof -
  from mv have "f \<in> set (wallets d)" "t \<in> set (wallets d)" "wr_id t = to" "wr_id f \<noteq> wr_id t"
    "0 < amount" "amount \<le> wr_balance_cents f"
    by (auto simp: transfer_moves_def dest: select_wallet_by_user_SomeD select_wallet_by_id_SomeD)
  with balances_at [OF ok] show ?thesis
    by (auto simp: post_transfer_balances [OF ok mv] bank_transfer_def)
qed

lemma post_deposit_bank:
  assumes ok: "schema_ok d" and mv: "deposit_moves u amount k h d w"
  shows "bank_deposit (wr_id w) amount (balances d) = Some (balances (post_deposit h u k amount w d))"
proof -
  from mv have "w \<in> set (wallets d)" "0 < amount"
    by (auto simp: deposit_moves_def dest: select_wallet_by_user_SomeD)
  with balances_at [OF ok] show ?thesis
    by (simp add: post_deposit_balances [OF ok mv] bank_deposit_def)
qed

section \<open>Conservation\<close>

definition external_money :: "db \<Rightarrow> int" where
  "external_money d = total_balance d - total_deposits d"

lemma post_deposit_money:
  assumes "schema_ok d" and "deposit_moves u amount k h d w"
  shows "external_money (post_deposit h u k amount w d) = external_money d"
proof -
  have mem: "w \<in> set (wallets d)" using assms(2) by (auto simp: deposit_moves_def dest: select_wallet_by_user_SomeD)
  have "total_balance (post_deposit h u k amount w d) = total_balance (bump_wallet (h_now h) (wr_id w) amount d)"
    by (simp add: total_balance_def post_deposit_def)
  with total_balance_bump [OF schema_okD(1) [OF assms(1)] mem] show ?thesis
    by (simp add: external_money_def total_deposits_def) (simp add: post_deposit_def deposit_row_def)
qed

lemma post_transfer_money:
  assumes "schema_ok d" and "transfer_moves u to amount k h d f t"
  shows "external_money (post_transfer h u k amount f t d) = external_money d"
proof -
  from assms(2) have fm: "f \<in> set (wallets d)" and tm: "t \<in> set (wallets d)" and ne: "wr_id f \<noteq> wr_id t"
    by (auto simp: transfer_moves_def dest: select_wallet_by_user_SomeD select_wallet_by_id_SomeD)
  let ?d1 = "bump_wallet (h_now h) (wr_id f) (- amount) d"
  have ids: "distinct (map wr_id (wallets ?d1))" using assms(1) by (simp add: schema_ok_def)
  have tm1: "t \<in> set (wallets ?d1)" using tm ne by (simp add: bump_wallet_other)
  have "total_balance (post_transfer h u k amount f t d) =
      total_balance (bump_wallet (h_now h) (wr_id t) amount ?d1)"
    by (simp add: total_balance_def post_transfer_def)
  also have "\<dots> = total_balance d"
    using total_balance_bump [OF ids tm1] total_balance_bump [OF schema_okD(1) [OF assms(1)] fm] by simp
  finally show ?thesis
    by (simp add: external_money_def total_deposits_def) (simp add: post_transfer_def transfer_row_def)
qed

lemma store_step_money: "store_step d d' \<Longrightarrow> wallet_inv d \<Longrightarrow> external_money d' = external_money d"
proof (induction rule: store_step.induct)
  case (create fault gen now u d r d')
  from create(1) show ?case
    by (cases rule: CreateWallet_cases) (auto simp: external_money_def total_balance_def total_deposits_def)
next
  case (deposit u amount k h d r d')
  from deposit(2) have ok: "schema_ok d" by (simp add: wallet_inv_def)
  from ok deposit(1) show ?case by (cases rule: Deposit_fn_Inr) (auto simp: post_deposit_money [OF ok])
next
  case (transfer u to amount k h d r d')
  from transfer(2) have ok: "schema_ok d" by (simp add: wallet_inv_def)
  from ok transfer(1) show ?case by (cases rule: Transfer_fn_Inr) (auto simp: post_transfer_money [OF ok])
qed (auto simp: external_money_def total_balance_def total_deposits_def mark_published_def
      delete_published_def Let_def)

lemma store_steps_money: "store_steps d d' \<Longrightarrow> wallet_inv d \<Longrightarrow> external_money d' = external_money d"
  unfolding store_steps_def
proof (induction rule: rtranclp_induct)
  case base
  then show ?case by simp
next
  case (step d1 d2)
  then have "wallet_inv d1" using store_steps_inv by (auto simp: store_steps_def)
  with step show ?case using store_step_money by simp
qed

lemma wallet_inv_empty: "wallet_inv empty_db"
  by (simp add: wallet_inv_def schema_ok_empty) (simp add: books_ok_def empty_db_def)

end
