(* ===== verification/Sessions.thy ===== *)
theory Sessions
  imports WalletProps
begin

text \<open>
  Concurrent requests.  The bodies of \<open>Deposit\<close> and \<open>Transfer\<close> are run one SQL statement at a
  time by any number of sessions over the same committed tables, at PostgreSQL's default
  isolation (read committed): a statement sees the rows committed when it starts and the
  session's own writes; an updated row stays locked until its transaction ends, and an
  \<open>UPDATE\<close> of a locked row waits and then looks at the row again; an insert that collides
  with an uncommitted unique key waits for that transaction.  A session can fail at any
  moment, and then its writes are gone.

  The small steps are the statements of theory \<open>Store\<close>; \<open>body_steps_sequential\<close> shows that
  running them undisturbed is the body.
\<close>

section \<open>One statement at a time\<close>

datatype request =
    DepositReq (req_user: uuid) (req_amount: int) (req_key: string)
  | TransferReq (req_user: uuid) (req_to: uuid) (req_amount: int) (req_key: string)

text \<open>The local variables \<open>from\<close> and \<open>to\<close> of a body (\<open>w\<close> of a deposit is \<open>pl_to\<close>).\<close>

record plan =
  pl_from :: "Wallet option"
  pl_to :: Wallet

datatype pc =
    Start
  | AtSender
  | AtRecipient Wallet
  | Updating plan "(stmt \<times> Wallet \<times> int) list"
  | AtInsert plan
  | AtOutbox plan Transaction
  | AtCommit Result
  | Done Result
  | Failed go_error

datatype wr = WBump uuid int | WTx tx_row | WOut outbox_row

fun apply_write :: "timestamp \<Rightarrow> wr \<Rightarrow> db \<Rightarrow> db" where
  "apply_write now (WBump wid delta) d = bump_wallet now wid delta d"
| "apply_write now (WTx t) d = d\<lparr>transactions := transactions d @ [t]\<rparr>"
| "apply_write now (WOut r) d = d\<lparr>outbox := outbox d @ [r]\<rparr>"

definition apply_writes :: "timestamp \<Rightarrow> wr list \<Rightarrow> db \<Rightarrow> db" where
  "apply_writes now ws d = fold (apply_write now) ws d"

definition key_matches :: "request \<Rightarrow> Transaction \<Rightarrow> bool" where
  "key_matches req t =
     (case req of
        DepositReq u amount k \<Rightarrow> t_Kind t = ''DEPOSIT'' \<and> t_AmountCents t = amount
      | TransferReq u to amount k \<Rightarrow>
          t_Kind t = ''TRANSFER'' \<and> t_AmountCents t = amount \<and> t_ToWalletID t = to)"

definition req_row :: "request \<Rightarrow> tx_handle \<Rightarrow> plan \<Rightarrow> tx_row" where
  "req_row req h pl =
     (case req of
        DepositReq u amount k \<Rightarrow> new_tx_row h u ''DEPOSIT'' None (w_ID (pl_to pl)) amount k
      | TransferReq u to amount k \<Rightarrow>
          new_tx_row h u ''TRANSFER'' (map_option w_ID (pl_from pl)) (w_ID (pl_to pl)) amount k)"

definition req_outbox :: "request \<Rightarrow> tx_handle \<Rightarrow> plan \<Rightarrow> Transaction \<Rightarrow> outbox_row" where
  "req_outbox req h pl t =
     (case req of
        DepositReq u amount k \<Rightarrow>
          new_outbox_row h topicDeposits (w_ID (pl_to pl)) (deposit_event u amount (pl_to pl) t)
      | TransferReq u to amount k \<Rightarrow>
          (case pl_from pl of
             Some from \<Rightarrow>
               new_outbox_row h topicTransfers (w_ID from) (transfer_event amount from (pl_to pl) t)
           | None \<Rightarrow> new_outbox_row h topicTransfers (w_ID (pl_to pl)) JNull))"

fun body_step :: "request \<Rightarrow> tx_handle \<Rightarrow> pc \<Rightarrow> db \<Rightarrow> go_error + pc \<times> wr list" where
  "body_step req h Start d =
     (case findByKey h (req_user req) (req_key req) d of
        Inr existing \<Rightarrow>
          if \<not> key_matches req existing then Inl ErrIdempotencyConflict
          else Inr (AtCommit \<lparr>res_Tx = existing, res_Replayed = True\<rparr>, [])
      | Inl err \<Rightarrow> if \<not> errors_Is err ErrNotFound then Inl err else Inr (AtSender, []))"
| "body_step (DepositReq u amount k) h AtSender d =
     (case scanWallet (QueryRow (h_fault h SelectSender) (select_wallet_by_user u d)) of
        Inl err \<Rightarrow> Inl (WrapError ''wallet'' err)
      | Inr w \<Rightarrow> Inr (Updating \<lparr>pl_from = None, pl_to = w\<rparr> [(UpdateFirst, w, amount)], []))"
| "body_step (TransferReq u to amount k) h AtSender d =
     (case scanWallet (QueryRow (h_fault h SelectSender) (select_wallet_by_user u d)) of
        Inl err \<Rightarrow> Inl (WrapError ''sender wallet'' err)
      | Inr from \<Rightarrow> Inr (AtRecipient from, []))"
| "body_step (TransferReq u toID amount k) h (AtRecipient from) d =
     (case scanWallet (QueryRow (h_fault h SelectRecipient) (select_wallet_by_id toID d)) of
        Inl err \<Rightarrow> Inl (WrapError ''recipient wallet'' err)
      | Inr to \<Rightarrow>
          if w_ID from = w_ID to then Inl ErrSameWallet
          else if w_Currency from \<noteq> w_Currency to then Inl ErrCurrencyMismatch
          else if w_BalanceCents from < amount then Inl ErrInsufficientFunds
          else (let ((first, firstDelta), (second, secondDelta)) = update_order from to amount
                in Inr (Updating \<lparr>pl_from = Some from, pl_to = to\<rparr>
                          [(UpdateFirst, first, firstDelta), (UpdateSecond, second, secondDelta)], [])))"
| "body_step req h (Updating pl ((st, w, delta) # us)) d =
     (case applyDelta h st w delta d of
        Inl err \<Rightarrow> Inl err
      | Inr d1 \<Rightarrow> Inr (if us = [] then AtInsert pl else Updating pl us, [WBump (w_ID w) delta]))"
| "body_step req h (AtInsert pl) d =
     (let row = req_row req h pl in
      case insertTxRow h (tr_user_id row) (tr_kind row) (tr_from_wallet_id row) (tr_to_wallet_id row)
             (tr_amount_cents row) (tr_idempotency_key row) d of
        Inl err \<Rightarrow> Inl err
      | Inr (t, d1) \<Rightarrow> Inr (AtOutbox pl t, [WTx row]))"
| "body_step req h (AtOutbox pl t) d =
     (let row = req_outbox req h pl t in
      case insertOutbox h (ob_topic row) (ob_message_key row) (ob_payload row) d of
        Inl err \<Rightarrow> Inl err
      | Inr d1 \<Rightarrow> Inr (AtCommit \<lparr>res_Tx = t, res_Replayed = False\<rparr>, [WOut row]))"
| "body_step req h _ d = Inl (OtherError ''no statement to run'')"

section \<open>Undisturbed, the statements are the body\<close>

fun run_body :: "nat \<Rightarrow> request \<Rightarrow> tx_handle \<Rightarrow> pc \<Rightarrow> wr list \<Rightarrow> db \<Rightarrow> (go_error + Result \<times> db) option" where
  "run_body 0 req h p ws d = None"
| "run_body (Suc n) req h p ws d =
     (case p of
        AtCommit r \<Rightarrow> Some (Inr (r, apply_writes (h_now h) ws d))
      | _ \<Rightarrow>
          (case body_step req h p (apply_writes (h_now h) ws d) of
             Inl e \<Rightarrow> Some (Inl e)
           | Inr (p', ws') \<Rightarrow> run_body n req h p' (ws @ ws') d))"

fun body_of :: "request \<Rightarrow> tx_fn" where
  "body_of (DepositReq u amount k) = Deposit_fn u amount k"
| "body_of (TransferReq u to amount k) = Transfer_fn u to amount k"

lemma apply_writes_simps [simp]:
  "apply_writes now [] d = d"
  "apply_writes now (w # ws) d = apply_writes now ws (apply_write now w d)"
  "apply_writes now (ws @ vs) d = apply_writes now vs (apply_writes now ws d)"
  by (simp_all add: apply_writes_def)

lemma applyDelta_bump:
  assumes "applyDelta h st w delta d = Inr d'" and ids: "distinct (map wr_id (wallets d))"
  shows "d' = bump_wallet (h_now h) (w_ID w) delta d \<and>
    (\<exists>r\<in>set (wallets d). wr_id r = w_ID w \<and> wr_version r = w_Version w \<and> bump_fits delta r \<and>
       0 \<le> wr_balance_cents r + delta)"
proof -
  from assms(1) obtain n where up: "update_wallet (h_now h) (w_ID w) delta (w_Version w) d = Inr (n, d')"
    and n: "n \<noteq> 0" by (auto simp: applyDelta_def split: option.splits sum.splits if_splits)
  have "\<exists>r\<in>set (wallets d). wr_id r = w_ID w \<and> wr_version r = w_Version w"
  proof (rule ccontr)
    assume "\<not> ?thesis"
    then have "update_wallet (h_now h) (w_ID w) delta (w_Version w) d = Inr (0, d)"
      by (intro update_wallet_stale) auto
    with up n show False by simp
  qed
  then obtain r where r: "r \<in> set (wallets d)" "wr_id r = w_ID w" "wr_version r = w_Version w" by blast
  from update_wallet_read_row [OF ids r(1), of "h_now h" delta] up r show ?thesis
    by (auto split: if_splits)
qed

lemma req_row_rebuild:
  "new_tx_row h (tr_user_id (req_row req h pl)) (tr_kind (req_row req h pl))
     (tr_from_wallet_id (req_row req h pl)) (tr_to_wallet_id (req_row req h pl))
     (tr_amount_cents (req_row req h pl)) (tr_idempotency_key (req_row req h pl)) = req_row req h pl"
  by (cases req) (simp_all add: req_row_def)

lemma req_outbox_rebuild:
  "new_outbox_row h (ob_topic (req_outbox req h pl t)) (ob_message_key (req_outbox req h pl t))
     (ob_payload (req_outbox req h pl t)) = req_outbox req h pl t"
  by (cases req) (simp_all add: req_outbox_def split: option.splits)

text \<open>The last two statements of a body.\<close>

definition finish_body :: "request \<Rightarrow> tx_handle \<Rightarrow> plan \<Rightarrow> db \<Rightarrow> go_error + Result \<times> db" where
  "finish_body req h pl d =
     (let row = req_row req h pl in
      case insertTxRow h (tr_user_id row) (tr_kind row) (tr_from_wallet_id row) (tr_to_wallet_id row)
             (tr_amount_cents row) (tr_idempotency_key row) d of
        Inl err \<Rightarrow> Inl err
      | Inr (t, d1) \<Rightarrow>
          (let out = req_outbox req h pl t in
           case insertOutbox h (ob_topic out) (ob_message_key out) (ob_payload out) d1 of
             Inl err \<Rightarrow> Inl err
           | Inr d2 \<Rightarrow> Inr (\<lparr>res_Tx = t, res_Replayed = False\<rparr>, d2)))"

lemma run_body_finish:
  "run_body (Suc (Suc (Suc n))) req h (AtInsert pl) ws d =
     Some (finish_body req h pl (apply_writes (h_now h) ws d))"
proof -
  let ?d = "apply_writes (h_now h) ws d" and ?row = "req_row req h pl"
  let ?ins = "insertTxRow h (tr_user_id ?row) (tr_kind ?row) (tr_from_wallet_id ?row)
      (tr_to_wallet_id ?row) (tr_amount_cents ?row) (tr_idempotency_key ?row) ?d"
  show ?thesis
  proof (cases ?ins)
    case (Inl e)
    then show ?thesis by (simp add: finish_body_def Let_def)
  next
    case (Inr td)
    then obtain t d1 where ins: "?ins = Inr (t, d1)" by (cases td) simp
    then have d1: "d1 = ?d\<lparr>transactions := transactions ?d @ [?row]\<rparr>"
      by (simp add: insertTxRow_Inr req_row_rebuild insert_tx_Inr)
    let ?out = "req_outbox req h pl t"
    show ?thesis
    proof (cases "insertOutbox h (ob_topic ?out) (ob_message_key ?out) (ob_payload ?out) d1")
      case (Inl e)
      with ins d1 show ?thesis by (simp add: finish_body_def Let_def)
    next
      case (Inr d2)
      then have "d2 = d1\<lparr>outbox := outbox d1 @ [?out]\<rparr>" by (simp add: insertOutbox_Inr req_outbox_rebuild)
      with ins d1 Inr show ?thesis by (simp add: finish_body_def Let_def)
    qed
  qed
qed

lemma body_of_deposit_finish:
  "body_of (DepositReq u amount k) h d =
     (case findByKey h u k d of
        Inr existing \<Rightarrow> if \<not> key_matches (DepositReq u amount k) existing then Inl ErrIdempotencyConflict
          else Inr (\<lparr>res_Tx = existing, res_Replayed = True\<rparr>, d)
      | Inl err \<Rightarrow>
          if \<not> errors_Is err ErrNotFound then Inl err
          else (case scanWallet (QueryRow (h_fault h SelectSender) (select_wallet_by_user u d)) of
               Inl err \<Rightarrow> Inl (WrapError ''wallet'' err)
             | Inr w \<Rightarrow> (case applyDelta h UpdateFirst w amount d of Inl err \<Rightarrow> Inl err
                | Inr d1 \<Rightarrow> finish_body (DepositReq u amount k) h \<lparr>pl_from = None, pl_to = w\<rparr> d1)))"
  by (auto simp: Deposit_fn_def finish_body_def key_matches_def req_row_def req_outbox_def
      split: sum.split)

lemma body_of_transfer_finish:
  "body_of (TransferReq u toID amount k) h d =
     (case findByKey h u k d of
        Inr existing \<Rightarrow> if \<not> key_matches (TransferReq u toID amount k) existing then Inl ErrIdempotencyConflict
          else Inr (\<lparr>res_Tx = existing, res_Replayed = True\<rparr>, d)
      | Inl err \<Rightarrow>
          if \<not> errors_Is err ErrNotFound then Inl err
          else (case scanWallet (QueryRow (h_fault h SelectSender) (select_wallet_by_user u d)) of
               Inl err \<Rightarrow> Inl (WrapError ''sender wallet'' err)
             | Inr from \<Rightarrow>
               (case scanWallet (QueryRow (h_fault h SelectRecipient) (select_wallet_by_id toID d)) of
               Inl err \<Rightarrow> Inl (WrapError ''recipient wallet'' err)
             | Inr to \<Rightarrow>
                if w_ID from = w_ID to then Inl ErrSameWallet
                else if w_Currency from \<noteq> w_Currency to then Inl ErrCurrencyMismatch
                else if w_BalanceCents from < amount then Inl ErrInsufficientFunds
                else (let ((first, firstDelta), (second, secondDelta)) = update_order from to amount in
                  case applyDelta h UpdateFirst first firstDelta d of Inl err \<Rightarrow> Inl err
                | Inr d1 \<Rightarrow> (case applyDelta h UpdateSecond second secondDelta d1 of Inl err \<Rightarrow> Inl err
                   | Inr d2 \<Rightarrow> finish_body (TransferReq u toID amount k) h
                       \<lparr>pl_from = Some from, pl_to = to\<rparr> d2)))))"
  by (auto simp: Transfer_fn_def finish_body_def key_matches_def req_row_def req_outbox_def
      update_order_def Let_def split: sum.split)

lemma run_body_commit: "run_body (Suc n) req h (AtCommit r) ws d = Some (Inr (r, apply_writes (h_now h) ws d))"
  by simp

lemma run_body_Inl:
  assumes "body_step req h p (apply_writes (h_now h) ws d) = Inl e" and "\<And>r. p \<noteq> AtCommit r"
  shows "run_body (Suc n) req h p ws d = Some (Inl e)"
  using assms by (cases p) auto

lemma run_body_Inr:
  assumes "body_step req h p (apply_writes (h_now h) ws d) = Inr (p', ws')" and "\<And>r. p \<noteq> AtCommit r"
  shows "run_body (Suc n) req h p ws d = run_body n req h p' (ws @ ws') d"
  using assms by (cases p) auto

lemma run_body_start:
  "run_body (Suc (Suc n)) req h Start [] d =
     (case findByKey h (req_user req) (req_key req) d of
        Inr existing \<Rightarrow> Some (if \<not> key_matches req existing then Inl ErrIdempotencyConflict
          else Inr (\<lparr>res_Tx = existing, res_Replayed = True\<rparr>, d))
      | Inl err \<Rightarrow> if \<not> errors_Is err ErrNotFound then Some (Inl err)
          else run_body (Suc n) req h AtSender [] d)"
  by (simp split: sum.split)

lemma run_body_one_update:
  assumes "distinct (map wr_id (wallets (apply_writes (h_now h) ws d)))"
  shows "run_body (Suc (Suc (Suc (Suc n)))) req h (Updating pl [(st, w, delta)]) ws d =
    Some (case applyDelta h st w delta (apply_writes (h_now h) ws d) of
        Inl e \<Rightarrow> Inl e | Inr d1 \<Rightarrow> finish_body req h pl d1)"
proof (cases "applyDelta h st w delta (apply_writes (h_now h) ws d)")
  case (Inl e)
  then show ?thesis by (simp add: run_body_Inl)
next
  case (Inr d1)
  then have "body_step req h (Updating pl [(st, w, delta)]) (apply_writes (h_now h) ws d) =
      Inr (AtInsert pl, [WBump (w_ID w) delta])" by simp
  with Inr applyDelta_bump [OF Inr assms] show ?thesis
    by (simp add: run_body_Inr run_body_finish del: run_body.simps(2) body_step.simps)
qed

lemma run_body_two_updates:
  assumes "distinct (map wr_id (wallets d))"
  shows "run_body (Suc (Suc (Suc (Suc (Suc n))))) req h (Updating pl [(s1, a, x), (s2, b, y)]) [] d =
    Some (case applyDelta h s1 a x d of Inl e \<Rightarrow> Inl e
       | Inr d1 \<Rightarrow> (case applyDelta h s2 b y d1 of Inl e \<Rightarrow> Inl e | Inr d2 \<Rightarrow> finish_body req h pl d2))"
proof (cases "applyDelta h s1 a x d")
  case (Inl e)
  then show ?thesis by (simp add: run_body_Inl)
next
  case (Inr d1)
  then have "body_step req h (Updating pl [(s1, a, x), (s2, b, y)]) (apply_writes (h_now h) [] d) =
      Inr (Updating pl [(s2, b, y)], [WBump (w_ID a) x])" by simp
  from run_body_Inr [OF this] Inr applyDelta_bump [OF Inr assms] assms show ?thesis
    by (simp add: run_body_one_update del: run_body.simps(2) body_step.simps)
qed

lemma run_body_deposit:
  assumes "distinct (map wr_id (wallets d))"
  shows "run_body (Suc (Suc (Suc (Suc (Suc n))))) (DepositReq u amount k) h AtSender [] d =
    Some (case scanWallet (QueryRow (h_fault h SelectSender) (select_wallet_by_user u d)) of
        Inl err \<Rightarrow> Inl (WrapError ''wallet'' err)
      | Inr w \<Rightarrow> (case applyDelta h UpdateFirst w amount d of Inl err \<Rightarrow> Inl err
         | Inr d1 \<Rightarrow> finish_body (DepositReq u amount k) h \<lparr>pl_from = None, pl_to = w\<rparr> d1))"
  using assms run_body_one_update [of h "[]" d]
  by (cases "scanWallet (QueryRow (h_fault h SelectSender) (select_wallet_by_user u d))")
    (simp_all add: run_body_Inl run_body_Inr del: run_body.simps(2))

lemma run_body_recipient:
  assumes "distinct (map wr_id (wallets d))"
  shows "run_body (Suc (Suc (Suc (Suc (Suc (Suc n)))))) (TransferReq u toID amount k) h (AtRecipient from) [] d =
    Some (case scanWallet (QueryRow (h_fault h SelectRecipient) (select_wallet_by_id toID d)) of
        Inl err \<Rightarrow> Inl (WrapError ''recipient wallet'' err)
      | Inr to \<Rightarrow>
          if w_ID from = w_ID to then Inl ErrSameWallet
          else if w_Currency from \<noteq> w_Currency to then Inl ErrCurrencyMismatch
          else if w_BalanceCents from < amount then Inl ErrInsufficientFunds
          else (let ((first, firstDelta), (second, secondDelta)) = update_order from to amount in
            case applyDelta h UpdateFirst first firstDelta d of Inl err \<Rightarrow> Inl err
          | Inr d1 \<Rightarrow> (case applyDelta h UpdateSecond second secondDelta d1 of Inl err \<Rightarrow> Inl err
             | Inr d2 \<Rightarrow> finish_body (TransferReq u toID amount k) h \<lparr>pl_from = Some from, pl_to = to\<rparr> d2)))"
  using assms run_body_two_updates [of d]
  by (cases "scanWallet (QueryRow (h_fault h SelectRecipient) (select_wallet_by_id toID d))")
    (simp_all add: run_body_Inl run_body_Inr Let_def update_order_def del: run_body.simps(2))

lemma run_body_transfer:
  assumes "distinct (map wr_id (wallets d))"
  shows "run_body (Suc (Suc (Suc (Suc (Suc (Suc (Suc n))))))) (TransferReq u toID amount k) h AtSender [] d =
    (case scanWallet (QueryRow (h_fault h SelectSender) (select_wallet_by_user u d)) of
        Inl err \<Rightarrow> Some (Inl (WrapError ''sender wallet'' err))
      | Inr from \<Rightarrow>
          run_body (Suc (Suc (Suc (Suc (Suc (Suc n)))))) (TransferReq u toID amount k) h (AtRecipient from) [] d)"
  by (cases "scanWallet (QueryRow (h_fault h SelectSender) (select_wallet_by_user u d))")
    (simp_all add: run_body_Inl run_body_Inr del: run_body.simps(2))

lemma body_steps_sequential:
  assumes ids: "distinct (map wr_id (wallets d))"
  shows "run_body 8 req h Start [] d = Some (body_of req h d)"
proof -
  have eight: "(8::nat) = Suc (Suc (Suc (Suc (Suc (Suc (Suc (Suc 0)))))))" by simp
  show ?thesis
  proof (cases req)
    case (DepositReq u amount k)
    show ?thesis
      unfolding eight run_body_start DepositReq run_body_deposit [OF ids] body_of_deposit_finish
      by (simp split: sum.split)
  next
    case (TransferReq u to amount k)
    show ?thesis
      unfolding eight run_body_start TransferReq run_body_transfer [OF ids] run_body_recipient [OF ids]
        body_of_transfer_finish
      by (simp split: sum.split)
  qed
qed

end
