(* ===== verification/Interleaving.thy ===== *)
theory Interleaving
  imports Sessions
begin

text \<open>
  Any number of sessions over the same committed tables.  The main result is that every
  commit has the effect of running the body alone, at the moment of the commit, on the
  committed tables: optimistic locking makes the interleaved execution serial.
\<close>

section \<open>The machine\<close>

record session =
  s_req :: request
  s_handle :: tx_handle
  s_pc :: pc
  s_writes :: "wr list"

record gstate =
  g_db :: db
  g_sessions :: "session list"

definition view :: "session \<Rightarrow> db \<Rightarrow> db" where
  "view s d = apply_writes (h_now (s_handle s)) (s_writes s) d"

text \<open>What a session keeps from the others: the rows it updated and the keys it inserted.\<close>

fun locked_rows :: "wr list \<Rightarrow> uuid list" where
  "locked_rows [] = []"
| "locked_rows (WBump wid delta # ws) = wid # locked_rows ws"
| "locked_rows (_ # ws) = locked_rows ws"

fun pending_txs :: "wr list \<Rightarrow> tx_row list" where
  "pending_txs [] = []"
| "pending_txs (WTx t # ws) = t # pending_txs ws"
| "pending_txs (_ # ws) = pending_txs ws"

definition tx_collides :: "tx_row \<Rightarrow> tx_row \<Rightarrow> bool" where
  "tx_collides a b \<longleftrightarrow> tr_id a = tr_id b \<or>
     tr_user_id a = tr_user_id b \<and> tr_idempotency_key a = tr_idempotency_key b"

definition waits_for :: "session \<Rightarrow> session \<Rightarrow> bool" where
  "waits_for s t \<longleftrightarrow>
     (case s_pc s of
        Updating pl us \<Rightarrow>
          (case us of [] \<Rightarrow> False | (st, w, delta) # _ \<Rightarrow> w_ID w \<in> set (locked_rows (s_writes t)))
      | AtInsert pl \<Rightarrow>
          list_ex (tx_collides (req_row (s_req s) (s_handle s) pl)) (pending_txs (s_writes t))
      | _ \<Rightarrow> False)"

definition blocked :: "session list \<Rightarrow> nat \<Rightarrow> bool" where
  "blocked ss i \<longleftrightarrow> list_ex (\<lambda>j. j \<noteq> i \<and> waits_for (ss ! i) (ss ! j)) [0..<length ss]"

fun running :: "pc \<Rightarrow> bool" where
  "running (AtCommit r) = False"
| "running (Done r) = False"
| "running (Failed e) = False"
| "running _ = True"

text \<open>The sequence of the outbox never hands out a number that is in use.\<close>

definition nextval_free :: "gstate \<Rightarrow> int \<Rightarrow> bool" where
  "nextval_free g n \<longleftrightarrow> n \<notin> ob_id ` set (outbox (g_db g)) \<and>
     n \<notin> (h_nextval \<circ> s_handle) ` set (g_sessions g)"

definition fresh_session :: "request \<Rightarrow> tx_handle \<Rightarrow> session" where
  "fresh_session req h = \<lparr>s_req = req, s_handle = h, s_pc = Start, s_writes = []\<rparr>"

inductive gstep :: "gstate \<Rightarrow> gstate \<Rightarrow> bool" where
  arrive: "nextval_free g (h_nextval h) \<Longrightarrow>
     gstep g (g\<lparr>g_sessions := g_sessions g @ [fresh_session req h]\<rparr>)"
| statement: "\<lbrakk>i < length (g_sessions g); s = g_sessions g ! i; running (s_pc s);
     \<not> blocked (g_sessions g) i;
     body_step (s_req s) (s_handle s) (s_pc s) (view s (g_db g)) = Inr (p, ws)\<rbrakk> \<Longrightarrow>
     gstep g (g\<lparr>g_sessions := (g_sessions g)[i := s\<lparr>s_pc := p, s_writes := s_writes s @ ws\<rparr>]\<rparr>)"
| error: "\<lbrakk>i < length (g_sessions g); s = g_sessions g ! i; running (s_pc s);
     \<not> blocked (g_sessions g) i;
     body_step (s_req s) (s_handle s) (s_pc s) (view s (g_db g)) = Inl e\<rbrakk> \<Longrightarrow>
     gstep g (g\<lparr>g_sessions := (g_sessions g)[i := s\<lparr>s_pc := Failed e, s_writes := []\<rparr>]\<rparr>)"
| crash: "\<lbrakk>i < length (g_sessions g); s = g_sessions g ! i; running (s_pc s) \<or> s_pc s = AtCommit r\<rbrakk> \<Longrightarrow>
     gstep g (g\<lparr>g_sessions := (g_sessions g)[i := s\<lparr>s_pc := Failed e, s_writes := []\<rparr>]\<rparr>)"
| commit: "\<lbrakk>i < length (g_sessions g); s = g_sessions g ! i; s_pc s = AtCommit r;
     p = Done r \<or> p = Failed e\<rbrakk> \<Longrightarrow>
     gstep g (g\<lparr>g_db := view s (g_db g),
                g_sessions := (g_sessions g)[i := s\<lparr>s_pc := p, s_writes := []\<rparr>]\<rparr>)"
| retry: "\<lbrakk>i < length (g_sessions g); s = g_sessions g ! i; s_pc s = Failed e; retryable e;
     nextval_free g (h_nextval h)\<rbrakk> \<Longrightarrow>
     gstep g (g\<lparr>g_sessions := (g_sessions g)[i := fresh_session (s_req s) h]\<rparr>)"
| create: "CreateWallet fault gen now u (g_db g) = (r, d') \<Longrightarrow> gstep g (g\<lparr>g_db := d'\<rparr>)"
| publish: "gstep g (g\<lparr>g_db := mark_published now ids (g_db g)\<rparr>)"
| cleanup: "delete_published cutoff (g_db g) = (n, d') \<Longrightarrow> gstep g (g\<lparr>g_db := d'\<rparr>)"

definition init_gstate :: gstate where
  "init_gstate = \<lparr>g_db = empty_db, g_sessions = []\<rparr>"

definition reachable :: "gstate \<Rightarrow> bool" where
  "reachable g \<longleftrightarrow> gstep\<^sup>*\<^sup>* init_gstate g"

section \<open>What a session knows\<close>

text \<open>A row that was read: still there, and unchanged if its version is.\<close>

definition seen :: "db \<Rightarrow> Wallet \<Rightarrow> bool" where
  "seen d w \<longleftrightarrow> (\<exists>r\<in>set (wallets d). wr_id r = w_ID w \<and> w_Version w \<le> wr_version r \<and>
     (wr_version r = w_Version w \<longrightarrow> walletColumns r = w))"

text \<open>A row that was updated and is locked: unchanged since it was read.\<close>

definition held :: "db \<Rightarrow> stmt \<times> Wallet \<times> int \<Rightarrow> bool" where
  "held d upd = (case upd of (st, w, delta) \<Rightarrow>
     (\<exists>r\<in>set (wallets d). walletColumns r = w \<and> bump_fits delta r \<and> 0 \<le> wr_balance_cents r + delta))"

definition plan_updates :: "request \<Rightarrow> plan \<Rightarrow> (stmt \<times> Wallet \<times> int) list" where
  "plan_updates req pl =
     (case (req, pl_from pl) of
        (TransferReq u to amount k, Some from) \<Rightarrow>
          (let ((a, x), (b, y)) = update_order from (pl_to pl) amount
           in [(UpdateFirst, a, x), (UpdateSecond, b, y)])
      | _ \<Rightarrow> [(UpdateFirst, pl_to pl, req_amount req)])"

definition planned :: "request \<Rightarrow> plan \<Rightarrow> bool" where
  "planned req pl \<longleftrightarrow>
     (case req of
        DepositReq u amount k \<Rightarrow> pl_from pl = None \<and> w_UserID (pl_to pl) = u
      | TransferReq u to amount k \<Rightarrow>
          (\<exists>from. pl_from pl = Some from \<and> w_UserID from = u \<and> w_ID (pl_to pl) = to \<and>
             w_ID from \<noteq> to \<and> w_Currency from = w_Currency (pl_to pl) \<and>
             amount \<le> w_BalanceCents from))"

definition bumps :: "(stmt \<times> Wallet \<times> int) list \<Rightarrow> wr list" where
  "bumps us = map (\<lambda>(st, w, delta). WBump (w_ID w) delta) us"

definition row_new :: "db \<Rightarrow> tx_row \<Rightarrow> bool" where
  "row_new d t \<longleftrightarrow> tx_checks t \<and> tx_refs d t \<and> tr_id t \<notin> tr_id ` set (transactions d) \<and>
     select_tx_by_key (tr_user_id t) (tr_idempotency_key t) d = None"

definition replay_ok :: "db \<Rightarrow> request \<Rightarrow> Result \<Rightarrow> bool" where
  "replay_ok d req r \<longleftrightarrow>
     (\<exists>t. select_tx_by_key (req_user req) (req_key req) d = Some t \<and> key_matches req (txColumns t) \<and>
        r = \<lparr>res_Tx = txColumns t, res_Replayed = True\<rparr>)"

fun session_ok :: "db \<Rightarrow> request \<Rightarrow> tx_handle \<Rightarrow> pc \<Rightarrow> wr list \<Rightarrow> bool" where
  "session_ok d req h (AtRecipient from) ws \<longleftrightarrow> ws = [] \<and> seen d from \<and> w_UserID from = req_user req"
| "session_ok d req h (Updating pl us) ws \<longleftrightarrow>
     planned req pl \<and> us \<noteq> [] \<and>
     (\<exists>done. plan_updates req pl = done @ us \<and> ws = bumps done \<and>
        list_all (held d) done \<and> list_all (\<lambda>(st, w, delta). seen d w) us)"
| "session_ok d req h (AtInsert pl) ws \<longleftrightarrow>
     planned req pl \<and> ws = bumps (plan_updates req pl) \<and> list_all (held d) (plan_updates req pl)"
| "session_ok d req h (AtOutbox pl t) ws \<longleftrightarrow>
     planned req pl \<and> ws = bumps (plan_updates req pl) @ [WTx (req_row req h pl)] \<and>
     list_all (held d) (plan_updates req pl) \<and> row_new d (req_row req h pl) \<and>
     t = txColumns (req_row req h pl)"
| "session_ok d req h (AtCommit r) ws \<longleftrightarrow>
     (ws = [] \<and> replay_ok d req r) \<or>
     (\<exists>pl t. planned req pl \<and> t = txColumns (req_row req h pl) \<and>
        ws = bumps (plan_updates req pl) @ [WTx (req_row req h pl), WOut (req_outbox req h pl t)] \<and>
        list_all (held d) (plan_updates req pl) \<and> row_new d (req_row req h pl) \<and>
        r = \<lparr>res_Tx = t, res_Replayed = False\<rparr>)"
| "session_ok d req h p ws \<longleftrightarrow> ws = []"

section \<open>A commit is the body run alone\<close>

definition no_faults :: "tx_handle \<Rightarrow> tx_handle" where
  "no_faults h = h\<lparr>h_fault := (\<lambda>_. None)\<rparr>"

lemma no_faults_simps [simp]:
  "h_now (no_faults h) = h_now h" "h_uuid (no_faults h) = h_uuid h"
  "h_nextval (no_faults h) = h_nextval h" "h_fault (no_faults h) = (\<lambda>_. None)"
  "new_tx_row (no_faults h) u kind from to amount k = new_tx_row h u kind from to amount k"
  "new_outbox_row (no_faults h) topic key ev = new_outbox_row h topic key ev"
  by (simp_all add: no_faults_def new_tx_row_def new_outbox_row_def)

lemma select_user_row:
  "schema_ok d \<Longrightarrow> r \<in> set (wallets d) \<Longrightarrow> select_wallet_by_user (wr_user_id r) d = Some r"
  by (simp add: select_wallet_by_user_def find_key schema_ok_def)

lemma select_id_row:
  "schema_ok d \<Longrightarrow> r \<in> set (wallets d) \<Longrightarrow> select_wallet_by_id (wr_id r) d = Some r"
  by (simp add: select_wallet_by_id_def find_key schema_ok_def)

lemma commit_deposit:
  assumes ok: "schema_ok d" and pl: "planned (DepositReq u amount k) pl"
    and held: "list_all (held d) (plan_updates (DepositReq u amount k) pl)"
    and new: "row_new d (req_row (DepositReq u amount k) h pl)"
    and seq: "h_nextval h \<notin> ob_id ` set (outbox d)"
    and t: "t = txColumns (req_row (DepositReq u amount k) h pl)"
  shows "Deposit_fn u amount k (no_faults h) d =
    Inr (\<lparr>res_Tx = t, res_Replayed = False\<rparr>,
      apply_writes (h_now h) (bumps (plan_updates (DepositReq u amount k) pl) @
        [WTx (req_row (DepositReq u amount k) h pl), WOut (req_outbox (DepositReq u amount k) h pl t)]) d)"
proof -
  from pl have u: "w_UserID (pl_to pl) = u" by (simp add: planned_def)
  from held obtain r where r: "r \<in> set (wallets d)" and w: "pl_to pl = walletColumns r"
    and fits: "bump_fits amount r" by (auto simp: plan_updates_def held_def)
  have sel: "select_wallet_by_user u d = Some r" using select_user_row [OF ok r] u w by simp
  from new have pos: "0 < amount" and key: "select_tx_by_key u k d = None"
    and fresh: "drawn_fresh (no_faults h) d"
    using seq by (auto simp: row_new_def req_row_def tx_checks_def drawn_fresh_def)
  have "Deposit_fn u amount k (no_faults h) d = deposit_ref u amount k (no_faults h) d"
    using ok pos fresh by (intro Deposit_fn_ref) simp_all
  with sel key fits w t show ?thesis
    by (simp add: deposit_ref_def post_deposit_def deposit_row_def deposit_outbox_def req_row_def
        req_outbox_def plan_updates_def bumps_def)
qed

lemma commit_transfer:
  assumes ok: "schema_ok d" and pl: "planned (TransferReq u to amount k) pl"
    and held: "list_all (held d) (plan_updates (TransferReq u to amount k) pl)"
    and new: "row_new d (req_row (TransferReq u to amount k) h pl)"
    and seq: "h_nextval h \<notin> ob_id ` set (outbox d)"
    and t: "t = txColumns (req_row (TransferReq u to amount k) h pl)"
  shows "Transfer_fn u to amount k (no_faults h) d =
    Inr (\<lparr>res_Tx = t, res_Replayed = False\<rparr>,
      apply_writes (h_now h) (bumps (plan_updates (TransferReq u to amount k) pl) @
        [WTx (req_row (TransferReq u to amount k) h pl),
         WOut (req_outbox (TransferReq u to amount k) h pl t)]) d)"
proof -
  from pl obtain cf where cf: "pl_from pl = Some cf" and u: "w_UserID cf = u" and to: "w_ID (pl_to pl) = to"
    and ne: "w_ID cf \<noteq> to" and cur: "w_Currency cf = w_Currency (pl_to pl)" and bal: "amount \<le> w_BalanceCents cf"
    by (auto simp: planned_def)
  from held cf have hf: "held d (UpdateFirst, cf, go_neg64 amount)"
    and ht: "held d (UpdateFirst, pl_to pl, amount)"
    by (auto simp: plan_updates_def update_order_def held_def split: if_splits)
  then obtain f g where f: "f \<in> set (wallets d)" "cf = walletColumns f" "bump_fits (go_neg64 amount) f"
    and g: "g \<in> set (wallets d)" "pl_to pl = walletColumns g" "bump_fits amount g"
    by (auto simp: held_def)
  from new have pos: "0 < amount" and key: "select_tx_by_key u k d = None"
    and fresh: "drawn_fresh (no_faults h) d"
    using seq by (auto simp: row_new_def req_row_def tx_checks_def drawn_fresh_def)
  have rng: "amount \<le> int64_max"
    using bal f schema_okD(3) [OF ok f(1)] by (simp add: wallet_checks_def)
  note neg = go_neg64_pos [OF pos rng]
  have self: "select_wallet_by_user u d = Some f" using select_user_row [OF ok f(1)] u f by simp
  have selg: "select_wallet_by_id to d = Some g" using select_id_row [OF ok g(1)] to g by simp
  have ids: "wr_id f \<noteq> wr_id g" using ne to f g by simp
  have "Transfer_fn u to amount k (no_faults h) d = transfer_ref u to amount k (no_faults h) d"
    using ok pos rng fresh by (intro Transfer_fn_ref) simp_all
  also have "\<dots> = Inr (\<lparr>res_Tx = t, res_Replayed = False\<rparr>, post_transfer (no_faults h) u k amount f g d)"
    using key self selg ids cur bal f g neg t cf
    by (simp add: transfer_ref_def transfer_row_def req_row_def)
  also have "post_transfer (no_faults h) u k amount f g d =
      apply_writes (h_now h) (bumps (plan_updates (TransferReq u to amount k) pl) @
        [WTx (req_row (TransferReq u to amount k) h pl),
         WOut (req_outbox (TransferReq u to amount k) h pl t)]) d"
    using f g cf t neg bump_wallet_commute [OF ids]
    by (simp add: post_transfer_def transfer_row_def transfer_outbox_def req_row_def req_outbox_def
        plan_updates_def bumps_def update_order_def)
  finally show ?thesis .
qed

lemma commit_replay:
  assumes "replay_ok d req r"
  shows "body_of req (no_faults h) d = Inr (r, d)"
  using assms
  by (cases req) (auto simp: replay_ok_def key_matches_def Deposit_fn_def Transfer_fn_def findByKey_def
      scan_no_fault)

text \<open>The serialisation point: what a session commits is its body, run on the committed tables.\<close>

lemma commit_serial:
  assumes "schema_ok d" and "session_ok d req h (AtCommit r) ws"
    and "h_nextval h \<notin> ob_id ` set (outbox d)"
  shows "body_of req (no_faults h) d = Inr (r, apply_writes (h_now h) ws d)"
proof (cases "ws = [] \<and> replay_ok d req r")
  case True
  then show ?thesis by (simp add: commit_replay)
next
  case False
  then obtain pl t where "planned req pl" "t = txColumns (req_row req h pl)"
    "ws = bumps (plan_updates req pl) @ [WTx (req_row req h pl), WOut (req_outbox req h pl t)]"
    "list_all (held d) (plan_updates req pl)" "row_new d (req_row req h pl)"
    "r = \<lparr>res_Tx = t, res_Replayed = False\<rparr>"
    using assms(2) by auto
  with assms show ?thesis
    by (cases req) (simp_all add: commit_deposit commit_transfer del: apply_writes_simps)
qed

end
