(* ===== verification/Serial.thy ===== *)
theory Serial
  imports Interleaving
begin

text \<open>
  The invariant of the interleaved machine.  What a session has read or written stays valid
  while the others commit, so that every commit takes the serialisation lemma of theory
  \<open>Interleaving\<close>; the locks of two sessions never overlap; and the waiting relation has no
  cycle, because the updates of a transfer are made in the order of the wallet ids.
\<close>

section \<open>How the tables evolve under a session\<close>

text \<open>
  The tables after some commits: a row is unchanged or, if it is one of \<open>ids\<close>, has a larger
  version; the log is extended by \<open>ts\<close>.
\<close>

definition moved :: "uuid list \<Rightarrow> tx_row list \<Rightarrow> db \<Rightarrow> db \<Rightarrow> bool" where
  "moved ids ts d d' \<longleftrightarrow>
     (\<forall>r\<in>set (wallets d). \<exists>r'\<in>set (wallets d'). wr_id r' = wr_id r \<and>
        (r' = r \<or> wr_id r \<in> set ids \<and> wr_version r < wr_version r')) \<and>
     transactions d' = transactions d @ ts"

lemma moved_refl: "moved [] [] d d"
  by (auto simp: moved_def)

lemma moved_row:
  assumes "moved ids ts d d'" and "r \<in> set (wallets d)"
  obtains (same) "r \<in> set (wallets d')"
  | (bumped) r' where "r' \<in> set (wallets d')" and "wr_id r' = wr_id r" and "wr_id r \<in> set ids"
      and "wr_version r < wr_version r'"
  using assms unfolding moved_def by blast

lemma moved_trans:
  assumes "moved ids ts d d1" and "moved ids' ts' d1 d2"
  shows "moved (ids @ ids') (ts @ ts') d d2"
proof -
  have "\<exists>r'\<in>set (wallets d2). wr_id r' = wr_id r \<and>
      (r' = r \<or> wr_id r \<in> set (ids @ ids') \<and> wr_version r < wr_version r')" if "r \<in> set (wallets d)" for r
    using assms(1) that
  proof (cases rule: moved_row)
    case same
    from assms(2) same show ?thesis by (cases rule: moved_row) auto
  next
    case (bumped r1)
    from assms(2) bumped(1) show ?thesis by (cases rule: moved_row) (use bumped in force)+
  qed
  with assms show ?thesis by (simp add: moved_def)
qed

lemma moved_bump: "moved [wid] [] d (bump_wallet now wid delta d)"
proof -
  have "\<exists>r'\<in>set (wallets (bump_wallet now wid delta d)). wr_id r' = wr_id r \<and>
      (r' = r \<or> wr_id r \<in> set [wid] \<and> wr_version r < wr_version r')" if "r \<in> set (wallets d)" for r
  proof (rule bexI)
    show "(if wr_id r = wid then bump_row now delta r else r) \<in> set (wallets (bump_wallet now wid delta d))"
      using that by (auto simp: bump_wallet_rows)
  qed simp
  then show ?thesis by (simp add: moved_def)
qed

lemma moved_writes: "moved (locked_rows ws) (pending_txs ws) d (apply_writes now ws d)"
proof (induction ws arbitrary: d)
  case Nil
  then show ?case by (simp add: moved_refl)
next
  case (Cons w ws)
  note rest = Cons.IH [of "apply_write now w d"]
  show ?case
  proof (cases w)
    case (WBump wid delta)
    with moved_trans [OF moved_bump [of wid d now delta] rest [unfolded WBump apply_write.simps]]
    show ?thesis by simp
  next
    case (WTx t)
    have "moved [] [t] d (apply_write now w d)" by (auto simp: WTx moved_def)
    from moved_trans [OF this rest] WTx show ?thesis by simp
  next
    case (WOut r)
    have "moved [] [] d (apply_write now w d)" by (auto simp: WOut moved_def)
    from moved_trans [OF this rest] WOut show ?thesis by simp
  qed
qed

lemma moved_tables: "moved [] [] d (d\<lparr>outbox := obs\<rparr>)"
  by (auto simp: moved_def)

lemma moved_create: "CreateWallet fault gen now u d = (res, d') \<Longrightarrow> moved [] [] d d'"
  by (erule CreateWallet_cases) (auto simp: moved_def)

section \<open>What a session knows stays true\<close>

lemma seen_moved:
  assumes "seen d w" and mv: "moved ids ts d d'"
  shows "seen d' w"
proof -
  from assms(1) obtain r where r: "r \<in> set (wallets d)" "wr_id r = w_ID w" "w_Version w \<le> wr_version r"
    "wr_version r = w_Version w \<longrightarrow> walletColumns r = w" by (auto simp: seen_def)
  from mv r(1) show ?thesis
  proof (cases rule: moved_row)
    case same
    with r show ?thesis by (auto simp: seen_def)
  next
    case (bumped r')
    with r show ?thesis unfolding seen_def by (intro bexI [of _ r']) auto
  qed
qed

lemma held_moved: "held d upd \<Longrightarrow> moved ids ts d d' \<Longrightarrow> w_ID (fst (snd upd)) \<notin> set ids \<Longrightarrow> held d' upd"
proof -
  assume "held d upd" and mv: "moved ids ts d d'" and free: "w_ID (fst (snd upd)) \<notin> set ids"
  then obtain st w delta r where u: "upd = (st, w, delta)" and r: "r \<in> set (wallets d)"
    "walletColumns r = w" "bump_fits delta r" "0 \<le> wr_balance_cents r + delta"
    by (cases upd) (auto simp: held_def)
  from mv r(1) have "r \<in> set (wallets d')" by (cases rule: moved_row) (use free u r(2) in auto)
  with u r show "held d' upd" by (auto simp: held_def)
qed

lemma moved_ids: "moved ids ts d d' \<Longrightarrow> set (map wr_id (wallets d)) \<subseteq> set (map wr_id (wallets d'))"
  unfolding moved_def by (auto simp: image_iff) metis

lemma row_new_moved:
  assumes "row_new d t" and "moved ids ts d d'" and "list_all (\<lambda>t'. \<not> tx_collides t t') ts"
  shows "row_new d' t"
proof -
  have "tx_refs d' t" using assms(1) tx_refs_cong [OF moved_ids [OF assms(2)]] by (simp add: row_new_def)
  with assms show ?thesis
    by (auto simp: row_new_def moved_def tx_collides_def list_all_iff select_tx_by_key_None)
qed

lemma replay_ok_moved: "replay_ok d req r \<Longrightarrow> moved ids ts d d' \<Longrightarrow> replay_ok d' req r"
  by (auto simp: replay_ok_def moved_def select_tx_by_key_def find_append)

lemma locked_rows_append [simp]: "locked_rows (ws @ vs) = locked_rows ws @ locked_rows vs"
  by (induction ws rule: locked_rows.induct) auto

lemma pending_txs_append [simp]: "pending_txs (ws @ vs) = pending_txs ws @ pending_txs vs"
  by (induction ws rule: pending_txs.induct) auto

lemma bumps_simps [simp]:
  "bumps [] = []" "bumps ((st, w, delta) # us) = WBump (w_ID w) delta # bumps us"
  "bumps (us @ vs) = bumps us @ bumps vs"
  "locked_rows (bumps us) = map (\<lambda>u. w_ID (fst (snd u))) us" "pending_txs (bumps us) = []"
proof -
  show "locked_rows (bumps us) = map (\<lambda>u. w_ID (fst (snd u))) us" "pending_txs (bumps us) = []"
    by (induction us) (auto simp: bumps_def)
qed (simp_all add: bumps_def)

lemma all_held_moved:
  "list_all (held d) us \<Longrightarrow> moved ids ts d d' \<Longrightarrow> set ids \<inter> (\<lambda>u. w_ID (fst (snd u))) ` set us = {} \<Longrightarrow>
     list_all (held d') us"
  unfolding list_all_iff using held_moved by blast

lemma all_seen_moved:
  "list_all (\<lambda>(st, w, delta). seen d w) us \<Longrightarrow> moved ids ts d d' \<Longrightarrow> list_all (\<lambda>(st, w, delta). seen d' w) us"
  by (auto simp: list_all_iff intro: seen_moved)

lemma session_ok_moved:
  assumes ok: "session_ok d req h p ws" and mv: "moved ids ts d d'"
    and rows: "set ids \<inter> set (locked_rows ws) = {}"
    and txs: "list_all (\<lambda>t. list_all (\<lambda>t'. \<not> tx_collides t t') ts) (pending_txs ws)"
  shows "session_ok d' req h p ws"
proof (cases p)
  case (AtRecipient w)
  with ok mv show ?thesis by (auto intro: seen_moved)
next
  case (Updating pl us)
  with ok rows mv show ?thesis by (auto intro: all_held_moved all_seen_moved)
next
  case (AtInsert pl)
  with ok rows mv show ?thesis by (auto intro: all_held_moved)
next
  case (AtOutbox pl t)
  with ok rows txs mv show ?thesis by (auto intro: all_held_moved row_new_moved)
next
  case (AtCommit r)
  show ?thesis
  proof (cases "ws = [] \<and> replay_ok d req r")
    case True
    with AtCommit mv show ?thesis by (auto intro: replay_ok_moved)
  next
    case False
    with ok AtCommit obtain pl where pl: "planned req pl"
      "ws = bumps (plan_updates req pl) @ [WTx (req_row req h pl), WOut (req_outbox req h pl (txColumns (req_row req h pl)))]"
      "list_all (held d) (plan_updates req pl)" "row_new d (req_row req h pl)"
      "r = \<lparr>res_Tx = txColumns (req_row req h pl), res_Replayed = False\<rparr>" by auto
    moreover have "list_all (held d') (plan_updates req pl)"
      by (rule all_held_moved [OF pl(3) mv]) (use rows pl(2) in auto)
    moreover have "row_new d' (req_row req h pl)"
      by (rule row_new_moved [OF pl(4) mv]) (use txs pl(2) in simp)
    ultimately show ?thesis using AtCommit by auto
  qed
qed (use ok in auto)

section \<open>A statement of the session itself\<close>

lemma view_ids [simp]: "map wr_id (wallets (apply_writes now ws d)) = map wr_id (wallets d)"
proof (induction ws arbitrary: d)
  case (Cons w ws)
  then show ?case by (cases w) simp_all
qed simp

lemma view_bumps [simp]:
  "transactions (apply_writes now (bumps us) d) = transactions d"
  "outbox (apply_writes now (bumps us) d) = outbox d"
  by (induction us arbitrary: d) auto

lemma view_unlocked:
  "r \<in> set (wallets (apply_writes now (bumps us) d)) \<Longrightarrow>
     wr_id r \<notin> (\<lambda>u. w_ID (fst (snd u))) ` set us \<Longrightarrow> r \<in> set (wallets d)"
proof (induction us arbitrary: d)
  case (Cons u us)
  obtain st w delta where u: "u = (st, w, delta)" by (cases u) auto
  with Cons have "r \<in> set (wallets (bump_wallet now (w_ID w) delta d))" by auto
  with Cons.prems(2) u show ?case by (auto simp: bump_wallet_rows split: if_splits)
qed simp

text \<open>The updates of a plan touch different wallets.\<close>

lemma plan_updates_distinct:
  "planned req pl \<Longrightarrow> distinct (map (\<lambda>u. w_ID (fst (snd u))) (plan_updates req pl))"
  by (cases req) (auto simp: planned_def plan_updates_def update_order_def)

lemma update_held:
  assumes ids: "distinct (map wr_id (wallets d))"
    and plan: "distinct (map (\<lambda>u. w_ID (fst (snd u))) (done @ (st, w, delta) # us))"
    and seen: "seen d w"
    and run: "applyDelta h st w delta (apply_writes (h_now h) (bumps done) d) = Inr d1"
  shows "held d (st, w, delta)"
proof -
  from ids have "distinct (map wr_id (wallets (apply_writes (h_now h) (bumps done) d)))" by simp
  from applyDelta_bump [OF run this] obtain r where
    r: "r \<in> set (wallets (apply_writes (h_now h) (bumps done) d))" "wr_id r = w_ID w"
    "wr_version r = w_Version w" "bump_fits delta r" "0 \<le> wr_balance_cents r + delta" by blast
  have rd: "r \<in> set (wallets d)" by (rule view_unlocked [OF r(1)]) (use plan r(2) in auto)
  from seen obtain r' where r': "r' \<in> set (wallets d)" "wr_id r' = w_ID w"
    "wr_version r' = w_Version w \<longrightarrow> walletColumns r' = w" by (auto simp: seen_def)
  have "r' = r" using key_inj [OF ids r'(1) rd] r' r by simp
  with r r' rd show ?thesis by (auto simp: held_def)
qed

lemma seen_selected: "r \<in> set (wallets d) \<Longrightarrow> seen d (walletColumns r)"
  by (auto simp: seen_def)

lemma start_step_ok:
  assumes "body_step req h Start d = Inr (p', ws')"
  shows "session_ok d req h p' ws'"
  using assms
  by (auto simp: findByKey_def scanTx_def QueryRow_def replay_ok_def split: sum.splits option.splits if_splits)

lemma sender_step_ok:
  assumes "body_step req h AtSender d = Inr (p', ws')"
  shows "session_ok d req h p' ws'"
proof (cases req)
  case (DepositReq u amount k)
  with assms show ?thesis
    by (auto simp: stmt_inr planned_def plan_updates_def split: sum.splits
        dest!: select_wallet_by_user_SomeD intro: seen_selected)
next
  case (TransferReq u to amount k)
  with assms show ?thesis
    by (auto simp: stmt_inr split: sum.splits dest!: select_wallet_by_user_SomeD intro: seen_selected)
qed

lemma recipient_step_ok:
  assumes ok: "session_ok d req h (AtRecipient w) []" and "body_step req h (AtRecipient w) d = Inr (p', ws')"
  shows "session_ok d req h p' ws'"
proof (cases req)
  case (DepositReq u amount k)
  with assms show ?thesis by simp
next
  case (TransferReq u to amount k)
  with assms obtain r where "select_wallet_by_id to d = Some r" "w_ID w \<noteq> wr_id r"
    "w_Currency w = wr_currency r" "amount \<le> w_BalanceCents w" "ws' = []"
    "p' = Updating \<lparr>pl_from = Some w, pl_to = walletColumns r\<rparr>
       (plan_updates req \<lparr>pl_from = Some w, pl_to = walletColumns r\<rparr>)"
    by (auto simp: stmt_inr plan_updates_def Let_def split: sum.splits if_splits prod.splits)
  with ok TransferReq show ?thesis
    by (auto simp: planned_def plan_updates_def update_order_def dest!: select_wallet_by_id_SomeD
        intro: seen_selected)
qed

lemma update_step_ok:
  assumes ids: "distinct (map wr_id (wallets d))" and ok: "session_ok d req h (Updating pl us) ws"
    and run: "body_step req h (Updating pl us) (apply_writes (h_now h) ws d) = Inr (p', ws')"
  shows "session_ok d req h p' (ws @ ws')"
proof -
  from ok obtain dn st w delta vs where us: "us = (st, w, delta) # vs" and pl: "planned req pl"
    and split: "plan_updates req pl = dn @ (st, w, delta) # vs" and ws: "ws = bumps dn"
    and held: "list_all (held d) dn" and seen: "seen d w" "list_all (\<lambda>(st, w, delta). seen d w) vs"
    by (cases us) auto
  from run us obtain d1 where upd: "applyDelta h st w delta (apply_writes (h_now h) (bumps dn) d) = Inr d1"
    and p': "p' = (if vs = [] then AtInsert pl else Updating pl vs)" and ws': "ws' = [WBump (w_ID w) delta]"
    by (auto simp: ws split: sum.splits)
  have new: "held d (st, w, delta)"
    using plan_updates_distinct [OF pl] unfolding split by (rule update_held [OF ids _ seen(1) upd])
  show ?thesis
  proof (cases "vs = []")
    case True
    with pl split ws held new p' ws' show ?thesis by simp
  next
    case False
    have "\<exists>done. plan_updates req pl = done @ vs \<and> ws @ ws' = bumps done \<and> list_all (held d) done \<and>
        list_all (\<lambda>(st, w, delta). seen d w) vs"
      using split ws held new ws' seen by (intro exI [of _ "dn @ [(st, w, delta)]"]) simp
    with False pl p' show ?thesis by simp
  qed
qed

lemma insert_step_ok:
  assumes ok: "session_ok d req h (AtInsert pl) ws"
    and run: "body_step req h (AtInsert pl) (apply_writes (h_now h) ws d) = Inr (p', ws')"
  shows "session_ok d req h p' (ws @ ws')"
proof -
  from ok have ws: "ws = bumps (plan_updates req pl)" by simp
  let ?row = "req_row req h pl" and ?v = "apply_writes (h_now h) ws d"
  from run have "p' = AtOutbox pl (txColumns ?row)" "ws' = [WTx ?row]"
    and ins: "insert_tx ?row ?v = Inr (?row, ?v\<lparr>transactions := transactions ?v @ [?row]\<rparr>)"
    by (auto simp: Let_def stmt_inr req_row_rebuild split: sum.splits)
  moreover from ins have "row_new d ?row"
    by (auto simp: ws insert_tx_Inr row_new_def tx_refs_ids select_tx_by_key_def simp del: set_map)
  ultimately show ?thesis using ok by simp
qed

lemma body_step_ok:
  assumes ids: "distinct (map wr_id (wallets d))" and ok: "session_ok d req h p ws"
    and run: "body_step req h p (apply_writes (h_now h) ws d) = Inr (p', ws')"
  shows "session_ok d req h p' (ws @ ws')"
proof (cases p)
  case Start
  with ok run start_step_ok show ?thesis by simp
next
  case AtSender
  with ok run sender_step_ok show ?thesis by simp
next
  case (AtRecipient w)
  with ok have "ws = []" by simp
  with ok run AtRecipient recipient_step_ok show ?thesis by simp
next
  case (Updating pl us)
  show ?thesis using update_step_ok [OF ids] ok run unfolding Updating by blast
next
  case (AtInsert pl)
  show ?thesis using insert_step_ok ok run unfolding AtInsert by blast
next
  case (AtOutbox pl t)
  with ok run show ?thesis by (auto simp: Let_def stmt_inr split: sum.splits)
qed (use ok run in auto)

section \<open>The invariant of the machine\<close>

fun active :: "pc \<Rightarrow> bool" where
  "active (Done r) = False"
| "active (Failed e) = False"
| "active _ = True"

definition session_inv :: "db \<Rightarrow> session \<Rightarrow> bool" where
  "session_inv d s \<longleftrightarrow> session_ok d (s_req s) (s_handle s) (s_pc s) (s_writes s) \<and>
     (active (s_pc s) \<longrightarrow> h_nextval (s_handle s) \<notin> ob_id ` set (outbox d))"

definition apart :: "session \<Rightarrow> session \<Rightarrow> bool" where
  "apart s t \<longleftrightarrow> set (locked_rows (s_writes s)) \<inter> set (locked_rows (s_writes t)) = {} \<and>
     list_all (\<lambda>a. list_all (\<lambda>b. \<not> tx_collides a b) (pending_txs (s_writes t))) (pending_txs (s_writes s)) \<and>
     h_nextval (s_handle s) \<noteq> h_nextval (s_handle t)"

definition all_apart :: "session list \<Rightarrow> bool" where
  "all_apart ss \<longleftrightarrow> (\<forall>i<length ss. \<forall>j<length ss. i \<noteq> j \<longrightarrow> apart (ss ! i) (ss ! j))"

definition ginv :: "gstate \<Rightarrow> bool" where
  "ginv g \<longleftrightarrow> wallet_inv (g_db g) \<and> (\<forall>s\<in>set (g_sessions g). session_inv (g_db g) s) \<and>
     all_apart (g_sessions g)"

lemma tx_collides_sym: "tx_collides a b \<longleftrightarrow> tx_collides b a"
  by (auto simp: tx_collides_def)

lemma apart_sym: "apart s t \<longleftrightarrow> apart t s"
  unfolding apart_def list_all_iff using tx_collides_sym by (auto; blast)

lemma all_apart_update:
  assumes "all_apart ss" and "\<And>j. j < length ss \<Longrightarrow> j \<noteq> i \<Longrightarrow> apart s (ss ! j)"
  shows "all_apart (ss[i := s])"
proof -
  have "apart (ss ! j) s" if "j < length ss" "j \<noteq> i" for j using assms(2) [OF that] apart_sym by blast
  with assms show ?thesis
    by (cases "i < length ss") (auto simp: all_apart_def nth_list_update)
qed

lemma all_apart_append:
  assumes "all_apart ss" and "\<And>j. j < length ss \<Longrightarrow> apart s (ss ! j)"
  shows "all_apart (ss @ [s])"
proof -
  have "apart (ss ! j) s" if "j < length ss" for j using assms(2) [OF that] apart_sym by blast
  with assms show ?thesis by (auto simp: all_apart_def nth_append less_Suc_eq)
qed

lemma apart_fewer:
  assumes "apart s t" and "s_handle s' = s_handle s" and "s_writes s' = []"
  shows "apart s' t"
  using assms by (simp add: apart_def)

lemma apart_fresh:
  "nextval_free g (h_nextval h) \<Longrightarrow> j < length (g_sessions g) \<Longrightarrow> apart (fresh_session req h) (g_sessions g ! j)"
  by (auto simp: apart_def fresh_session_def nextval_free_def)

lemma session_inv_fresh: "nextval_free g (h_nextval h) \<Longrightarrow> session_inv (g_db g) (fresh_session req h)"
  by (simp add: session_inv_def fresh_session_def nextval_free_def)

text \<open>What a statement writes is locked against the sessions it does not wait for.\<close>

lemma body_step_apart:
  assumes "body_step (s_req s) (s_handle s) (s_pc s) d = Inr (p', ws')" and "\<not> waits_for s t" and "apart s t"
  shows "apart (s\<lparr>s_pc := p', s_writes := s_writes s @ ws'\<rparr>) t"
proof -
  have "set (locked_rows ws') \<inter> set (locked_rows (s_writes t)) = {} \<and>
      list_all (\<lambda>a. list_all (\<lambda>b. \<not> tx_collides a b) (pending_txs (s_writes t))) (pending_txs ws')"
  proof (cases "s_pc s")
    case (Updating pl us)
    with assms show ?thesis
      by (cases us) (auto simp: waits_for_def split: sum.splits)
  next
    case (AtInsert pl)
    with assms show ?thesis
      by (auto simp: waits_for_def Let_def list_all_iff list_ex_iff split: sum.splits)
  qed (use assms in \<open>cases "s_req s"; auto simp: Let_def split: sum.splits if_splits prod.splits\<close>)+
  with assms(3) show ?thesis by (auto simp: apart_def list_all_iff)
qed

section \<open>Steps keep the invariant\<close>

text \<open>The other sessions see a commit as an evolution of the tables that spares their locks.\<close>

lemma session_inv_moved:
  assumes "session_inv d s" and "moved ids ts d d'"
    and "set ids \<inter> set (locked_rows (s_writes s)) = {}"
    and "list_all (\<lambda>t. list_all (\<lambda>t'. \<not> tx_collides t t') ts) (pending_txs (s_writes s))"
    and "h_nextval (s_handle s) \<in> ob_id ` set (outbox d') \<Longrightarrow> h_nextval (s_handle s) \<in> ob_id ` set (outbox d)"
  shows "session_inv d' s"
  using assms by (auto simp: session_inv_def intro: session_ok_moved)

lemma ginv_tables:
  assumes inv: "ginv g" and "wallet_inv d'" and "moved [] [] (g_db g) d'"
    and "ob_id ` set (outbox d') \<subseteq> ob_id ` set (outbox (g_db g))"
  shows "ginv (g\<lparr>g_db := d'\<rparr>)"
proof -
  have "session_inv d' s" if "s \<in> set (g_sessions g)" for s
    by (rule session_inv_moved [OF _ assms(3)]) (use that inv assms(4) in \<open>auto simp: ginv_def list_all_iff\<close>)
  with assms show ?thesis by (simp add: ginv_def)
qed

lemma ginv_session:
  assumes "ginv g" and "session_inv (g_db g) s"
    and "\<And>j. j < length (g_sessions g) \<Longrightarrow> j \<noteq> i \<Longrightarrow> apart s (g_sessions g ! j)"
  shows "ginv (g\<lparr>g_sessions := (g_sessions g)[i := s]\<rparr>)"
  using assms by (auto simp: ginv_def intro: all_apart_update dest!: set_update_subset_insert [THEN subsetD])

lemma commit_outbox:
  assumes "session_ok d req h (AtCommit r) ws"
  shows "ob_id ` set (outbox (apply_writes now ws d)) \<subseteq> insert (h_nextval h) (ob_id ` set (outbox d))"
  using assms by (cases req) (auto simp: req_outbox_def split: option.splits)

lemma commit_steps:
  assumes inv: "ginv g" and i: "i < length (g_sessions g)" and s: "s = g_sessions g ! i"
    and pc: "s_pc s = AtCommit r"
  shows "body_of (s_req s) (no_faults (s_handle s)) (g_db g) = Inr (r, view s (g_db g))"
    and "store_step (g_db g) (view s (g_db g))"
proof -
  from inv i s have si: "session_inv (g_db g) s" and ok: "schema_ok (g_db g)"
    by (auto simp: ginv_def wallet_inv_def)
  show body: "body_of (s_req s) (no_faults (s_handle s)) (g_db g) = Inr (r, view s (g_db g))"
    unfolding view_def by (rule commit_serial [OF ok]) (use si pc in \<open>auto simp: session_inv_def\<close>)
  then show "store_step (g_db g) (view s (g_db g))"
    by (cases "s_req s") (auto intro: store_step.deposit store_step.transfer)
qed

lemma ginv_commit:
  assumes inv: "ginv g" and i: "i < length (g_sessions g)" and s: "s = g_sessions g ! i"
    and pc: "s_pc s = AtCommit r" and fin: "\<not> active p"
  shows "ginv (g\<lparr>g_db := view s (g_db g), g_sessions := (g_sessions g)[i := s\<lparr>s_pc := p, s_writes := []\<rparr>]\<rparr>)"
proof -
  let ?d = "g_db g" and ?d' = "view s (g_db g)" and ?s' = "s\<lparr>s_pc := p, s_writes := []\<rparr>"
  from inv i s have si: "session_inv ?d s" and app: "all_apart (g_sessions g)" and wi: "wallet_inv ?d"
    by (auto simp: ginv_def)
  have mv: "moved (locked_rows (s_writes s)) (pending_txs (s_writes s)) ?d ?d'"
    unfolding view_def by (rule moved_writes)
  have ob: "ob_id ` set (outbox ?d') \<subseteq> insert (h_nextval (s_handle s)) (ob_id ` set (outbox ?d))"
    unfolding view_def
    by (rule commit_outbox [of _ "s_req s" _ r]) (use si pc in \<open>simp add: session_inv_def\<close>)
  have others: "session_inv ?d' (g_sessions g ! j)" if "j < length (g_sessions g)" "j \<noteq> i" for j
  proof -
    have ap: "apart (g_sessions g ! j) s" using app that i s by (auto simp: all_apart_def)
    show ?thesis
      by (rule session_inv_moved [OF _ mv]) (use inv that ap ob in \<open>auto simp: ginv_def apart_def list_all_iff\<close>)
  qed
  have self: "session_inv ?d' ?s'" using fin by (cases p) (simp_all add: session_inv_def)
  have "\<forall>u\<in>set ((g_sessions g)[i := ?s']). session_inv ?d' u"
    using others self i by (auto simp: in_set_conv_nth nth_list_update split: if_splits)
  moreover have "all_apart ((g_sessions g)[i := ?s'])"
    by (rule all_apart_update [OF app], rule apart_fewer [of s]) (use app i s in \<open>auto simp: all_apart_def\<close>)
  moreover have "wallet_inv ?d'" using commit_steps(2) [OF inv i s pc] wi by (rule store_step_inv)
  ultimately show ?thesis by (simp add: ginv_def)
qed

lemma gstep_inv:
  assumes "gstep g g'" and inv: "ginv g"
  shows "ginv g' \<and> (g_db g' = g_db g \<or> store_step (g_db g) (g_db g'))"
  using assms(1)
proof cases
  case (arrive h req)
  have "ginv (g\<lparr>g_sessions := g_sessions g @ [fresh_session req h]\<rparr>)"
    using inv session_inv_fresh [OF arrive(2)] apart_fresh [OF arrive(2)]
    by (auto simp: ginv_def intro: all_apart_append)
  with arrive(1) show ?thesis by simp
next
  case (statement i s p ws)
  have si: "session_inv (g_db g) s" and ap: "\<And>j. j < length (g_sessions g) \<Longrightarrow> j \<noteq> i \<Longrightarrow> apart s (g_sessions g ! j)"
    using inv statement(2,3) by (auto simp: ginv_def all_apart_def)
  have ids: "distinct (map wr_id (wallets (g_db g)))" using inv by (simp add: ginv_def wallet_inv_def schema_ok_def)
  have "session_ok (g_db g) (s_req s) (s_handle s) p (s_writes s @ ws)"
    using si statement(6) body_step_ok [OF ids] by (auto simp: session_inv_def view_def)
  moreover have "active (s_pc s)" using statement(4) by (cases "s_pc s") auto
  ultimately have "session_inv (g_db g) (s\<lparr>s_pc := p, s_writes := s_writes s @ ws\<rparr>)"
    using si by (simp add: session_inv_def)
  moreover have "apart (s\<lparr>s_pc := p, s_writes := s_writes s @ ws\<rparr>) (g_sessions g ! j)"
    if "j < length (g_sessions g)" "j \<noteq> i" for j
    by (rule body_step_apart [OF statement(6) _ ap [OF that]])
      (use statement(3,5) that in \<open>auto simp: blocked_def list_ex_iff\<close>)
  ultimately show ?thesis using ginv_session [OF inv] statement(1) by simp
next
  case (error i s e)
  have ap: "\<And>j. j < length (g_sessions g) \<Longrightarrow> j \<noteq> i \<Longrightarrow> apart s (g_sessions g ! j)"
    using inv error(2,3) by (auto simp: ginv_def all_apart_def)
  have "ginv (g\<lparr>g_sessions := (g_sessions g)[i := s\<lparr>s_pc := Failed e, s_writes := []\<rparr>]\<rparr>)"
    by (rule ginv_session [OF inv]) (auto simp: session_inv_def intro: apart_fewer [OF ap])
  with error(1) show ?thesis by simp
next
  case (crash i s r e)
  have ap: "\<And>j. j < length (g_sessions g) \<Longrightarrow> j \<noteq> i \<Longrightarrow> apart s (g_sessions g ! j)"
    using inv crash(2,3) by (auto simp: ginv_def all_apart_def)
  have "ginv (g\<lparr>g_sessions := (g_sessions g)[i := s\<lparr>s_pc := Failed e, s_writes := []\<rparr>]\<rparr>)"
    by (rule ginv_session [OF inv]) (auto simp: session_inv_def intro: apart_fewer [OF ap])
  with crash(1) show ?thesis by simp
next
  case (commit i s r p e)
  have "\<not> active p" using commit(5) by auto
  with ginv_commit [OF inv commit(2,3,4)] commit_steps(2) [OF inv commit(2,3,4)] commit(1)
  show ?thesis by simp
next
  case (retry i s e h)
  have "ginv (g\<lparr>g_sessions := (g_sessions g)[i := fresh_session (s_req s) h]\<rparr>)"
    by (rule ginv_session [OF inv session_inv_fresh [OF retry(6)]]) (rule apart_fresh [OF retry(6)])
  with retry(1) show ?thesis by simp
next
  case (create fault gen now u r d')
  have step: "store_step (g_db g) d'" using create(2) by (rule store_step.create)
  have "ob_id ` set (outbox d') \<subseteq> ob_id ` set (outbox (g_db g))"
    using create(2) by (cases rule: CreateWallet_cases) auto
  with ginv_tables [OF inv store_step_inv [OF step] moved_create [OF create(2)]] inv create(1) step
  show ?thesis by (simp add: ginv_def)
next
  case (publish now ids)
  have step: "store_step (g_db g) (mark_published now ids (g_db g))" by (rule store_step.publish)
  have "moved [] [] (g_db g) (mark_published now ids (g_db g))"
    unfolding mark_published_def by (rule moved_tables)
  moreover have "ob_id ` set (outbox (mark_published now ids (g_db g))) \<subseteq> ob_id ` set (outbox (g_db g))"
    by (auto simp: mark_published_def)
  ultimately show ?thesis
    using ginv_tables [OF inv store_step_inv [OF step]] inv publish step by (simp add: ginv_def)
next
  case (cleanup cutoff n d')
  have step: "store_step (g_db g) d'" using cleanup(2) by (rule store_step.cleanup)
  have "moved [] [] (g_db g) d'"
    using cleanup(2) by (auto simp: delete_published_def Let_def intro: moved_tables)
  moreover have "ob_id ` set (outbox d') \<subseteq> ob_id ` set (outbox (g_db g))"
    using cleanup(2) by (auto simp: delete_published_def Let_def)
  ultimately show ?thesis
    using ginv_tables [OF inv store_step_inv [OF step]] inv cleanup(1) step by (simp add: ginv_def)
qed

lemma ginv_init: "ginv init_gstate"
  by (simp add: ginv_def init_gstate_def wallet_inv_empty all_apart_def)

lemma reachable_induct [consumes 1, case_names init step]:
  assumes "reachable g" and "P init_gstate" and "\<And>g g'. reachable g \<Longrightarrow> P g \<Longrightarrow> gstep g g' \<Longrightarrow> P g'"
  shows "P g"
  using assms(1) unfolding reachable_def
proof (induction rule: rtranclp_induct)
  case base
  show ?case by (rule assms(2))
next
  case (step a b)
  from assms(3) [of a b] step show ?case by (simp add: reachable_def)
qed

lemma reachable_step: "reachable g \<Longrightarrow> gstep g g' \<Longrightarrow> reachable g'"
  by (simp add: reachable_def)

lemma reachable_ginv: "reachable g \<Longrightarrow> ginv g"
proof (induction rule: reachable_induct)
  case init
  show ?case by (rule ginv_init)
next
  case (step g g')
  from gstep_inv [OF step.hyps(2) step.IH] show ?case ..
qed

lemma reachable_store: "reachable g \<Longrightarrow> store_steps empty_db (g_db g)"
proof (induction rule: reachable_induct)
  case init
  then show ?case by (simp add: init_gstate_def store_steps_def)
next
  case (step g g')
  from gstep_inv [OF step.hyps(2) reachable_ginv [OF step.hyps(1)]] step.IH
  show ?case by (auto simp: store_steps_def)
qed

section \<open>A finished request is recorded\<close>

definition done_ok :: "db \<Rightarrow> session \<Rightarrow> bool" where
  "done_ok d s \<longleftrightarrow> (\<forall>r. s_pc s = Done r \<longrightarrow>
     (\<exists>t. select_tx_by_key (req_user (s_req s)) (req_key (s_req s)) d = Some t \<and>
        key_matches (s_req s) (txColumns t) \<and> res_Tx r = txColumns t))"

lemma body_recorded:
  assumes "wallet_inv d" and "body_of req h d = Inr (r, d')"
  shows "\<exists>t. select_tx_by_key (req_user req) (req_key req) d' = Some t \<and> key_matches req (txColumns t) \<and>
    res_Tx r = txColumns t"
proof (cases req)
  case (DepositReq u amount k)
  with dep.body_records [of d u amount k h r d'] assms show ?thesis
    by (auto simp: key_matches_def is_deposit_of_def)
next
  case (TransferReq u to amount k)
  with trf.body_records [of d u to amount k h r d'] assms show ?thesis
    by (auto simp: key_matches_def is_transfer_of_def)
qed

lemma done_ok_later: "done_ok d s \<Longrightarrow> store_steps d d' \<Longrightarrow> wallet_inv d \<Longrightarrow> done_ok d' s"
  using store_steps_key by (auto simp: done_ok_def)

lemma done_ok_sessions:
  assumes "\<forall>s\<in>set ss. done_ok d s" and "done_ok d s'"
  shows "\<forall>s\<in>set (ss[i := s']). done_ok d s"
  using assms set_update_subset_insert [of ss i s'] by auto

lemma body_step_not_done: "body_step req h p d = Inr (p', ws) \<Longrightarrow> p' \<noteq> Done r"
  by (cases "(req, h, p, d)" rule: body_step.cases)
    (auto simp: Let_def split: sum.splits if_splits prod.splits)

lemma reachable_done: "reachable g \<Longrightarrow> s \<in> set (g_sessions g) \<Longrightarrow> done_ok (g_db g) s"
proof (induction arbitrary: s rule: reachable_induct)
  case init
  then show ?case by (simp add: init_gstate_def)
next
  case (step g g')
  note inv = reachable_ginv [OF step.hyps(1)]
  then have wi: "wallet_inv (g_db g)" by (simp add: ginv_def)
  have later: "done_ok (g_db g') s" if "s \<in> set (g_sessions g)" for s
    using step.IH [OF that] gstep_inv [OF step.hyps(2) inv] wi
    by (auto intro: done_ok_later store_steps_single)
  from step.hyps(2) have "\<forall>s\<in>set (g_sessions g'). done_ok (g_db g') s"
  proof cases
    case (commit i s r p e)
    have d': "g_db g' = view s (g_db g)" using commit(1) by simp
    have new: "done_ok (g_db g') (s\<lparr>s_pc := p, s_writes := []\<rparr>)"
      using body_recorded [OF wi commit_steps(1) [OF inv commit(2,3,4)]] commit(5)
      by (auto simp: done_ok_def d')
    have ss: "g_sessions g' = (g_sessions g)[i := s\<lparr>s_pc := p, s_writes := []\<rparr>]" using commit(1) by simp
    have "\<forall>s\<in>set (g_sessions g). done_ok (g_db g') s" using later by blast
    from done_ok_sessions [OF this new] show ?thesis unfolding ss .
  qed (use later in \<open>auto simp: done_ok_def fresh_session_def body_step_not_done
         dest!: set_update_subset_insert [THEN subsetD]\<close>)
  with step.prems show ?case by blast
qed

section \<open>No deadlock\<close>

definition waiting :: "session list \<Rightarrow> (nat \<times> nat) set" where
  "waiting ss = {(i, j). i < length ss \<and> j < length ss \<and> i \<noteq> j \<and> waits_for (ss ! i) (ss ! j)}"

text \<open>
  The order behind it: a session that waits for a row wants a larger id than any it holds; a
  session that waits for a key has made all its updates; a session that inserted its
  transaction waits for nothing.
\<close>

fun level :: "pc \<Rightarrow> nat" where
  "level (Updating pl us) = 2"
| "level (AtInsert pl) = 1"
| "level _ = 0"

fun wanted :: "pc \<Rightarrow> uuid" where
  "wanted (Updating pl ((st, w, delta) # us)) = w_ID w"
| "wanted _ = []"

definition ahead :: "session \<Rightarrow> session \<Rightarrow> bool" where
  "ahead s t \<longleftrightarrow> level (s_pc t) < level (s_pc s) \<or>
     level (s_pc s) = 2 \<and> level (s_pc t) = 2 \<and> wanted (s_pc s) < wanted (s_pc t)"

lemma ahead_trans: "ahead s t \<Longrightarrow> ahead t u \<Longrightarrow> ahead s u"
  by (auto simp: ahead_def)

lemma ahead_irrefl: "\<not> ahead s s"
  by (simp add: ahead_def)

lemma plan_updates_sorted:
  assumes "planned req pl" and "plan_updates req pl = dn @ (st, w, delta) # us" and "u \<in> set dn"
  shows "w_ID (fst (snd u)) < w_ID w"
proof (cases req)
  case (DepositReq v amount k)
  with assms show ?thesis by (auto simp: plan_updates_def planned_def Cons_eq_append_conv)
next
  case (TransferReq v to amount k)
  with assms show ?thesis
    by (auto simp: plan_updates_def planned_def update_order_def Cons_eq_append_conv split: if_splits)
qed

lemma holds_row:
  assumes "session_ok d req h p ws" and "wid \<in> set (locked_rows ws)"
  shows "active p \<and> (level p = 2 \<longrightarrow> wid < wanted p)"
proof (cases p)
  case (Updating pl us)
  with assms(1) obtain dn st w delta vs where "us = (st, w, delta) # vs" "planned req pl"
    "plan_updates req pl = dn @ (st, w, delta) # vs" "ws = bumps dn" by (cases us) auto
  with Updating assms(2) show ?thesis by (auto dest: plan_updates_sorted)
qed (use assms in auto)

lemma holds_key:
  assumes "session_ok d req h p ws" and "t \<in> set (pending_txs ws)"
  shows "active p \<and> level p = 0"
  using assms by (cases p) auto

lemma waits_ahead:
  assumes "waits_for s t" and "session_inv d t"
  shows "ahead s t \<and> active (s_pc t)"
proof -
  from assms(2) have ok: "session_ok d (s_req t) (s_handle t) (s_pc t) (s_writes t)"
    by (simp add: session_inv_def)
  have "level (s_pc t) \<le> 2" by (cases "s_pc t") auto
  then show ?thesis
  proof (cases "s_pc s")
    case (Updating pl us)
    with assms(1) holds_row [OF ok] show ?thesis
      using \<open>level (s_pc t) \<le> 2\<close> by (cases us) (auto simp: waits_for_def ahead_def)
  next
    case (AtInsert pl)
    with assms(1) holds_key [OF ok] show ?thesis by (auto simp: waits_for_def ahead_def list_ex_iff)
  qed (use assms(1) in \<open>auto simp: waits_for_def\<close>)
qed

lemma waiting_step:
  assumes "ginv g" and "(i, j) \<in> waiting (g_sessions g)"
  shows "ahead (g_sessions g ! i) (g_sessions g ! j)" and "active (s_pc (g_sessions g ! j))"
    and "j < length (g_sessions g)"
  using assms waits_ahead [of "g_sessions g ! i" "g_sessions g ! j" "g_db g"]
  by (auto simp: waiting_def ginv_def)

lemma waiting_ahead:
  assumes inv: "ginv g" and path: "(i, j) \<in> (waiting (g_sessions g))\<^sup>+"
  shows "ahead (g_sessions g ! i) (g_sessions g ! j)"
  using path
proof (induction rule: trancl_induct)
  case (base j)
  with inv show ?case by (rule waiting_step)
next
  case (step j k)
  from inv step(2) have "ahead (g_sessions g ! j) (g_sessions g ! k)" by (rule waiting_step)
  with step show ?case using ahead_trans by blast
qed

lemma waiting_acyclic: "ginv g \<Longrightarrow> acyclic (waiting (g_sessions g))"
  unfolding acyclic_def using waiting_ahead ahead_irrefl by blast

lemma waiting_finite: "finite (waiting ss)"
  by (rule finite_subset [of _ "{..<length ss} \<times> {..<length ss}"]) (auto simp: waiting_def)

lemma blocked_waiting: "i < length ss \<Longrightarrow> blocked ss i \<longleftrightarrow> (\<exists>j. (i, j) \<in> waiting ss)"
  by (auto simp: blocked_def waiting_def list_ex_iff)

text \<open>Some unfinished session can run its next statement or commit.\<close>

lemma some_unblocked:
  assumes inv: "ginv g" and i: "i < length (g_sessions g)" "active (s_pc (g_sessions g ! i))"
  shows "\<exists>j<length (g_sessions g). active (s_pc (g_sessions g ! j)) \<and> \<not> blocked (g_sessions g) j"
proof -
  have wf: "wf ((waiting (g_sessions g))\<inverse>)"
    using waiting_finite waiting_acyclic [OF inv] by (simp add: finite_acyclic_wf_converse)
  from wf i show ?thesis
  proof (induction i rule: wf_induct_rule)
    case (less i)
    show ?case
    proof (cases "blocked (g_sessions g) i")
      case True
      then obtain j where j: "(i, j) \<in> waiting (g_sessions g)" using less(2) by (auto simp: blocked_waiting)
      then have "active (s_pc (g_sessions g ! j))" "j < length (g_sessions g)"
        using waiting_step [OF inv j] by blast+
      with less(1) j show ?thesis by blast
    next
      case False
      with less show ?thesis by blast
    qed
  qed
qed

definition advances :: "gstate \<Rightarrow> nat \<Rightarrow> gstate \<Rightarrow> bool" where
  "advances g j g' \<longleftrightarrow> gstep g g' \<and> length (g_sessions g') = length (g_sessions g) \<and>
     s_pc (g_sessions g' ! j) \<noteq> s_pc (g_sessions g ! j)"

lemma body_step_moves: "body_step req h p d = Inr (p', ws) \<Longrightarrow> p' \<noteq> p"
  by (cases "(req, h, p, d)" rule: body_step.cases)
    (auto simp: Let_def split: sum.splits if_splits prod.splits)

lemma unblocked_advances:
  assumes j: "j < length (g_sessions g)" and act: "active (s_pc (g_sessions g ! j))"
    and free: "\<not> blocked (g_sessions g) j"
  shows "\<exists>g'. advances g j g'"
proof -
  let ?s = "g_sessions g ! j"
  let ?run = "body_step (s_req ?s) (s_handle ?s) (s_pc ?s) (view ?s (g_db g))"
  show ?thesis
  proof (cases "running (s_pc ?s)")
    case True
    show ?thesis
    proof (cases ?run)
      case (Inl e)
      have "s_pc ?s \<noteq> Failed e" using True by auto
      with gstep.error [OF j refl True free Inl] j show ?thesis by (force simp: advances_def)
    next
      case (Inr q)
      then obtain p ws where "?run = Inr (p, ws)" by (cases q) simp
      with gstep.statement [OF j refl True free this] j body_step_moves show ?thesis
        by (force simp: advances_def)
    qed
  next
    case False
    with act obtain r where "s_pc ?s = AtCommit r" by (cases "s_pc ?s") auto
    with gstep.commit [OF j refl this, of "Done r"] j show ?thesis by (force simp: advances_def)
  qed
qed

end
