(* ===== verification/Schedules.thy ===== *)
theory Schedules
  imports Serial
begin

text \<open>
  An executable scheduler for the interleaved machine: a schedule is a list of actions, an
  action that is not enabled does nothing, and every schedule ends in a reachable state.
  The concrete runs used as examples of the theorems are schedules.
\<close>

datatype action =
    ACreate uuid timestamp uuid
  | AArrive request tx_handle
  | AStep nat
  | ACommit nat
  | APublish timestamp "int list"

fun act :: "action \<Rightarrow> gstate \<Rightarrow> gstate" where
  "act (ACreate gen now u) g = g\<lparr>g_db := snd (CreateWallet None gen now u (g_db g))\<rparr>"
| "act (AArrive req h) g =
     (if list_ex (\<lambda>r. ob_id r = h_nextval h) (outbox (g_db g)) \<or>
         list_ex (\<lambda>s. h_nextval (s_handle s) = h_nextval h) (g_sessions g) then g
      else g\<lparr>g_sessions := g_sessions g @ [fresh_session req h]\<rparr>)"
| "act (AStep i) g =
     (if \<not> i < length (g_sessions g) \<or> blocked (g_sessions g) i then g
      else let s = g_sessions g ! i in
        if \<not> running (s_pc s) then g
        else (case body_step (s_req s) (s_handle s) (s_pc s) (view s (g_db g)) of
            Inl e \<Rightarrow> g\<lparr>g_sessions := (g_sessions g)[i := s\<lparr>s_pc := Failed e, s_writes := []\<rparr>]\<rparr>
          | Inr (p, ws) \<Rightarrow>
              g\<lparr>g_sessions := (g_sessions g)[i := s\<lparr>s_pc := p, s_writes := s_writes s @ ws\<rparr>]\<rparr>))"
| "act (ACommit i) g =
     (if \<not> i < length (g_sessions g) then g
      else let s = g_sessions g ! i in
        (case s_pc s of
           AtCommit r \<Rightarrow> g\<lparr>g_db := view s (g_db g),
                g_sessions := (g_sessions g)[i := s\<lparr>s_pc := Done r, s_writes := []\<rparr>]\<rparr>
         | _ \<Rightarrow> g))"
| "act (APublish now ids) g = g\<lparr>g_db := mark_published now ids (g_db g)\<rparr>"

definition schedule :: "action list \<Rightarrow> gstate" where
  "schedule acts = fold act acts init_gstate"

lemma act_step: "act a g = g \<or> gstep g (act a g)"
proof (cases a)
  case (ACreate gen now u)
  have "gstep g (g\<lparr>g_db := snd (CreateWallet None gen now u (g_db g))\<rparr>)"
    by (rule gstep.create [of None gen now u g "fst (CreateWallet None gen now u (g_db g))"]) simp
  with ACreate show ?thesis by simp
next
  case (AArrive req h)
  have "nextval_free g (h_nextval h) \<longleftrightarrow> \<not> (list_ex (\<lambda>r. ob_id r = h_nextval h) (outbox (g_db g)) \<or>
      list_ex (\<lambda>s. h_nextval (s_handle s) = h_nextval h) (g_sessions g))"
    by (simp add: nextval_free_def list_ex_key o_def)
  with AArrive show ?thesis by (auto intro: gstep.arrive)
next
  case (AStep i)
  let ?s = "g_sessions g ! i"
  show ?thesis
  proof (cases "i < length (g_sessions g) \<and> \<not> blocked (g_sessions g) i \<and> running (s_pc ?s)")
    case True
    then show ?thesis
      using gstep.error [of i g ?s] gstep.statement [of i g ?s]
      by (auto simp: AStep Let_def split: sum.split)
  qed (auto simp: AStep Let_def)
next
  case (ACommit i)
  show ?thesis
    using gstep.commit [of i g "g_sessions g ! i"] by (auto simp: ACommit Let_def split: pc.split)
next
  case (APublish now ids)
  then show ?thesis by (simp add: gstep.publish)
qed

lemma fold_act_reachable: "reachable g \<Longrightarrow> reachable (fold act acts g)"
proof (induction acts arbitrary: g)
  case (Cons a acts)
  from act_step [of a g] Cons.prems have "reachable (act a g)" by (auto intro: reachable_step)
  with Cons.IH show ?case by simp
qed simp

lemma schedule_reachable: "reachable (schedule acts)"
  unfolding schedule_def by (rule fold_act_reachable) (simp add: reachable_def)

section \<open>Concrete runs\<close>

definition quiet_handle :: "timestamp \<Rightarrow> uuid \<Rightarrow> int \<Rightarrow> tx_handle" where
  "quiet_handle now uid n = \<lparr>h_now = now, h_uuid = uid, h_nextval = n, h_fault = (\<lambda>_. None)\<rparr>"

lemma quiet_handle_simps [simp]:
  "h_now (quiet_handle now uid n) = now" "h_uuid (quiet_handle now uid n) = uid"
  "h_nextval (quiet_handle now uid n) = n" "h_fault (quiet_handle now uid n) = (\<lambda>_. None)"
  by (simp_all add: quiet_handle_def)

text \<open>Two wallets, and a deposit of 500 cents into the first one.\<close>

definition demo_start :: "action list" where
  "demo_start = [ACreate ''wa'' 10 ''ann'', ACreate ''wb'' 11 ''bob'',
     AArrive (DepositReq ''ann'' 500 ''k1'') (quiet_handle 20 ''t1'' 1),
     AStep 0, AStep 0, AStep 0, AStep 0, AStep 0]"

text \<open>After the deposit, two transfers of \<open>ann\<close> and one retry of the first race each other.\<close>

definition demo_race :: "action list" where
  "demo_race = demo_start @ [ACommit 0,
     AArrive (TransferReq ''ann'' ''wb'' 200 ''k2'') (quiet_handle 30 ''t2'' 2),
     AArrive (TransferReq ''ann'' ''wb'' 200 ''k2'') (quiet_handle 31 ''t3'' 3),
     AStep 1, AStep 2, AStep 1, AStep 1, AStep 2, AStep 1, AStep 2, AStep 2]"

definition demo_finished :: "action list" where
  "demo_finished = demo_race @ [AStep 1, AStep 1, AStep 1, ACommit 1, AStep 2,
     AArrive (TransferReq ''ann'' ''wb'' 200 ''k2'') (quiet_handle 40 ''t4'' 4),
     AStep 3, ACommit 3]"

definition demo_result :: Result where
  "demo_result = \<lparr>res_Tx = \<lparr>t_ID = ''t1'', t_Kind = ''DEPOSIT'', t_FromWalletID = [],
     t_ToWalletID = ''wa'', t_AmountCents = 500, t_Status = ''COMPLETED'', t_IdempotencyKey = ''k1'',
     t_CreatedAt = 20\<rparr>, res_Replayed = False\<rparr>"

lemma demo_start_state:
  "length (g_sessions (schedule demo_start)) = 1"
  "s_pc (g_sessions (schedule demo_start) ! 0) = AtCommit demo_result"
  "s_req (g_sessions (schedule demo_start) ! 0) = DepositReq ''ann'' 500 ''k1''"
  by code_simp+

lemma demo_race_blocked:
  "blocked (g_sessions (schedule demo_race)) 2 \<and> \<not> blocked (g_sessions (schedule demo_race)) 1 \<and>
   length (g_sessions (schedule demo_race)) = 3 \<and> active (s_pc (g_sessions (schedule demo_race) ! 2))"
  by code_simp

definition finished :: "pc \<Rightarrow> bool" where
  "finished p = (case p of Done r \<Rightarrow> True | _ \<Rightarrow> False)"

lemma finished_Done: "finished p \<Longrightarrow> \<exists>r. p = Done r"
  by (cases p) (simp_all add: finished_def)

lemma demo_finished_state:
  "length (g_sessions (schedule demo_finished)) = 4"
  "s_req (g_sessions (schedule demo_finished) ! 1) = TransferReq ''ann'' ''wb'' 200 ''k2''"
  "s_req (g_sessions (schedule demo_finished) ! 3) = TransferReq ''ann'' ''wb'' 200 ''k2''"
  "finished (s_pc (g_sessions (schedule demo_finished) ! 1))"
  "finished (s_pc (g_sessions (schedule demo_finished) ! 3))"
  by code_simp+

section \<open>Concrete tables\<close>

text \<open>The tables after both runs: 300 cents with \<open>ann\<close>, 200 with \<open>bob\<close>, two transactions.\<close>

definition demo_db :: db where
  "demo_db = g_db (schedule demo_finished)"

lemma demo_db_inv: "wallet_inv demo_db"
  using reachable_ginv [OF schedule_reachable] by (simp add: demo_db_def ginv_def)

lemma demo_db_schema: "schema_ok demo_db"
  using demo_db_inv by (simp add: wallet_inv_def)

lemma demo_db_fresh: "drawn_fresh (quiet_handle 50 ''t9'' 9) demo_db"
  unfolding drawn_fresh_def demo_db_def by code_simp

definition quiet_env :: retry_env where
  "quiet_env = \<lparr>re_begin = (\<lambda>_. run_tx), re_handle = (\<lambda>i. quiet_handle 50 ''t9'' 9), re_done = (\<lambda>_. None)\<rparr>"

lemma quiet_env_doc: "BeginFunc_doc store_steps (re_begin quiet_env i)"
  by (simp add: quiet_env_def run_tx_doc store_steps_def)


lemma quiet_env_simps [simp]:
  "re_begin quiet_env i = run_tx" "re_handle quiet_env i = quiet_handle 50 ''t9'' 9" "re_done quiet_env i = None"
  by (simp_all add: quiet_env_def)

definition demo_transfer_result :: Result where
  "demo_transfer_result = \<lparr>res_Tx = \<lparr>t_ID = ''t9'', t_Kind = ''TRANSFER'', t_FromWalletID = ''wa'',
     t_ToWalletID = ''wb'', t_AmountCents = 300, t_Status = ''COMPLETED'', t_IdempotencyKey = ''k9'',
     t_CreatedAt = 50\<rparr>, res_Replayed = False\<rparr>"

lemma demo_transfer_runs:
  "\<exists>d'. Transfer_fn ''ann'' ''wb'' 300 ''k9'' (quiet_handle 50 ''t9'' 9) demo_db = Inr (demo_transfer_result, d')"
proof -
  have "map_sum id fst (Transfer_fn ''ann'' ''wb'' 300 ''k9'' (quiet_handle 50 ''t9'' 9) demo_db) =
      Inr demo_transfer_result"
    unfolding demo_db_def by code_simp
  then show ?thesis
    by (cases "Transfer_fn ''ann'' ''wb'' 300 ''k9'' (quiet_handle 50 ''t9'' 9) demo_db") auto
qed

lemma demo_transfer_call:
  "\<exists>d'. Transfer 5 quiet_env ''ann'' ''wb'' 300 ''k9'' demo_db = (Ret demo_transfer_result, 0, d')"
  using demo_transfer_runs
  by (auto simp: Transfer_def withRetries_def retry_loop.simps [of 5] run_tx_def)

text \<open>Two lost races before the first quiet attempt, and nothing but lost races.\<close>

definition flaky_env :: retry_env where
  "flaky_env = quiet_env\<lparr>re_begin := (\<lambda>i. if i < 3 then (\<lambda>fn d. (Inl ErrVersionConflict, d)) else run_tx)\<rparr>"

definition losing_env :: retry_env where
  "losing_env = quiet_env\<lparr>re_begin := (\<lambda>i fn d. (Inl ErrVersionConflict, d))\<rparr>"


end
