(* ===== verification/StoreClaims.thy ===== *)
theory StoreClaims
  imports Schedules
begin

text \<open>
  The properties of the wallet store.  Every state the store can be in is a reachable state
  of the interleaved machine of theory \<open>Interleaving\<close>; the calls \<open>Deposit\<close> and \<open>Transfer\<close>
  are the retry loops of theory \<open>Retry\<close> around the bodies of theory \<open>Store\<close>.
\<close>

section \<open>The books\<close>

lemma reachable_wallet_inv: "reachable g \<Longrightarrow> wallet_inv (g_db g)"
  using reachable_ginv by (simp add: ginv_def)

text \<open>
  C1: In every reachable state of the store, with any number of concurrent requests, lost
  races, crashes and retries, every wallet's balance is within \<open>0 .. 2^63-1\<close>, is exactly what
  the transaction log says (credits minus debits of the wallet), and its version counts the
  wallet's movements.
\<close>

theorem reachable_books:
  assumes "reachable g" and "w \<in> set (wallets (g_db g))"
  shows "0 \<le> wr_balance_cents w \<and> wr_balance_cents w \<le> int64_max \<and>
    wr_balance_cents w = credits (wr_id w) (transactions (g_db g)) - debits (wr_id w) (transactions (g_db g)) \<and>
    wr_version w = movements (wr_id w) (transactions (g_db g))"
proof -
  have "wallet_inv (g_db g)" using assms(1) by (rule reachable_wallet_inv)
  with assms(2) show ?thesis
    by (auto simp: wallet_inv_def schema_ok_def books_ok_def list_all_iff wallet_checks_def row_in_books_def)
qed

theorem reachable_books_witness:
  "wr_balance_cents (wallets (g_db (schedule demo_finished)) ! 0) = 300 \<and>
   wr_version (wallets (g_db (schedule demo_finished)) ! 0) =
     movements ''wa'' (transactions (g_db (schedule demo_finished)))"
proof -
  let ?w = "wallets (g_db (schedule demo_finished)) ! 0"
  have "?w \<in> set (wallets (g_db (schedule demo_finished)))" by code_simp
  from reachable_books [OF schedule_reachable this]
  have "wr_version ?w = movements (wr_id ?w) (transactions (g_db (schedule demo_finished)))" by simp
  moreover have "wr_id ?w = ''wa'' \<and> wr_balance_cents ?w = 300" by code_simp
  ultimately show ?thesis by simp
qed

text \<open>
  C2: Money is conserved: in every reachable state the sum of all balances is the sum of all
  recorded deposits, so transfers, retries and crashes neither create nor destroy money.
\<close>

theorem money_conserved:
  assumes "reachable g"
  shows "total_balance (g_db g) = total_deposits (g_db g)"
proof -
  have "external_money (g_db g) = external_money empty_db"
    using store_steps_money [OF reachable_store [OF assms] wallet_inv_empty] .
  then show ?thesis by (simp add: external_money_def total_balance_def total_deposits_def empty_db_def)
qed

theorem money_conserved_witness: "total_deposits (g_db (schedule demo_finished)) = 500 \<and>
    total_balance (g_db (schedule demo_finished)) = 500"
proof -
  have "total_deposits (g_db (schedule demo_finished)) = 500" by code_simp
  with money_conserved [OF schedule_reachable, of demo_finished] show ?thesis by simp
qed

section \<open>Concurrency\<close>

text \<open>
  C6: Optimistic locking makes the requests serialisable: when a session commits in a
  reachable state, the result it returns and the tables it leaves are those of its whole body
  (the Go closure) run alone, without interruption, on the tables committed at that moment.
\<close>

theorem commit_is_serial:
  assumes "reachable g" and "i < length (g_sessions g)" and "s_pc (g_sessions g ! i) = AtCommit r"
  shows "body_of (s_req (g_sessions g ! i)) (no_faults (s_handle (g_sessions g ! i))) (g_db g) =
    Inr (r, view (g_sessions g ! i) (g_db g))"
  using commit_steps(1) [OF reachable_ginv [OF assms(1)] assms(2) refl assms(3)] .

theorem commit_is_serial_witness:
  "Deposit_fn ''ann'' 500 ''k1'' (no_faults (s_handle (g_sessions (schedule demo_start) ! 0)))
     (g_db (schedule demo_start)) =
       Inr (demo_result, view (g_sessions (schedule demo_start) ! 0) (g_db (schedule demo_start)))"
  using commit_is_serial [OF schedule_reachable, of 0 demo_start demo_result] demo_start_state by simp

text \<open>
  C7: Every committed state of the interleaved machine is reached by whole operations of the
  store run one after the other: the concurrent executions refine the sequential ones.
\<close>

theorem interleaving_refines_sequential:
  assumes "reachable g"
  shows "store_steps empty_db (g_db g)"
  using assms by (rule reachable_store)

theorem interleaving_refines_sequential_witness: "store_steps empty_db (g_db (schedule demo_finished))"
  by (rule interleaving_refines_sequential [OF schedule_reachable])

text \<open>
  C8: Exactly once under concurrency: two finished requests with the same user and the same
  idempotency key returned the same transaction, and the log holds exactly one transaction
  for that key, however the requests were interleaved and retried.
\<close>

theorem concurrent_exactly_once:
  assumes "reachable g" and "s \<in> set (g_sessions g)" and "t \<in> set (g_sessions g)"
    and "s_pc s = Done r" and "s_pc t = Done r'"
    and "req_user (s_req s) = req_user (s_req t)" and "req_key (s_req s) = req_key (s_req t)"
  shows "res_Tx r = res_Tx r' \<and>
    length (filter (\<lambda>x. tr_user_id x = req_user (s_req s) \<and> tr_idempotency_key x = req_key (s_req s))
      (transactions (g_db g))) = 1"
proof -
  from reachable_done [OF assms(1,2)] assms(4) obtain a where
    a: "select_tx_by_key (req_user (s_req s)) (req_key (s_req s)) (g_db g) = Some a" "res_Tx r = txColumns a"
    by (auto simp: done_ok_def)
  from reachable_done [OF assms(1,3)] assms(5-7) a(1) have "res_Tx r' = txColumns a"
    by (auto simp: done_ok_def)
  moreover have "distinct (map (\<lambda>t. (tr_user_id t, tr_idempotency_key t)) (transactions (g_db g)))"
    using reachable_wallet_inv [OF assms(1)] by (simp add: wallet_inv_def schema_ok_def)
  from filter_key [OF this, of a] select_tx_by_key_SomeD [OF a(1)] have
    "length (filter (\<lambda>x. tr_user_id x = req_user (s_req s) \<and> tr_idempotency_key x = req_key (s_req s))
      (transactions (g_db g))) = 1" by auto
  ultimately show ?thesis using a(2) by simp
qed

theorem concurrent_exactly_once_witness:
  "length (filter (\<lambda>x. tr_user_id x = ''ann'' \<and> tr_idempotency_key x = ''k2'')
      (transactions (g_db (schedule demo_finished)))) = 1"
proof -
  let ?ss = "g_sessions (schedule demo_finished)"
  have mem: "?ss ! 1 \<in> set ?ss" "?ss ! 3 \<in> set ?ss" using demo_finished_state(1) by simp_all
  from finished_Done [OF demo_finished_state(4)] obtain r where r: "s_pc (?ss ! 1) = Done r" ..
  from finished_Done [OF demo_finished_state(5)] obtain r' where r': "s_pc (?ss ! 3) = Done r'" ..
  from concurrent_exactly_once [OF schedule_reachable mem r r'] demo_finished_state(2,3)
  show ?thesis by simp
qed

text \<open>
  C9: No deadlock: in every reachable state with an unfinished request, some unfinished
  request is not waiting for a lock and can take its next step.  (The updates of a transfer
  are made in the order of the wallet ids.)
\<close>

theorem no_deadlock:
  assumes "reachable g" and "i < length (g_sessions g)" and "active (s_pc (g_sessions g ! i))"
  shows "\<exists>j<length (g_sessions g). active (s_pc (g_sessions g ! j)) \<and> \<not> blocked (g_sessions g) j \<and>
    (\<exists>g'. advances g j g')"
  using some_unblocked [OF reachable_ginv [OF assms(1)] assms(2,3)] unblocked_advances by blast

theorem no_deadlock_witness:
  "blocked (g_sessions (schedule demo_race)) 2 \<and>
   (\<exists>j<length (g_sessions (schedule demo_race)). active (s_pc (g_sessions (schedule demo_race) ! j)) \<and>
      \<not> blocked (g_sessions (schedule demo_race)) j \<and> (\<exists>g'. advances (schedule demo_race) j g'))"
  using no_deadlock [OF schedule_reachable, of 2 demo_race] demo_race_blocked by simp

section \<open>The bodies\<close>

text \<open>
  C19: The transfer body, with its version checks, its ordered updates and the constraints of
  the schema, computes the reference \<open>transfer_ref\<close>: replay or conflict for a known key, the
  errors in the order sender, recipient, same wallet, currency, funds, numeric range, and
  otherwise both balances moved, one transaction and one event added.  It holds for every
  schema-conforming state, positive 64-bit amount, and undisturbed transaction.
\<close>

theorem transfer_body_reference:
  assumes "schema_ok d" and "0 < amount" and "amount \<le> int64_max"
    and "h_fault h = (\<lambda>_. None)" and "drawn_fresh h d"
  shows "Transfer_fn u to amount k h d = transfer_ref u to amount k h d"
  using assms by (rule Transfer_fn_ref)

theorem transfer_body_reference_witness:
  "Transfer_fn ''ann'' ''wb'' 300 ''k9'' (quiet_handle 50 ''t9'' 9) demo_db =
   transfer_ref ''ann'' ''wb'' 300 ''k9'' (quiet_handle 50 ''t9'' 9) demo_db"
  by (rule transfer_body_reference [OF demo_db_schema])
    (simp_all add: demo_db_fresh int64_max_def)

text \<open>
  The deposit body computes the reference \<open>deposit_ref\<close> under the same conditions.
\<close>

theorem deposit_body_reference:
  assumes "schema_ok d" and "0 < amount" and "h_fault h = (\<lambda>_. None)" and "drawn_fresh h d"
  shows "Deposit_fn u amount k h d = deposit_ref u amount k h d"
  using assms by (rule Deposit_fn_ref)

theorem deposit_body_reference_witness:
  "Deposit_fn ''bob'' 7 ''k9'' (quiet_handle 50 ''t9'' 9) demo_db =
   deposit_ref ''bob'' 7 ''k9'' (quiet_handle 50 ''t9'' 9) demo_db"
  by (rule deposit_body_reference [OF demo_db_schema])
    (simp_all add: demo_db_fresh)

text \<open>
  C20: Refinement to a map of balances: a transfer that returns either replays, and then
  leaves the tables untouched, or is \<open>bank_transfer\<close> on that map from the caller's wallet to
  the named one: both wallets exist and differ, the funds suffice, and no other balance changes.
\<close>

theorem transfer_refines_bank:
  assumes "wallet_inv d" and "Transfer_fn u to amount k h d = Inr (r, d')"
  shows "if res_Replayed r then d' = d
    else \<exists>w. select_wallet_by_user u d = Some w \<and>
      bank_transfer (wr_id w) to amount (balances d) = Some (balances d')"
proof -
  have ok: "schema_ok d" using assms(1) by (simp add: wallet_inv_def)
  from ok assms(2) show ?thesis
  proof (cases rule: Transfer_fn_Inr)
    case (moved f t)
    then show ?thesis using post_transfer_bank [OF ok moved(1)] by (simp add: transfer_moves_def)
  qed simp
qed

theorem transfer_refines_bank_witness:
  "\<exists>B. bank_transfer ''wa'' ''wb'' 300 (balances demo_db) = Some B"
proof -
  obtain d' where "Transfer_fn ''ann'' ''wb'' 300 ''k9'' (quiet_handle 50 ''t9'' 9) demo_db =
      Inr (demo_transfer_result, d')" using demo_transfer_runs ..
  from transfer_refines_bank [OF demo_db_inv this]
  obtain w where w: "select_wallet_by_user ''ann'' demo_db = Some w"
    "bank_transfer (wr_id w) ''wb'' 300 (balances demo_db) = Some (balances d')"
    by (auto simp: demo_transfer_result_def)
  have "map_option wr_id (select_wallet_by_user ''ann'' demo_db) = Some ''wa''"
    unfolding demo_db_def by code_simp
  with w show ?thesis by auto
qed

text \<open>
  A deposit that returns either replays, leaving the tables untouched, or adds the amount
  to the caller's wallet and to no other.
\<close>

theorem deposit_refines_bank:
  assumes "wallet_inv d" and "Deposit_fn u amount k h d = Inr (r, d')"
  shows "if res_Replayed r then d' = d
    else \<exists>w. select_wallet_by_user u d = Some w \<and>
      bank_deposit (wr_id w) amount (balances d) = Some (balances d')"
proof -
  have ok: "schema_ok d" using assms(1) by (simp add: wallet_inv_def)
  from ok assms(2) show ?thesis
  proof (cases rule: Deposit_fn_Inr)
    case (moved w)
    then show ?thesis using post_deposit_bank [OF ok moved(1)] by (simp add: deposit_moves_def)
  qed simp
qed

theorem deposit_refines_bank_witness:
  "\<exists>d'. Deposit_fn ''ann'' 500 ''k1'' (quiet_handle 50 ''t9'' 9) demo_db = Inr (demo_result\<lparr>res_Replayed := True\<rparr>, d') \<and>
     d' = demo_db"
proof -
  have "map_sum id fst (Deposit_fn ''ann'' 500 ''k1'' (quiet_handle 50 ''t9'' 9) demo_db) =
      Inr (demo_result\<lparr>res_Replayed := True\<rparr>)" unfolding demo_db_def by code_simp
  then obtain d' where run: "Deposit_fn ''ann'' 500 ''k1'' (quiet_handle 50 ''t9'' 9) demo_db =
      Inr (demo_result\<lparr>res_Replayed := True\<rparr>, d')"
    by (cases "Deposit_fn ''ann'' 500 ''k1'' (quiet_handle 50 ''t9'' 9) demo_db") auto
  from deposit_refines_bank [OF demo_db_inv run] run show ?thesis by simp
qed

text \<open>
  The statement-by-statement execution of a body, undisturbed, is the body: eight
  statements are enough for every request, and the result and the tables agree.
\<close>

theorem statements_are_the_body:
  assumes "distinct (map wr_id (wallets d))"
  shows "run_body 8 req h Start [] d = Some (body_of req h d)"
  using assms by (rule body_steps_sequential)

theorem statements_are_the_body_witness:
  "run_body 8 (TransferReq ''ann'' ''wb'' 300 ''k9'') (quiet_handle 50 ''t9'' 9) Start [] demo_db =
     Some (Transfer_fn ''ann'' ''wb'' 300 ''k9'' (quiet_handle 50 ''t9'' 9) demo_db)"
  using statements_are_the_body [OF schema_okD(1) [OF demo_db_schema],
      of "TransferReq ''ann'' ''wb'' 300 ''k9''"] by simp

section \<open>The retried calls\<close>

text \<open>
  A retried transfer is safe: once a call has returned, a later call with the same user
  and key, whatever happened in between and however its own attempts went, returns the
  recorded transaction and says so.  \<open>pgx.BeginFunc\<close> enters through its documented behaviour.
\<close>

theorem transfer_replay_safe:
  assumes "\<And>i. BeginFunc_doc store_steps (re_begin env i)" and "\<And>i. BeginFunc_doc store_steps (re_begin env' i)"
    and "wallet_inv d" and "Transfer m env u to amount k d = (Ret r, n, d1)" and "store_steps d1 d2"
    and "Transfer m' env' u to amount k d2 = (Ret r', n', d3)"
  shows "r' = \<lparr>res_Tx = res_Tx r, res_Replayed = True\<rparr>"
  by (rule trf.calls_agree [OF assms(1-3) assms(4) [unfolded Transfer_def] assms(5) assms(6) [unfolded Transfer_def]])

theorem transfer_replay_safe_witness:
  "\<exists>r d1 r' n' d3. Transfer 5 quiet_env ''ann'' ''wb'' 300 ''k9'' demo_db = (Ret r, 0, d1) \<and>
     Transfer 5 quiet_env ''ann'' ''wb'' 300 ''k9'' d1 = (Ret r', n', d3) \<and>
     r' = \<lparr>res_Tx = res_Tx r, res_Replayed = True\<rparr>"
proof -
  obtain d1 where first: "Transfer 5 quiet_env ''ann'' ''wb'' 300 ''k9'' demo_db = (Ret demo_transfer_result, 0, d1)"
    using demo_transfer_call ..
  from trf.call_records [OF quiet_env_doc demo_db_inv first [unfolded Transfer_def]] obtain t where
    t: "select_tx_by_key ''ann'' ''k9'' d1 = Some t" "is_transfer_of ''wb'' 300 t" by blast
  then have "Transfer 5 quiet_env ''ann'' ''wb'' 300 ''k9'' d1 =
      (Ret \<lparr>res_Tx = txColumns t, res_Replayed = True\<rparr>, 0, d1)"
    by (simp add: Transfer_def withRetries_def retry_loop.simps [of 5] run_tx_def Transfer_fn_def
        findByKey_def scan_no_fault is_transfer_of_def)
  with first transfer_replay_safe [OF quiet_env_doc quiet_env_doc demo_db_inv first _ this]
  show ?thesis by (force simp: store_steps_def)
qed

text \<open>
  The same for deposits: a repeated deposit returns the recorded transaction.
\<close>

theorem deposit_replay_safe:
  assumes "\<And>i. BeginFunc_doc store_steps (re_begin env i)" and "\<And>i. BeginFunc_doc store_steps (re_begin env' i)"
    and "wallet_inv d" and "Deposit m env u amount k d = (Ret r, n, d1)" and "store_steps d1 d2"
    and "Deposit m' env' u amount k d2 = (Ret r', n', d3)"
  shows "r' = \<lparr>res_Tx = res_Tx r, res_Replayed = True\<rparr>"
  by (rule dep.calls_agree [OF assms(1-3) assms(4) [unfolded Deposit_def] assms(5) assms(6) [unfolded Deposit_def]])

theorem deposit_replay_safe_witness:
  "\<exists>r. Deposit 5 quiet_env ''ann'' 500 ''k1'' demo_db = (Ret r, 0, demo_db) \<and>
     r = \<lparr>res_Tx = res_Tx r, res_Replayed = True\<rparr>"
proof -
  have "map_sum id fst (Deposit_fn ''ann'' 500 ''k1'' (quiet_handle 50 ''t9'' 9) demo_db) =
      Inr (demo_result\<lparr>res_Replayed := True\<rparr>)" unfolding demo_db_def by code_simp
  then obtain d' where run: "Deposit_fn ''ann'' 500 ''k1'' (quiet_handle 50 ''t9'' 9) demo_db =
      Inr (demo_result\<lparr>res_Replayed := True\<rparr>, d')"
    by (cases "Deposit_fn ''ann'' 500 ''k1'' (quiet_handle 50 ''t9'' 9) demo_db") auto
  moreover have "d' = demo_db" using demo_db_schema run
    by (cases rule: Deposit_fn_Inr) (simp_all add: demo_result_def)
  ultimately have call: "Deposit 5 quiet_env ''ann'' 500 ''k1'' demo_db =
      (Ret (demo_result\<lparr>res_Replayed := True\<rparr>), 0, demo_db)"
    by (simp add: Deposit_def withRetries_def retry_loop.simps [of 5] run_tx_def)
  from deposit_replay_safe [OF quiet_env_doc quiet_env_doc demo_db_inv call _ call] call
  show ?thesis by (auto simp: store_steps_def)
qed

text \<open>
  Whatever \<open>pgx.BeginFunc\<close> and the other requests do, a call keeps the books: it ends in
  a state with all invariants, and every change made meanwhile is a step of the store.
\<close>

theorem transfer_call_keeps_books:
  assumes "\<And>i. BeginFunc_doc store_steps (re_begin env i)" and "wallet_inv d"
    and "Transfer m env u to amount k d = (out, n, d')"
  shows "wallet_inv d' \<and> store_steps d d'"
  using trf.call_inv [OF assms(1,2) assms(3) [unfolded Transfer_def]]
    trf.call_step [OF assms(1,2) assms(3) [unfolded Transfer_def]] by simp

theorem transfer_call_keeps_books_witness:
  "\<exists>d'. Transfer 5 quiet_env ''ann'' ''wb'' 300 ''k9'' demo_db = (Ret demo_transfer_result, 0, d') \<and> wallet_inv d'"
  using demo_transfer_call transfer_call_keeps_books [OF quiet_env_doc demo_db_inv] by blast

text \<open>
  A key that was used for another request is refused: the call returns
  \<open>ErrIdempotencyConflict\<close> at once, without retrying and without touching the tables.
\<close>

theorem transfer_key_conflict:
  assumes "select_tx_by_key u k d = Some t" and "\<not> is_transfer_of to amount t" and "1 \<le> m"
    and "re_begin env 1 = run_tx" and "h_fault (re_handle env 1) FindByKey = None"
  shows "Transfer m env u to amount k d = (Err ErrIdempotencyConflict, 0, d)"
proof -
  have "Transfer_fn u to amount k (re_handle env 1) d = Inl ErrIdempotencyConflict"
    using assms by (auto simp: Transfer_fn_def findByKey_def scan_no_fault is_transfer_of_def)
  with assms(3,4) show ?thesis
    by (simp add: Transfer_def withRetries_def retry_loop.simps [of m] run_tx_def retryable_root)
qed

theorem transfer_key_conflict_witness:
  "Transfer 5 quiet_env ''ann'' ''wb'' 300 ''k1'' demo_db = (Err ErrIdempotencyConflict, 0, demo_db)"
proof -
  have "map_option (is_transfer_of ''wb'' 300) (select_tx_by_key ''ann'' ''k1'' demo_db) = Some False"
    unfolding demo_db_def by code_simp
  then obtain t where "select_tx_by_key ''ann'' ''k1'' demo_db = Some t" "\<not> is_transfer_of ''wb'' 300 t"
    by auto
  from transfer_key_conflict [OF this, of 5 quiet_env] show ?thesis by simp
qed

text \<open>
  C29: How a call can end: with at most 39 attempts configured it never panics, a retryable
  error (a lost race, a colliding key) never reaches the caller, and the retry counter grows
  by at most one per attempt.  (The context ends only with its two documented errors.)
\<close>

theorem retries_outcome:
  assumes "\<And>i e. re_done env i = Some e \<Longrightarrow> e \<in> context_errors"
    and "withRetries m env fn d = (out, n, d')" and "m \<le> 39"
  shows "(\<forall>s. out \<noteq> Panic s) \<and> (\<forall>e. out = Err e \<longrightarrow> \<not> retryable e) \<and> n \<le> nat m"
  using retry_loop_outcome [OF assms(1) _ assms(2) [unfolded withRetries_def]] assms(3) by simp

theorem retries_outcome_witness:
  "withRetries 0 quiet_env (Transfer_fn ''ann'' ''wb'' 300 ''k9'') demo_db = (Err ErrTooMuchContention, 0, demo_db) \<and>
   \<not> retryable ErrTooMuchContention"
proof -
  have run: "withRetries 0 quiet_env (Transfer_fn ''ann'' ''wb'' 300 ''k9'') demo_db =
      (Err ErrTooMuchContention, 0, demo_db)"
    by (simp add: withRetries_def retry_loop.simps)
  with retries_outcome [OF _ run] show ?thesis by simp
qed

text \<open>
  A call succeeds as soon as one attempt commits: if the attempts before number \<open>j\<close> lose
  their races, the context lives and attempt \<open>j\<close> commits within the configured number, the
  call returns that attempt's result after counting exactly \<open>j - 1\<close> retries.
\<close>

theorem retries_first_success:
  assumes "\<And>i. 1 \<le> i \<Longrightarrow> i < j \<Longrightarrow>
        re_begin env i (fn (re_handle env i)) (ds i) = (Inl (es i), ds (i + 1)) \<and>
        retryable (es i) \<and> re_done env i = None"
    and "re_begin env j (fn (re_handle env j)) (ds j) = (Inr r, d')"
    and "1 \<le> j" and "j \<le> m" and "j \<le> 40"
  shows "withRetries m env fn (ds 1) = (Ret r, nat (j - 1), d')"
proof -
  have "retry_loop m env fn 1 0 (ds 1) = (Ret r, 0 + nat (j - 1), d')"
  proof (rule retry_loop_first_success [where es = es])
    show "re_begin env i (fn (re_handle env i)) (ds i) = (Inl (es i), ds (i + 1)) \<and>
        retryable (es i) \<and> 0 < backoff_limit i \<and> re_done env i = None" if "1 \<le> i" "i < j" for i
      using assms(1) [OF that] that assms(5) by (simp add: backoff_limit_pos)
  qed (use assms in simp_all)
  then show ?thesis by (simp add: withRetries_def)
qed

theorem retries_first_success_witness:
  "\<exists>d'. withRetries 5 flaky_env (Transfer_fn ''ann'' ''wb'' 300 ''k9'') demo_db = (Ret demo_transfer_result, 2, d')"
proof -
  obtain d' where "Transfer_fn ''ann'' ''wb'' 300 ''k9'' (quiet_handle 50 ''t9'' 9) demo_db =
      Inr (demo_transfer_result, d')" using demo_transfer_runs ..
  then have "re_begin flaky_env 3 (Transfer_fn ''ann'' ''wb'' 300 ''k9'' (re_handle flaky_env 3)) demo_db =
      (Inr demo_transfer_result, d')" by (simp add: flaky_env_def run_tx_def)
  from retries_first_success [where j = 3 and env = flaky_env and ds = "\<lambda>_. demo_db" and m = 5 and
      fn = "Transfer_fn ''ann'' ''wb'' 300 ''k9''" and es = "\<lambda>_. ErrVersionConflict", OF _ this]
  show ?thesis by (auto simp: flaky_env_def retryable_root)
qed

text \<open>
  The back-off before attempt \<open>a + 1\<close> is drawn below \<open>10ms * 2^a\<close>, capped at 500ms, for
  the attempts 1 to 39: 20ms after the first attempt and never zero.
\<close>

theorem backoff_bounds:
  assumes "1 \<le> a" and "a \<le> 39"
  shows "backoff_limit a = min 500000000 (10000000 * 2 ^ nat a) \<and> 20000000 \<le> backoff_limit a"
proof -
  have eq: "backoff_limit a = min 500000000 (10000000 * 2 ^ nat a)"
    using assms by (simp add: backoff_limit_value)
  have "(2::int) ^ 1 \<le> 2 ^ nat a" using assms by (intro power_increasing) auto
  with eq show ?thesis by simp
qed

theorem backoff_bounds_witness: "backoff_limit 1 = 20000000 \<and> backoff_limit 6 = 500000000"
  using backoff_bounds [of 1] backoff_bounds [of 6] by simp

text \<open>
  C30: With 40 or more attempts configured, a request that loses forty races in a row panics:
  the shift \<open>10ms<<40\<close> overflows to a negative duration, which \<open>rand.N\<close> refuses.
\<close>

theorem backoff_overflow_panics:
  assumes "40 \<le> m" and "\<And>i fn d. re_begin env i fn d = (Inl ErrVersionConflict, d)"
    and "\<And>i. re_done env i = None"
  shows "withRetries m env fn d = (Panic ''invalid argument to N'', 40, d)"
proof -
  have loop: "retry_loop m env fn (40 - int j) (40 - 1 - j) d = (Panic ''invalid argument to N'', 40, d)"
    if "j < 40" for j
    using that
  proof (induction j)
    case 0
    have "backoff_limit 40 < 0" by (simp add: backoff_limit_def wrap64_def)
    with assms(1,2) show ?case by (simp add: retry_loop.simps [of m] retryable_root)
  next
    case (Suc j)
    have "0 < backoff_limit (40 - int (Suc j))" using Suc.prems by (intro backoff_limit_pos) auto
    with assms have "retry_loop m env fn (40 - int (Suc j)) (40 - 1 - Suc j) d =
        retry_loop m env fn (40 - int (Suc j) + 1) (40 - 1 - Suc j + 1) d"
      by (intro retry_loop_lost [where e = ErrVersionConflict]) (simp_all add: retryable_root)
    moreover have "40 - int (Suc j) + 1 = 40 - int j" "40 - 1 - Suc j + 1 = 40 - 1 - j" using Suc.prems by simp_all
    ultimately show ?case using Suc by simp
  qed
  from loop [of 39] show ?thesis by (simp add: withRetries_def)
qed

theorem backoff_overflow_panics_witness:
  "withRetries 64 losing_env (Transfer_fn ''ann'' ''wb'' 300 ''k9'') demo_db =
     (Panic ''invalid argument to N'', 40, demo_db)"
  by (rule backoff_overflow_panics) (simp_all add: losing_env_def)

section \<open>Wallets and reads\<close>

text \<open>
  Creating a wallet is idempotent: a second call for the same user, with whatever the
  server would draw, returns the same wallet and changes nothing.
\<close>

theorem create_wallet_idempotent:
  assumes "wallet_inv d" and "CreateWallet fault gen now u d = (Inr w, d')"
  shows "w_UserID w = u \<and> CreateWallet None gen' now' u d' = (Inr w, d')"
proof -
  from assms(2) obtain r where r: "insert_wallet gen now u d = Inr (r, d')" and w: "w = walletColumns r"
    by (auto simp: CreateWallet_def scanWallet_def split: option.splits sum.splits)
  from insert_wallet_Inr [OF r] have mem: "r \<in> set (wallets d')" "wr_user_id r = u" by auto
  have "schema_ok d'" using CreateWallet_inv [OF assms] by (simp add: wallet_inv_def)
  then have "find (\<lambda>w. wr_user_id w = u) (wallets d') = Some r"
    using find_key [OF schema_okD(2) mem(1)] mem(2) by simp
  moreover have "map (\<lambda>v. if wr_user_id v = u then v\<lparr>wr_user_id := u\<rparr> else v) (wallets d') = wallets d'"
    by (rule map_id_on) auto
  moreover have "r\<lparr>wr_user_id := u\<rparr> = r" using mem(2) by auto
  ultimately show ?thesis using w mem(2)
    by (simp add: CreateWallet_def insert_wallet_def scanWallet_def Let_def)
qed

theorem create_wallet_idempotent_witness:
  "\<exists>w d'. CreateWallet None ''wc'' 60 ''cyd'' demo_db = (Inr w, d') \<and>
     CreateWallet None ''wd'' 61 ''cyd'' d' = (Inr w, d')"
proof -
  have "(case fst (CreateWallet None ''wc'' 60 ''cyd'' demo_db) of Inl e \<Rightarrow> False | Inr w \<Rightarrow> True)"
    unfolding demo_db_def by code_simp
  then obtain w d' where "CreateWallet None ''wc'' 60 ''cyd'' demo_db = (Inr w, d')"
    by (cases "CreateWallet None ''wc'' 60 ''cyd'' demo_db") (auto split: sum.splits)
  with create_wallet_idempotent [OF demo_db_inv this, of "''wd''" 61] show ?thesis by blast
qed

text \<open>
  A transaction is shown to its parties only: \<open>GetTransaction\<close> returns the transaction
  with the given id exactly when a wallet of the user is on one of its sides, and
  \<open>ErrNotFound\<close> otherwise (also when it exists).
\<close>

theorem get_transaction_parties_only:
  assumes "wallet_inv d" and "t \<in> set (transactions d)"
  shows "GetTransaction None u (tr_id t) d =
    (if \<exists>w\<in>set (wallets d). wr_user_id w = u \<and>
          (tr_from_wallet_id t = Some (wr_id w) \<or> tr_to_wallet_id t = wr_id w)
     then Inr (txColumns t) else Inl ErrNotFound)"
proof -
  have ids: "distinct (map tr_id (transactions d))" using assms(1) by (simp add: wallet_inv_def schema_ok_def)
  have "find (\<lambda>x. tr_id x = tr_id t \<and> P x) (transactions d) = (if P t then Some t else None)" for P
  proof (cases "P t")
    case True
    have "find (\<lambda>x. tr_id x = tr_id t \<and> P x) (transactions d) = find (\<lambda>x. tr_id x = tr_id t) (transactions d)"
      using key_inj [OF ids _ assms(2)] True by (intro find_cong) auto
    with True find_key [OF ids assms(2)] show ?thesis by simp
  next
    case False
    with key_inj [OF ids _ assms(2)] show ?thesis by (auto simp: find_None_iff)
  qed
  then show ?thesis
    by (simp add: GetTransaction_def select_tx_of_user_def scan_no_fault list_ex_iff)
qed

theorem get_transaction_parties_only_witness:
  "GetTransaction None ''bob'' (tr_id (transactions demo_db ! 0)) demo_db = Inl ErrNotFound \<and>
   GetTransaction None ''bob'' (tr_id (transactions demo_db ! 1)) demo_db = Inr (txColumns (transactions demo_db ! 1))"
proof -
  have len: "length (transactions demo_db) = 2" unfolding demo_db_def by code_simp
  then have mem: "transactions demo_db ! 0 \<in> set (transactions demo_db)"
    "transactions demo_db ! 1 \<in> set (transactions demo_db)" by simp_all
  have "\<not> (\<exists>w\<in>set (wallets demo_db). wr_user_id w = ''bob'' \<and>
      (tr_from_wallet_id (transactions demo_db ! 0) = Some (wr_id w) \<or>
       tr_to_wallet_id (transactions demo_db ! 0) = wr_id w))"
    "\<exists>w\<in>set (wallets demo_db). wr_user_id w = ''bob'' \<and>
      (tr_from_wallet_id (transactions demo_db ! 1) = Some (wr_id w) \<or>
       tr_to_wallet_id (transactions demo_db ! 1) = wr_id w)"
    unfolding demo_db_def by code_simp+
  with get_transaction_parties_only [OF demo_db_inv mem(1), of "''bob''"]
    get_transaction_parties_only [OF demo_db_inv mem(2), of "''bob''"]
  show ?thesis by simp
qed

end
