(* ===== verification/Outbox.thy ===== *)
theory Outbox
  imports Schedules
begin

text \<open>
  The outbox relay of \<open>services/wallet/outbox.go\<close>: \<open>publishBatch\<close>, the polling loop with its
  back-off, and the housekeeping (clean-up of sent rows and backlog gauges).  Kafka is a
  parameter: what \<open>WriteMessages\<close> did with a batch is an argument, and its documented
  behaviour is \<open>WriteMessages_doc\<close>.  The state is the wallet tables, the messages Kafka
  accepted so far, and the relay's metrics.
\<close>

section \<open>State\<close>

record kmsg =
  km_topic :: string
  km_key :: string
  km_value :: json

record Relay =
  rl_poll :: duration
  rl_batchSize :: int
  rl_retention :: duration

record relay_state =
  rs_db :: db
  rs_log :: "kmsg list"
  outboxPublished :: "string \<Rightarrow> nat"
  outboxFailures :: nat
  outboxPending :: int
  outboxOldest :: duration

text \<open>
  What one batch meets: the failure of each statement or none, the ids of the rows other
  relays hold, what Kafka answers and accepts, and how the commit ends (an error may be
  reported for a transaction that did commit).
\<close>

record batch_env =
  be_begin :: "go_error option"
  be_query :: "go_error option"
  be_locked :: "int set"
  be_write :: "kmsg list \<Rightarrow> go_error option \<times> kmsg list"
  be_update :: "go_error option"
  be_commit :: "go_error option"
  be_committed :: bool
  be_now :: timestamp

text \<open>
  \<open>WriteMessages\<close> returns nil when every message was acknowledged; the messages of one topic
  and key go to one partition, in order.  When it fails, any part of the batch may have been
  accepted.
\<close>

definition same_stream :: "kmsg \<Rightarrow> kmsg \<Rightarrow> bool" where
  "same_stream a b \<longleftrightarrow> km_topic a = km_topic b \<and> km_key a = km_key b"

definition WriteMessages_doc :: "(kmsg list \<Rightarrow> go_error option \<times> kmsg list) \<Rightarrow> bool" where
  "WriteMessages_doc W \<longleftrightarrow>
     (\<forall>ms. set (snd (W ms)) \<subseteq> set ms \<and>
        (fst (W ms) = None \<longrightarrow> (\<forall>m. filter (same_stream m) (snd (W ms)) = filter (same_stream m) ms)))"

text \<open>A transaction that reports success was committed.\<close>

definition commit_doc :: "batch_env \<Rightarrow> bool" where
  "commit_doc env \<longleftrightarrow> (be_commit env = None \<longrightarrow> be_committed env)"

section \<open>Publishing a batch\<close>

definition row_msg :: "outbox_row \<Rightarrow> kmsg" where
  "row_msg r = \<lparr>km_topic = ob_topic r, km_key = ob_message_key r, km_value = ob_payload r\<rparr>"

text \<open>\<open>SELECT ... LIMIT $1 FOR UPDATE SKIP LOCKED\<close>; a negative limit is an error of the server.\<close>

definition query_batch :: "Relay \<Rightarrow> batch_env \<Rightarrow> db \<Rightarrow> go_error + outbox_row list" where
  "query_batch r env d =
     (case be_query env of
        Some e \<Rightarrow> Inl e
      | None \<Rightarrow>
          if rl_batchSize r < 0 then Inl (PgError ''2201W'' ''LIMIT must not be negative'')
          else Inr (select_unpublished (be_locked env) (nat (rl_batchSize r)) d))"

definition publishBatch :: "Relay \<Rightarrow> batch_env \<Rightarrow> relay_state \<Rightarrow> (go_error + int) \<times> relay_state" where
  "publishBatch r env s =
     (case be_begin env of
        Some e \<Rightarrow> (Inl e, s)
      | None \<Rightarrow>
     (case query_batch r env (rs_db s) of
        Inl e \<Rightarrow> (Inl e, s)
      | Inr batch \<Rightarrow>
          if batch = []
          then ((case be_commit env of Some e \<Rightarrow> Inl e | None \<Rightarrow> Inr 0), s)
          else
            (case be_write env (map row_msg batch) of
               (Some e, accepted) \<Rightarrow> (Inl e, s\<lparr>rs_log := rs_log s @ accepted\<rparr>)
             | (None, accepted) \<Rightarrow>
                 let s1 = s\<lparr>rs_log := rs_log s @ accepted\<rparr> in
                 (case be_update env of
                    Some e \<Rightarrow> (Inl e, s1)
                  | None \<Rightarrow>
                      let d' = mark_published (be_now env) (map ob_id batch) (rs_db s);
                          s2 = (if be_committed env then s1\<lparr>rs_db := d'\<rparr> else s1)
                      in (case be_commit env of
                            Some e \<Rightarrow> (Inl e, s2)
                          | None \<Rightarrow>
                              (Inr (int (length batch)),
                               s2\<lparr>outboxPublished :=
                                    fold (\<lambda>row c. c(ob_topic row := c (ob_topic row) + 1)) batch
                                      (outboxPublished s2)\<rparr>))))))"

section \<open>The polling loop\<close>

text \<open>
  One round: whether the context is done when the loop condition is checked and after a
  failed batch, and what the batch meets.  The loop is run on a list of rounds; it has
  returned, or it is still running with its current back-off.  The durations slept are kept.
\<close>

record round =
  rd_done :: bool
  rd_env :: batch_env
  rd_done_after :: bool

datatype loop_end = Returned | Running duration

definition ten_seconds :: duration where "ten_seconds = 10000000000"

fun loop :: "Relay \<Rightarrow> duration \<Rightarrow> round list \<Rightarrow> relay_state \<Rightarrow> loop_end \<times> duration list \<times> relay_state" where
  "loop r backoff [] s = (Running backoff, [], s)"
| "loop r backoff (rd # rds) s =
     (if rd_done rd then (Returned, [], s)
      else
        (case publishBatch r (rd_env rd) s of
           (Inl err, s1) \<Rightarrow>
             if rd_done_after rd then (Returned, [], s1)
             else
               let s2 = s1\<lparr>outboxFailures := outboxFailures s1 + 1\<rparr>;
                   (e, ds, s3) = loop r (min (wrap64 (backoff * 2)) ten_seconds) rds s2
               in (e, backoff # ds, s3)
         | (Inr n, s1) \<Rightarrow>
             let (e, ds, s2) = loop r (rl_poll r) rds s1
             in (e, if n < rl_batchSize r then rl_poll r # ds else ds, s2)))"

text \<open>\<open>Start\<close> runs the loop from \<open>backoff := r.poll\<close>.\<close>

definition run_loop :: "Relay \<Rightarrow> round list \<Rightarrow> relay_state \<Rightarrow> loop_end \<times> duration list \<times> relay_state" where
  "run_loop r rds s = loop r (rl_poll r) rds s"

section \<open>Housekeeping\<close>

text \<open>
  \<open>int(r.retention.Hours())\<close>: whole hours, towards zero (exact for durations in whole
  milliseconds, where the floating-point quotient has the right integer part).
\<close>

definition retention_hours :: "Relay \<Rightarrow> int" where
  "retention_hours r =
     (if rl_retention r < 0 then - (- rl_retention r div 3600000000000)
      else rl_retention r div 3600000000000)"

definition cleanup_tick :: "Relay \<Rightarrow> go_error option \<Rightarrow> timestamp \<Rightarrow> relay_state \<Rightarrow> relay_state" where
  "cleanup_tick r fault now s =
     (case fault of
        Some e \<Rightarrow> s
      | None \<Rightarrow> s\<lparr>rs_db := snd (delete_published (now - retention_hours r * 3600000000000) (rs_db s))\<rparr>)"

definition refreshGauges :: "go_error option \<Rightarrow> timestamp \<Rightarrow> relay_state \<Rightarrow> relay_state" where
  "refreshGauges fault now s =
     (case fault of
        Some e \<Rightarrow> s
      | None \<Rightarrow>
          (let created = map ob_created_at (unpublished (rs_db s)) in
           s\<lparr>outboxPending := int (length created),
             outboxOldest := (case created of [] \<Rightarrow> 0 | c # cs \<Rightarrow> now - fold min cs c)\<rparr>))"

datatype tick = GaugesTick "go_error option" timestamp | CleanupTick "go_error option" timestamp

text \<open>The gauges are refreshed once, then every tick is handled until the context is done.\<close>

fun housekeeping_tick :: "Relay \<Rightarrow> tick \<Rightarrow> relay_state \<Rightarrow> relay_state" where
  "housekeeping_tick r (GaugesTick fault now) s = refreshGauges fault now s"
| "housekeeping_tick r (CleanupTick fault now) s = cleanup_tick r fault now s"

definition housekeeping :: "Relay \<Rightarrow> go_error option \<Rightarrow> timestamp \<Rightarrow> tick list \<Rightarrow> relay_state \<Rightarrow> relay_state" where
  "housekeeping r fault now ticks s = fold (housekeeping_tick r) ticks (refreshGauges fault now s)"

section \<open>The event of a transaction\<close>

definition tx_event :: "db \<Rightarrow> tx_row \<Rightarrow> kmsg option" where
  "tx_event d t =
     (case (tr_from_wallet_id t, select_wallet_by_id (tr_to_wallet_id t) d) of
        (None, Some w) \<Rightarrow>
          Some \<lparr>km_topic = topicDeposits, km_key = wr_id w,
                km_value = deposit_event (tr_user_id t) (tr_amount_cents t) (walletColumns w) (txColumns t)\<rparr>
      | (Some f, Some w) \<Rightarrow>
          map_option (\<lambda>v. \<lparr>km_topic = topicTransfers, km_key = wr_id v,
            km_value = transfer_event (tr_amount_cents t) (walletColumns v) (walletColumns w) (txColumns t)\<rparr>)
            (select_wallet_by_id f d)
      | _ \<Rightarrow> None)"

text \<open>What the requests do to the tables, seen from the relay.\<close>

inductive move_step :: "db \<Rightarrow> db \<Rightarrow> bool" where
  create: "CreateWallet fault gen now u d = (r, d') \<Longrightarrow> move_step d d'"
| deposit: "Deposit_fn u amount k h d = Inr (r, d') \<Longrightarrow> move_step d d'"
| transfer: "Transfer_fn u to amount k h d = Inr (r, d') \<Longrightarrow> move_step d d'"

text \<open>Requests, relays of any number of pods and housekeeping, in any order.\<close>

inductive pipeline_step :: "relay_state \<Rightarrow> relay_state \<Rightarrow> bool" where
  request: "move_step (rs_db s) d' \<Longrightarrow> pipeline_step s (s\<lparr>rs_db := d'\<rparr>)"
| batch: "\<lbrakk>WriteMessages_doc (be_write env); commit_doc env; publishBatch r env s = (res, s')\<rbrakk> \<Longrightarrow>
     pipeline_step s s'"
| tick: "housekeeping_tick r t s = s' \<Longrightarrow> pipeline_step s s'"

definition init_relay_state :: relay_state where
  "init_relay_state = \<lparr>rs_db = empty_db, rs_log = [], outboxPublished = (\<lambda>_. 0), outboxFailures = 0,
     outboxPending = 0, outboxOldest = 0\<rparr>"

definition pipeline :: "relay_state \<Rightarrow> bool" where
  "pipeline s \<longleftrightarrow> pipeline_step\<^sup>*\<^sup>* init_relay_state s"

end
