(* ===== verification/OutboxProofs.thy ===== *)
theory OutboxProofs
  imports Outbox
begin

text \<open>
  The invariant of the event pipeline: no recorded transaction without its event pending or
  in Kafka, no sent row without its message in Kafka, and no message that is not the event of
  a recorded transaction.  Then the lemmas on batches: what a batch sends, that the backlog
  drains, and the back-off of the loop.
\<close>

section \<open>Events are stable\<close>

text \<open>What an event says of a wallet never changes.\<close>

definition same_wallets :: "db \<Rightarrow> db \<Rightarrow> bool" where
  "same_wallets d d' \<longleftrightarrow>
     (\<forall>i w. select_wallet_by_id i d = Some w \<longrightarrow>
        (\<exists>w'. select_wallet_by_id i d' = Some w' \<and> wr_id w' = wr_id w \<and> wr_user_id w' = wr_user_id w \<and>
           wr_currency w' = wr_currency w))"

lemma same_walletsD:
  "same_wallets d d' \<Longrightarrow> select_wallet_by_id i d = Some w \<Longrightarrow>
     \<exists>w'. select_wallet_by_id i d' = Some w' \<and> wr_id w' = wr_id w \<and> wr_user_id w' = wr_user_id w \<and>
       wr_currency w' = wr_currency w"
  by (auto simp: same_wallets_def)

lemma same_wallets_trans: "same_wallets a b \<Longrightarrow> same_wallets b c \<Longrightarrow> same_wallets a c"
  unfolding same_wallets_def by metis

lemma same_wallets_bump: "same_wallets d (bump_wallet now wid delta d)"
proof -
  let ?h = "\<lambda>v. if wr_id v = wid then bump_row now delta v else v"
  have "select_wallet_by_id i (bump_wallet now wid delta d) = map_option ?h (select_wallet_by_id i d)" for i
    unfolding select_wallet_by_id_def bump_wallet_wallets by (rule find_map_inv) simp
  then show ?thesis by (simp add: same_wallets_def)
qed

lemma same_wallets_tables: "wallets d' = wallets d \<Longrightarrow> same_wallets d d'"
  by (simp add: same_wallets_def select_wallet_by_id_def)

lemma tx_event_stable:
  assumes "same_wallets d d'" and "tx_event d t = Some m"
  shows "tx_event d' t = Some m"
proof (cases "tr_from_wallet_id t")
  case None
  with assms(2) obtain w where w: "select_wallet_by_id (tr_to_wallet_id t) d = Some w"
    by (auto simp: tx_event_def split: option.splits)
  from same_walletsD [OF assms(1) w] w None assms(2) show ?thesis
    by (auto simp: tx_event_def deposit_event_def)
next
  case (Some f)
  with assms(2) obtain v w where v: "select_wallet_by_id f d = Some v"
    and w: "select_wallet_by_id (tr_to_wallet_id t) d = Some w"
    by (auto simp: tx_event_def split: option.splits)
  from same_walletsD [OF assms(1) w] same_walletsD [OF assms(1) v] v w Some assms(2) show ?thesis
    by (auto simp: tx_event_def transfer_event_def)
qed

lemma post_deposit_same: "same_wallets d (post_deposit h u k amount w d)"
proof -
  have "same_wallets (bump_wallet (h_now h) (wr_id w) amount d) (post_deposit h u k amount w d)"
    by (rule same_wallets_tables) (simp add: post_deposit_def)
  with same_wallets_bump show ?thesis by (rule same_wallets_trans)
qed

lemma post_transfer_same: "same_wallets d (post_transfer h u k amount f t d)"
proof -
  let ?d1 = "bump_wallet (h_now h) (wr_id f) (- amount) d"
  have "same_wallets (bump_wallet (h_now h) (wr_id t) amount ?d1) (post_transfer h u k amount f t d)"
    by (rule same_wallets_tables) (simp add: post_transfer_def)
  with same_wallets_bump same_wallets_bump same_wallets_trans show ?thesis by metis
qed

lemma deposit_event_row:
  assumes ok: "schema_ok d" and mv: "deposit_moves u amount k h d w"
  shows "tx_event d (deposit_row h u k amount w) = Some (row_msg (deposit_outbox h u k amount w))"
proof -
  have "w \<in> set (wallets d)" using mv by (auto simp: deposit_moves_def dest: select_wallet_by_user_SomeD)
  then have "select_wallet_by_id (wr_id w) d = Some w" using ok by (rule select_id_row [rotated])
  then show ?thesis by (simp add: tx_event_def deposit_outbox_def deposit_row_def row_msg_def)
qed

lemma transfer_event_row:
  assumes ok: "schema_ok d" and mv: "transfer_moves u to amount k h d f t"
  shows "tx_event d (transfer_row h u k amount f t) = Some (row_msg (transfer_outbox h u k amount f t))"
proof -
  have "f \<in> set (wallets d)" "t \<in> set (wallets d)"
    using mv by (auto simp: transfer_moves_def dest: select_wallet_by_user_SomeD select_wallet_by_id_SomeD)
  then have "select_wallet_by_id (wr_id f) d = Some f" "select_wallet_by_id (wr_id t) d = Some t"
    using ok select_id_row by blast+
  then show ?thesis by (simp add: tx_event_def transfer_outbox_def transfer_row_def row_msg_def)
qed

text \<open>
  A request changes the log and the outbox together: nothing, or one transaction with its
  unpublished event.
\<close>

lemma move_step_cases:
  assumes "move_step d d'" and inv: "wallet_inv d"
  obtains (quiet) "same_wallets d d'" and "transactions d' = transactions d" and "outbox d' = outbox d"
  | (moved) t r where "same_wallets d d'" and "transactions d' = transactions d @ [t]"
      and "outbox d' = outbox d @ [r]" and "tx_event d t = Some (row_msg r)" and "ob_published_at r = None"
      and "ob_id r \<notin> ob_id ` set (outbox d)"
proof -
  have ok: "schema_ok d" using inv by (simp add: wallet_inv_def)
  from assms(1) show thesis
  proof cases
    case (create fault gen now u r)
    from create show thesis
    proof (cases rule: CreateWallet_cases)
      case same
      then show thesis by (intro quiet) (simp_all add: same_wallets_tables)
    next
      case fresh
      have "same_wallets d d'" unfolding same_wallets_def
        by (auto simp: fresh(3) select_wallet_by_id_def find_append)
      with fresh(3) show thesis by (intro quiet) simp_all
    qed
  next
    case (deposit u amount k h r)
    from ok deposit show thesis
    proof (cases rule: Deposit_fn_Inr)
      case (replay t)
      then show thesis by (intro quiet) (simp_all add: same_wallets_tables)
    next
      case (moved w)
      show thesis
        by (rule that(2) [of "deposit_row h u k amount w" "deposit_outbox h u k amount w"])
          (use moved ok in \<open>simp_all add: post_deposit_same deposit_event_row\<close>,
            simp_all add: post_deposit_def deposit_outbox_def deposit_moves_def drawn_fresh_def)
    qed
  next
    case (transfer u to amount k h r)
    from ok transfer show thesis
    proof (cases rule: Transfer_fn_Inr)
      case (replay t)
      then show thesis by (intro quiet) (simp_all add: same_wallets_tables)
    next
      case (moved f t)
      show thesis
        by (rule that(2) [of "transfer_row h u k amount f t" "transfer_outbox h u k amount f t"])
          (use moved ok in \<open>simp_all add: post_transfer_same transfer_event_row\<close>,
            simp_all add: post_transfer_def transfer_outbox_def transfer_moves_def drawn_fresh_def)
    qed
  qed
qed

section \<open>The invariant of the pipeline\<close>

definition events_covered :: "relay_state \<Rightarrow> bool" where
  "events_covered s \<longleftrightarrow>
     (\<forall>t\<in>set (transactions (rs_db s)). \<exists>m. tx_event (rs_db s) t = Some m \<and>
        m \<in> row_msg ` set (unpublished (rs_db s)) \<union> set (rs_log s))"

definition sent_rows_logged :: "relay_state \<Rightarrow> bool" where
  "sent_rows_logged s \<longleftrightarrow>
     (\<forall>r\<in>set (outbox (rs_db s)). ob_published_at r \<noteq> None \<longrightarrow> row_msg r \<in> set (rs_log s))"

definition events_genuine :: "relay_state \<Rightarrow> bool" where
  "events_genuine s \<longleftrightarrow>
     (\<forall>m\<in>set (rs_log s) \<union> row_msg ` set (outbox (rs_db s)).
        \<exists>t\<in>set (transactions (rs_db s)). tx_event (rs_db s) t = Some m)"

definition pipeline_inv :: "relay_state \<Rightarrow> bool" where
  "pipeline_inv s \<longleftrightarrow> wallet_inv (rs_db s) \<and> events_covered s \<and> sent_rows_logged s \<and> events_genuine s"

lemma unpublished_iff: "r \<in> set (unpublished d) \<longleftrightarrow> r \<in> set (outbox d) \<and> ob_published_at r = None"
  by (auto simp: unpublished_def)

lemma move_step_store: "move_step d d' \<Longrightarrow> store_step d d'"
  by (auto elim!: move_step.cases intro: store_step.intros)

lemma request_inv:
  assumes inv: "pipeline_inv s" and mv: "move_step (rs_db s) d'"
  shows "pipeline_inv (s\<lparr>rs_db := d'\<rparr>)"
proof -
  from inv have wi: "wallet_inv (rs_db s)" by (simp add: pipeline_inv_def)
  have wi': "wallet_inv d'" using store_step_inv [OF move_step_store [OF mv] wi] .
  from mv wi show ?thesis
  proof (cases rule: move_step_cases)
    case quiet
    note keep = tx_event_stable [OF quiet(1)]
    show ?thesis unfolding pipeline_inv_def
    proof (intro conjI)
      show "events_covered (s\<lparr>rs_db := d'\<rparr>)"
        using inv keep quiet by (fastforce simp: pipeline_inv_def events_covered_def unpublished_def)
      show "sent_rows_logged (s\<lparr>rs_db := d'\<rparr>)"
        using inv quiet by (simp add: pipeline_inv_def sent_rows_logged_def)
      show "events_genuine (s\<lparr>rs_db := d'\<rparr>)"
        using inv keep quiet by (fastforce simp: pipeline_inv_def events_genuine_def)
    qed (simp add: wi')
  next
    case (moved t r)
    note keep = tx_event_stable [OF moved(1)]
    have new: "tx_event d' t = Some (row_msg r)" using moved(4) by (rule keep)
    show ?thesis unfolding pipeline_inv_def
    proof (intro conjI)
      show "events_covered (s\<lparr>rs_db := d'\<rparr>)"
        using inv keep moved new by (fastforce simp: pipeline_inv_def events_covered_def unpublished_def)
      show "sent_rows_logged (s\<lparr>rs_db := d'\<rparr>)"
        using inv moved by (simp add: pipeline_inv_def sent_rows_logged_def)
      show "events_genuine (s\<lparr>rs_db := d'\<rparr>)"
        using inv keep moved new by (fastforce simp: pipeline_inv_def events_genuine_def)
    qed (simp add: wi')
  qed
qed

section \<open>Batches\<close>

lemma select_unpublished_sub:
  "r \<in> set (select_unpublished L n d) \<Longrightarrow> r \<in> set (outbox d) \<and> ob_published_at r = None \<and> ob_id r \<notin> L"
  unfolding select_unpublished_def by (auto simp: unpublished_iff dest: in_set_takeD)

lemma WriteMessages_all:
  assumes "WriteMessages_doc W" and "W ms = (None, acc)"
  shows "set acc = set ms"
proof
  show "set acc \<subseteq> set ms" using assms by (metis WriteMessages_doc_def snd_conv)
  show "set ms \<subseteq> set acc"
  proof
    fix m assume "m \<in> set ms"
    moreover have "filter (same_stream m) acc = filter (same_stream m) ms"
      using assms by (metis WriteMessages_doc_def fst_conv snd_conv)
    ultimately have "m \<in> set (filter (same_stream m) acc)" by (simp add: same_stream_def)
    then show "m \<in> set acc" by simp
  qed
qed

lemma WriteMessages_part: "WriteMessages_doc W \<Longrightarrow> W ms = (e, acc) \<Longrightarrow> set acc \<subseteq> set ms"
  by (metis WriteMessages_doc_def snd_conv)

text \<open>The three things a batch can do to the tables and to Kafka.\<close>

lemma publishBatch_cases:
  assumes "publishBatch r env s = (res, s')"
  obtains (nothing) "rs_db s' = rs_db s" and "rs_log s' = rs_log s"
      and "res = Inr 0 \<Longrightarrow> query_batch r env (rs_db s) = Inr []" and "\<And>n. res = Inr n \<Longrightarrow> n = 0"
  | (unmarked) batch e acc where "query_batch r env (rs_db s) = Inr batch"
      and "be_write env (map row_msg batch) = (e, acc)" and "rs_db s' = rs_db s"
      and "rs_log s' = rs_log s @ acc" and "\<And>n. res = Inr n \<Longrightarrow> \<not> be_committed env \<and> be_commit env = None"
  | (marked) batch acc where "query_batch r env (rs_db s) = Inr batch" and "batch \<noteq> []"
      and "be_write env (map row_msg batch) = (None, acc)"
      and "rs_db s' = mark_published (be_now env) (map ob_id batch) (rs_db s)"
      and "rs_log s' = rs_log s @ acc" and "\<And>n. res = Inr n \<Longrightarrow> n = int (length batch)"
proof (cases "be_begin env")
  case (Some e)
  show thesis by (rule nothing) (use Some assms in \<open>auto simp: publishBatch_def\<close>)
next
  case begun: None
  show thesis
  proof (cases "query_batch r env (rs_db s)")
    case (Inl e)
    show thesis by (rule nothing) (use Inl assms begun in \<open>auto simp: publishBatch_def\<close>)
  next
    case (Inr batch)
    show thesis
    proof (cases "batch = []")
      case True
      show thesis
        by (rule nothing)
          (use True assms begun Inr in \<open>auto simp: publishBatch_def split: option.splits\<close>)
    next
      case False
      obtain e acc where w: "be_write env (map row_msg batch) = (e, acc)" by fastforce
      show thesis
      proof (cases "e = None \<and> be_update env = None \<and> be_committed env")
        case True
        show thesis
          by (rule marked [OF Inr False, of acc])
            (use True assms begun Inr False w in
              \<open>auto simp: publishBatch_def Let_def split: option.splits\<close>)
      next
        case un: False
        show thesis
          by (rule unmarked [OF Inr w])
            (use assms begun Inr False w un in
              \<open>auto simp: publishBatch_def Let_def split: option.splits if_splits\<close>)
      qed
    qed
  qed
qed

lemma query_batch_rows:
  assumes "query_batch r env d = Inr batch"
  shows "batch = select_unpublished (be_locked env) (nat (rl_batchSize r)) d"
  using assms by (auto simp: query_batch_def split: option.splits if_splits)

lemma mark_published_simps [simp]:
  "wallets (mark_published now ids d) = wallets d" "transactions (mark_published now ids d) = transactions d"
  by (simp_all add: mark_published_def)

lemma row_msg_published [simp]: "row_msg (r\<lparr>ob_published_at := p\<rparr>) = row_msg r"
  by (simp add: row_msg_def)

lemma mark_published_outbox:
  "outbox (mark_published now ids d) =
     map (\<lambda>r. if ob_id r \<in> set ids then r\<lparr>ob_published_at := Some now\<rparr> else r) (outbox d)"
  by (simp add: mark_published_def)

lemma mark_published_mem:
  "x \<in> set (outbox (mark_published now ids d)) \<longleftrightarrow>
     (\<exists>r\<in>set (outbox d). x = (if ob_id r \<in> set ids then r\<lparr>ob_published_at := Some now\<rparr> else r))"
  by (simp only: mark_published_outbox map_mem)

lemma mark_published_msgs: "row_msg ` set (outbox (mark_published now ids d)) = row_msg ` set (outbox d)"
proof -
  have "map row_msg (outbox (mark_published now ids d)) = map row_msg (outbox d)"
    by (simp add: mark_published_outbox)
  then show ?thesis by (metis set_map)
qed

section \<open>Relays and housekeeping keep the invariant\<close>

lemma tx_event_wallets:
  assumes "wallets d' = wallets d"
  shows "tx_event d' t = tx_event d t"
proof -
  have "select_wallet_by_id i d' = select_wallet_by_id i d" for i
    using assms by (simp add: select_wallet_by_id_def)
  then show ?thesis by (simp only: tx_event_def)
qed

lemma events_genuine_log:
  assumes "events_genuine s" and "set acc \<subseteq> row_msg ` set (outbox (rs_db s))"
    and "rs_log s' = rs_log s @ acc" and "transactions (rs_db s') = transactions (rs_db s)"
    and "wallets (rs_db s') = wallets (rs_db s)"
    and "row_msg ` set (outbox (rs_db s')) \<subseteq> row_msg ` set (outbox (rs_db s))"
  shows "events_genuine s'"
proof -
  have ev: "tx_event (rs_db s') t = tx_event (rs_db s) t" for t
    using assms(5) by (rule tx_event_wallets)
  show ?thesis unfolding events_genuine_def assms(3,4) ev
  proof
    fix m
    assume "m \<in> set (rs_log s @ acc) \<union> row_msg ` set (outbox (rs_db s'))"
    then have "m \<in> set (rs_log s) \<union> row_msg ` set (outbox (rs_db s))" using assms(2,6) by auto
    with assms(1) show "\<exists>t\<in>set (transactions (rs_db s)). tx_event (rs_db s) t = Some m"
      unfolding events_genuine_def by blast
  qed
qed

lemma covered_mono:
  assumes "events_covered s" and "transactions (rs_db s') = transactions (rs_db s)"
    and "wallets (rs_db s') = wallets (rs_db s)"
    and "row_msg ` set (unpublished (rs_db s)) \<union> set (rs_log s) \<subseteq>
         row_msg ` set (unpublished (rs_db s')) \<union> set (rs_log s')"
  shows "events_covered s'"
proof -
  have ev: "tx_event (rs_db s') t = tx_event (rs_db s) t" for t
    using assms(3) by (rule tx_event_wallets)
  show ?thesis using assms(1,4) unfolding events_covered_def assms(2) ev by blast
qed

lemma batch_inv:
  assumes inv: "pipeline_inv s" and W: "WriteMessages_doc (be_write env)"
    and run: "publishBatch r env s = (res, s')"
  shows "pipeline_inv s'"
proof -
  from inv have wi: "wallet_inv (rs_db s)" and cov: "events_covered s" and sent: "sent_rows_logged s"
    and gen: "events_genuine s" by (simp_all add: pipeline_inv_def)
  from run show ?thesis
  proof (cases rule: publishBatch_cases)
    case nothing
    with inv show ?thesis
      by (simp add: pipeline_inv_def events_covered_def sent_rows_logged_def events_genuine_def)
  next
    case (unmarked batch e acc)
    have "set acc \<subseteq> row_msg ` set (outbox (rs_db s))"
      using WriteMessages_part [OF W unmarked(2)] query_batch_rows [OF unmarked(1)] select_unpublished_sub
      by fastforce
    with unmarked gen have "events_genuine s'" by (intro events_genuine_log [OF gen]) simp_all
    moreover have "events_covered s'" by (rule covered_mono [OF cov]) (use unmarked in auto)
    ultimately show ?thesis
      using wi sent unmarked by (simp add: pipeline_inv_def sent_rows_logged_def)
  next
    case (marked batch acc)
    let ?ids = "map ob_id batch" and ?d = "rs_db s"
    have rows: "x \<in> set (outbox ?d) \<and> ob_published_at x = None" if "x \<in> set batch" for x
      using that query_batch_rows [OF marked(1)] select_unpublished_sub by blast
    have acc: "set acc = row_msg ` set batch" using WriteMessages_all [OF W marked(3)] by simp
    have ids: "distinct (map ob_id (outbox ?d))" using wi by (simp add: wallet_inv_def schema_ok_def)
    have inb: "x \<in> set batch" if "x \<in> set (outbox ?d)" "ob_id x \<in> set ?ids" for x
      using that rows key_inj [OF ids] by (metis (no_types, lifting) image_iff list.set_map)
    have "events_genuine s'"
      by (rule events_genuine_log [OF gen _ marked(5)])
        (use acc rows marked(4) in \<open>auto simp: mark_published_msgs\<close>)
    moreover have "events_covered s'"
    proof (rule covered_mono [OF cov])
      show "row_msg ` set (unpublished ?d) \<union> set (rs_log s) \<subseteq>
          row_msg ` set (unpublished (rs_db s')) \<union> set (rs_log s')"
      proof
        fix m assume "m \<in> row_msg ` set (unpublished ?d) \<union> set (rs_log s)"
        then consider "m \<in> set (rs_log s)" | x where "x \<in> set (outbox ?d)" "ob_published_at x = None" "m = row_msg x"
          by (auto simp: unpublished_iff)
        then show "m \<in> row_msg ` set (unpublished (rs_db s')) \<union> set (rs_log s')"
        proof cases
          case (2 x)
          show ?thesis
          proof (cases "ob_id x \<in> set ?ids")
            case True
            with 2 inb acc marked(5) show ?thesis by simp
          next
            case False
            then have "x \<in> set (outbox (rs_db s'))" using 2 marked(4) by (auto simp: mark_published_mem)
            with 2 show ?thesis by (simp add: unpublished_iff)
          qed
        qed (simp add: marked(5))
      qed
    qed (simp_all add: marked(4))
    moreover have "sent_rows_logged s'"
      unfolding sent_rows_logged_def
    proof (intro ballI impI)
      fix y assume "y \<in> set (outbox (rs_db s'))" and pub: "ob_published_at y \<noteq> None"
      then obtain x where x: "x \<in> set (outbox ?d)"
        "y = (if ob_id x \<in> set ?ids then x\<lparr>ob_published_at := Some (be_now env)\<rparr> else x)"
        unfolding marked(4) mark_published_mem by blast
      show "row_msg y \<in> set (rs_log s')"
      proof (cases "ob_id x \<in> set ?ids")
        case True
        with x inb acc marked(5) show ?thesis by simp
      next
        case False
        with x pub sent marked(5) show ?thesis by (simp add: sent_rows_logged_def)
      qed
    qed
    moreover have "wallet_inv (rs_db s')"
      unfolding marked(4) using store_step_inv [OF store_step.publish wi] .
    ultimately show ?thesis by (simp add: pipeline_inv_def)
  qed
qed

lemma delete_published_simps:
  "wallets (snd (delete_published c d)) = wallets d"
  "transactions (snd (delete_published c d)) = transactions d"
  "set (outbox (snd (delete_published c d))) \<subseteq> set (outbox d)"
  "unpublished (snd (delete_published c d)) = unpublished d"
  by (auto simp: delete_published_def Let_def unpublished_def intro: filter_cong)

lemma tick_inv:
  assumes inv: "pipeline_inv s"
  shows "pipeline_inv (housekeeping_tick r t s)"
proof (cases t)
  case (GaugesTick fault now)
  with inv show ?thesis
    by (simp add: refreshGauges_def Let_def pipeline_inv_def events_covered_def sent_rows_logged_def
        events_genuine_def split: option.split)
next
  case (CleanupTick fault now)
  let ?c = "now - retention_hours r * 3600000000000"
  let ?s' = "s\<lparr>rs_db := snd (delete_published ?c (rs_db s))\<rparr>"
  have "pipeline_inv ?s'" unfolding pipeline_inv_def
  proof (intro conjI)
    show "wallet_inv (rs_db ?s')"
      using inv store_step_inv [OF store_step.cleanup [OF prod.collapse [symmetric]]]
      by (simp add: pipeline_inv_def)
    show "events_covered ?s'"
      by (rule covered_mono [of s]) (use inv in \<open>simp_all add: pipeline_inv_def delete_published_simps\<close>)
    show "sent_rows_logged ?s'"
      using inv delete_published_simps(3) by (fastforce simp: pipeline_inv_def sent_rows_logged_def)
    show "events_genuine ?s'"
      by (rule events_genuine_log [of s "[]"])
        (use inv image_mono [OF delete_published_simps(3)] in
          \<open>simp_all add: pipeline_inv_def delete_published_simps\<close>)
  qed
  with inv show ?thesis by (simp add: CleanupTick cleanup_tick_def split: option.split)
qed

lemma pipeline_step_inv: "pipeline_step s s' \<Longrightarrow> pipeline_inv s \<Longrightarrow> pipeline_inv s'"
  by (induction rule: pipeline_step.induct) (auto intro: request_inv batch_inv tick_inv)

lemma pipeline_inv_init: "pipeline_inv init_relay_state"
  by (simp add: pipeline_inv_def init_relay_state_def wallet_inv_empty events_covered_def
      sent_rows_logged_def events_genuine_def) (simp add: empty_db_def)

lemma pipeline_reaches_inv: "pipeline s \<Longrightarrow> pipeline_inv s"
  unfolding pipeline_def
  by (induction rule: rtranclp_induct) (simp_all add: pipeline_inv_init pipeline_step_inv)

section \<open>A batch that meets no failure\<close>

definition batch_ok :: "batch_env \<Rightarrow> bool" where
  "batch_ok env \<longleftrightarrow> be_begin env = None \<and> be_query env = None \<and> be_update env = None \<and>
     be_commit env = None \<and> be_committed env \<and> (\<forall>ms. fst (be_write env ms) = None)"

lemma publishBatch_ok:
  assumes "batch_ok env" and "0 \<le> rl_batchSize r"
    and "batch = select_unpublished (be_locked env) (nat (rl_batchSize r)) (rs_db s)"
  shows "publishBatch r env s =
    (Inr (int (length batch)),
     if batch = [] then s
     else s\<lparr>rs_db := mark_published (be_now env) (map ob_id batch) (rs_db s),
            rs_log := rs_log s @ snd (be_write env (map row_msg batch)),
            outboxPublished := fold (\<lambda>row c. c(ob_topic row := c (ob_topic row) + 1)) batch (outboxPublished s)\<rparr>)"
proof -
  obtain acc where "be_write env (map row_msg batch) = (None, acc)"
    using assms(1) by (metis batch_ok_def prod.collapse)
  with assms show ?thesis
    by (auto simp: publishBatch_def query_batch_def batch_ok_def Let_def split: option.splits)
qed

lemma unpublished_marked:
  "unpublished (mark_published now ids d) = filter (\<lambda>r. ob_id r \<notin> set ids) (unpublished d)"
proof -
  have "filter (\<lambda>r. ob_published_at r = None)
      (map (\<lambda>r. if ob_id r \<in> set ids then r\<lparr>ob_published_at := Some now\<rparr> else r) rs) =
    filter (\<lambda>r. ob_id r \<notin> set ids) (filter (\<lambda>r. ob_published_at r = None) rs)" for rs
    by (induction rs) auto
  then show ?thesis by (simp add: unpublished_def mark_published_outbox)
qed

lemma unpublished_distinct: "schema_ok d \<Longrightarrow> distinct (map ob_id (unpublished d))"
  by (simp add: schema_ok_def unpublished_def distinct_map_filter)

lemma select_unpublished_distinct: "schema_ok d \<Longrightarrow> distinct (map ob_id (select_unpublished L n d))"
proof -
  assume ok: "schema_ok d"
  let ?us = "sort_key ob_id (unpublished d)"
  have "distinct (unpublished d)" and inj: "inj_on ob_id (set (unpublished d))"
    using unpublished_distinct [OF ok] by (simp_all add: distinct_map)
  then have "distinct (map ob_id ?us)" by (simp add: distinct_map)
  then show ?thesis
    by (simp add: select_unpublished_def distinct_map_filter take_map [symmetric] del: map_map)
qed

lemma select_all_length:
  "length (select_unpublished {} n d) = min n (length (unpublished d))"
  by (simp add: select_unpublished_def)

lemma marked_backlog:
  assumes ok: "schema_ok d" and batch: "batch = select_unpublished L n d"
  shows "length (unpublished (mark_published now (map ob_id batch) d)) = length (unpublished d) - length batch"
proof -
  let ?P = "\<lambda>r. ob_id r \<in> set (map ob_id batch)"
  have "distinct (unpublished d)" "inj_on ob_id (set (unpublished d))"
    using unpublished_distinct [OF ok] by (simp_all add: distinct_map)
  moreover have sub: "set batch \<subseteq> set (unpublished d)"
    using select_unpublished_sub batch by (auto simp: unpublished_iff)
  ultimately have "set (filter ?P (unpublished d)) = set batch" by (auto simp: inj_on_def)
  moreover have "distinct batch" using select_unpublished_distinct [OF ok] batch by (simp add: distinct_map)
  ultimately have "length (filter ?P (unpublished d)) = length batch"
    using \<open>distinct (unpublished d)\<close> by (metis distinct_card distinct_filter)
  moreover have "length (unpublished d) = length (filter ?P (unpublished d)) +
      length (filter (\<lambda>r. \<not> ?P r) (unpublished d))" by (rule sum_length_filter_compl [symmetric])
  ultimately show ?thesis by (simp add: unpublished_marked)
qed

lemma mark_published_schema: "schema_ok d \<Longrightarrow> schema_ok (mark_published now ids d)"
proof -
  assume ok: "schema_ok d"
  have ids: "map ob_id (outbox (mark_published now ids d)) = map ob_id (outbox d)"
    by (simp add: mark_published_outbox)
  have refs: "tx_refs (mark_published now ids d) t = tx_refs d t" for t by (simp add: tx_refs_ids)
  from ok show ?thesis unfolding schema_ok_def ids refs [abs_def] by (simp add: refs)
qed

lemma batch_backlog:
  assumes ok: "schema_ok (rs_db s)" and env: "batch_ok env" "be_locked env = {}" and size: "0 \<le> rl_batchSize r"
    and run: "publishBatch r env s = (res, s')"
  shows "res = Inr (int (min (nat (rl_batchSize r)) (length (unpublished (rs_db s))))) \<and>
    schema_ok (rs_db s') \<and>
    length (unpublished (rs_db s')) = length (unpublished (rs_db s)) - nat (rl_batchSize r)"
proof -
  let ?batch = "select_unpublished {} (nat (rl_batchSize r)) (rs_db s)"
  have eq: "publishBatch r env s = (Inr (int (length ?batch)), s')"
    using run publishBatch_ok [OF env(1) size refl] env(2) by simp
  have len: "length ?batch = min (nat (rl_batchSize r)) (length (unpublished (rs_db s)))"
    by (rule select_all_length)
  show ?thesis
  proof (cases "?batch = []")
    case True
    then have "s' = s" using run publishBatch_ok [OF env(1) size refl] env(2) by simp
    moreover have "nat (rl_batchSize r) = 0 \<or> length (unpublished (rs_db s)) = 0"
      using len unfolding True by (auto simp: min_def split: if_splits)
    ultimately show ?thesis using run eq len ok by auto
  next
    case False
    then have "rs_db s' = mark_published (be_now env) (map ob_id ?batch) (rs_db s)"
      using run publishBatch_ok [OF env(1) size refl] env(2) by auto
    with marked_backlog [OF ok refl] mark_published_schema [OF ok] run eq len show ?thesis by simp
  qed
qed

section \<open>The loop\<close>

definition quiet_round :: "batch_env \<Rightarrow> round" where
  "quiet_round env = \<lparr>rd_done = False, rd_env = env, rd_done_after = False\<rparr>"

lemma quiet_round_simps [simp]:
  "rd_done (quiet_round env) = False" "rd_env (quiet_round env) = env" "rd_done_after (quiet_round env) = False"
  by (simp_all add: quiet_round_def)

lemma loop_drains:
  assumes "schema_ok (rs_db s)" and "list_all (\<lambda>e. batch_ok e \<and> be_locked e = {}) envs" and "0 \<le> rl_batchSize r"
    and "loop r b (map quiet_round envs) s = (e, ds, s')"
  shows "length (unpublished (rs_db s')) = length (unpublished (rs_db s)) - length envs * nat (rl_batchSize r)"
  using assms
proof (induction envs arbitrary: b s e ds)
  case Nil
  then show ?case by simp
next
  case (Cons env envs)
  obtain res s1 where run: "publishBatch r env s = (res, s1)" by fastforce
  from Cons.prems have "batch_ok env" "be_locked env = {}" by simp_all
  note one = batch_backlog [OF Cons.prems(1) this Cons.prems(3) run]
  then have ok1: "schema_ok (rs_db s1)" by simp
  from Cons.prems(4) one run obtain ds' where rest: "loop r (rl_poll r) (map quiet_round envs) s1 = (e, ds', s')"
    by (auto simp: Let_def split: prod.splits)
  from Cons.IH [OF ok1 _ Cons.prems(3) rest] Cons.prems(2) one show ?case by simp
qed

lemma loop_stops:
  assumes "rd_done rd"
  shows "loop r b (rds @ rd # rest) s = (Returned, snd (loop r b rds s))"
proof (induction rds arbitrary: b s)
  case Nil
  with assms show ?case by simp
next
  case (Cons x rds)
  show ?case
  proof (cases "publishBatch r (rd_env x) s")
    case (Pair res s1)
    then show ?thesis by (cases res) (auto simp: Cons.IH Let_def split: prod.splits)
  qed
qed

lemma min_scale:
  assumes "(1::int) \<le> p" and "0 < t"
  shows "min (min x t * p) t = min (x * p) t"
proof (cases "x \<le> t")
  case False
  then have "t \<le> t * p" "t \<le> x * p" using assms mult_mono [of t x 1 p] mult_left_mono [of 1 p t] by simp_all
  with False show ?thesis by simp
qed simp

lemma loop_backoff:
  assumes "0 < b" and "b \<le> ten_seconds"
    and "\<And>rd s. rd \<in> set rds \<Longrightarrow> \<not> rd_done rd \<and> \<not> rd_done_after rd \<and> (\<exists>e. fst (publishBatch r (rd_env rd) s) = Inl e)"
  shows "fst (snd (loop r b rds s)) = map (\<lambda>i. min (b * 2 ^ i) ten_seconds) [0..<length rds] \<and>
    fst (loop r b rds s) = Running (min (b * 2 ^ length rds) ten_seconds)"
  using assms
proof (induction rds arbitrary: b s)
  case Nil
  then show ?case by simp
next
  case (Cons rd rds)
  let ?b' = "min (wrap64 (b * 2)) ten_seconds"
  have wrap: "wrap64 (b * 2) = b * 2"
    using Cons.prems(1,2) by (intro wrap64_id) (simp add: in_int64_alt ten_seconds_def)
  have b': "0 < ?b'" "?b' \<le> ten_seconds" using Cons.prems(1) wrap by (simp_all add: ten_seconds_def)
  have pow: "min (?b' * 2 ^ i) ten_seconds = min (b * 2 ^ Suc i) ten_seconds" for i
    using min_scale [of "2 ^ i" ten_seconds "b * 2"] by (simp add: wrap ten_seconds_def mult.assoc)
  obtain e s1 where run: "publishBatch r (rd_env rd) s = (Inl e, s1)"
    using Cons.prems(3) [of rd s] by (metis list.set_intros(1) prod.collapse)
  note IH = Cons.IH [OF b' Cons.prems(3)]
  have "loop r b (rd # rds) s = (case loop r ?b' rds (s1\<lparr>outboxFailures := outboxFailures s1 + 1\<rparr>) of
      (e, ds, s3) \<Rightarrow> (e, b # ds, s3))"
    using run Cons.prems(3) [of rd s] by simp
  moreover have "[0..<length (rd # rds)] = 0 # map Suc [0..<length rds]"
    by (simp add: map_Suc_upt upt_conv_Cons del: upt_Suc)
  ultimately show ?case
    using IH [of "s1\<lparr>outboxFailures := outboxFailures s1 + 1\<rparr>"] pow Cons.prems(2)
    by (auto simp: split_beta)
qed

end
