(* ===== verification/OutboxClaims.thy ===== *)
theory OutboxClaims
  imports OutboxProofs
begin

text \<open>
  The properties of the outbox relay, with an executable runner for concrete pipelines.
\<close>

section \<open>Concrete pipelines\<close>

definition quiet_batch :: "int list \<Rightarrow> timestamp \<Rightarrow> batch_env" where
  "quiet_batch locked now = \<lparr>be_begin = None, be_query = None, be_locked = set locked,
     be_write = (\<lambda>ms. (None, ms)), be_update = None, be_commit = None, be_committed = True, be_now = now\<rparr>"

definition broken_batch :: batch_env where
  "broken_batch = (quiet_batch [] 50)\<lparr>be_begin := Some (OtherError ''connection refused'')\<rparr>"

datatype pact =
    PCreate uuid timestamp uuid
  | PDeposit uuid int string tx_handle
  | PTransfer uuid uuid int string tx_handle
  | PBatch Relay "int list" timestamp
  | PTick Relay tick

fun pact_step :: "pact \<Rightarrow> relay_state \<Rightarrow> relay_state" where
  "pact_step (PCreate gen now u) s = s\<lparr>rs_db := snd (CreateWallet None gen now u (rs_db s))\<rparr>"
| "pact_step (PDeposit u amount k h) s =
     (case Deposit_fn u amount k h (rs_db s) of Inl e \<Rightarrow> s | Inr (r, d') \<Rightarrow> s\<lparr>rs_db := d'\<rparr>)"
| "pact_step (PTransfer u to amount k h) s =
     (case Transfer_fn u to amount k h (rs_db s) of Inl e \<Rightarrow> s | Inr (r, d') \<Rightarrow> s\<lparr>rs_db := d'\<rparr>)"
| "pact_step (PBatch r locked now) s = snd (publishBatch r (quiet_batch locked now) s)"
| "pact_step (PTick r t) s = housekeeping_tick r t s"

definition pipeline_run :: "pact list \<Rightarrow> relay_state" where
  "pipeline_run acts = fold pact_step acts init_relay_state"

definition demo_relay :: Relay where
  "demo_relay = \<lparr>rl_poll = 200000000, rl_batchSize = 100, rl_retention = 604800000000000\<rparr>"

text \<open>A deposit and two transfers out of the same wallet.\<close>

definition demo_moves :: "pact list" where
  "demo_moves = [PCreate ''wa'' 10 ''ann'', PCreate ''wb'' 11 ''bob'',
     PDeposit ''ann'' 500 ''k1'' (quiet_handle 20 ''t1'' 1),
     PTransfer ''ann'' ''wb'' 100 ''k2'' (quiet_handle 30 ''t2'' 2),
     PTransfer ''ann'' ''wb'' 50 ''k3'' (quiet_handle 40 ''t3'' 3)]"

lemma quiet_batch_docs: "WriteMessages_doc (be_write (quiet_batch L now))" "commit_doc (quiet_batch L now)"
  by (simp_all add: quiet_batch_def WriteMessages_doc_def commit_doc_def)

lemma quiet_batch_ok: "batch_ok (quiet_batch L now)" "be_locked (quiet_batch L now) = set L"
  by (simp_all add: quiet_batch_def batch_ok_def)

lemma pact_step_ok: "pact_step a s = s \<or> pipeline_step s (pact_step a s)"
proof (cases a)
  case (PCreate gen now u)
  have "move_step (rs_db s) (snd (CreateWallet None gen now u (rs_db s)))"
    by (rule move_step.create [OF prod.collapse [symmetric]])
  with PCreate show ?thesis by (simp add: pipeline_step.request)
next
  case (PDeposit u amount k h)
  then show ?thesis by (auto split: sum.split intro: pipeline_step.request move_step.deposit)
next
  case (PTransfer u to amount k h)
  then show ?thesis by (auto split: sum.split intro: pipeline_step.request move_step.transfer)
next
  case (PBatch r L now)
  then show ?thesis
    using pipeline_step.batch [OF quiet_batch_docs prod.collapse [symmetric]] by simp
next
  case (PTick r t)
  then show ?thesis by (simp add: pipeline_step.tick)
qed

lemma fold_pact_pipeline: "pipeline s \<Longrightarrow> pipeline (fold pact_step acts s)"
proof (induction acts arbitrary: s)
  case (Cons a acts)
  have "pipeline (pact_step a s)"
    using pact_step_ok [of a s] Cons.prems unfolding pipeline_def by (auto intro: rtranclp.rtrancl_into_rtrancl)
  with Cons.IH show ?case by simp
qed simp

lemma pipeline_run_ok: "pipeline (pipeline_run acts)"
  unfolding pipeline_run_def by (rule fold_pact_pipeline) (simp add: pipeline_def)

section \<open>Delivery\<close>

text \<open>
  C15: At least once: whatever requests, relays of any number of pods, Kafka failures, commits
  in doubt and clean-ups happen in any order, every recorded transaction has its event, with
  the right topic, key and payload, either pending in the outbox or accepted by Kafka.
\<close>

theorem events_at_least_once:
  assumes "pipeline s" and "t \<in> set (transactions (rs_db s))"
  shows "\<exists>m. tx_event (rs_db s) t = Some m \<and>
    (m \<in> row_msg ` set (unpublished (rs_db s)) \<or> m \<in> set (rs_log s))"
  using pipeline_reaches_inv [OF assms(1)] assms(2)
  unfolding pipeline_inv_def events_covered_def by blast

theorem events_at_least_once_witness:
  "\<exists>m. tx_event (rs_db (pipeline_run (demo_moves @ [PBatch demo_relay [1] 50])))
        (transactions (rs_db (pipeline_run (demo_moves @ [PBatch demo_relay [1] 50]))) ! 2) = Some m"
proof -
  let ?s = "pipeline_run (demo_moves @ [PBatch demo_relay [1] 50])"
  have "length (transactions (rs_db ?s)) = 3" by code_simp
  then have "transactions (rs_db ?s) ! 2 \<in> set (transactions (rs_db ?s))" by simp
  from events_at_least_once [OF pipeline_run_ok this] show ?thesis by blast
qed

text \<open>
  C16: No phantom events: every message Kafka accepted is the event of a transaction recorded
  in the tables; a rolled-back movement never has an event.
\<close>

theorem events_are_genuine:
  assumes "pipeline s" and "m \<in> set (rs_log s)"
  shows "\<exists>t\<in>set (transactions (rs_db s)). tx_event (rs_db s) t = Some m"
  using pipeline_reaches_inv [OF assms(1)] assms(2)
  unfolding pipeline_inv_def events_genuine_def by blast

theorem events_are_genuine_witness:
  "\<exists>t\<in>set (transactions (rs_db (pipeline_run (demo_moves @ [PBatch demo_relay [] 50])))).
     tx_event (rs_db (pipeline_run (demo_moves @ [PBatch demo_relay [] 50]))) t =
       Some (rs_log (pipeline_run (demo_moves @ [PBatch demo_relay [] 50])) ! 1)"
proof -
  let ?s = "pipeline_run (demo_moves @ [PBatch demo_relay [] 50])"
  have "length (rs_log ?s) = 3" by code_simp
  then have "rs_log ?s ! 1 \<in> set (rs_log ?s)" by simp
  from events_are_genuine [OF pipeline_run_ok this] show ?thesis .
qed

text \<open>
  C31: The backlog drains: when batches meet no failure, the polling loop leaves
  \<open>pending - rounds * batchSize\<close> events pending, none once the rounds suffice.
\<close>

theorem backlog_drains:
  assumes "schema_ok (rs_db s)" and "list_all (\<lambda>e. batch_ok e \<and> be_locked e = {}) envs" and "0 \<le> rl_batchSize r"
    and "run_loop r (map quiet_round envs) s = (e, ds, s')"
  shows "length (unpublished (rs_db s')) = length (unpublished (rs_db s)) - length envs * nat (rl_batchSize r)"
  using loop_drains [OF assms(1-3) assms(4) [unfolded run_loop_def]] .

theorem backlog_drains_witness:
  "length (unpublished (rs_db (pipeline_run demo_moves))) = 3 \<and>
   (\<exists>e ds s'. run_loop demo_relay (map quiet_round [quiet_batch [] 50]) (pipeline_run demo_moves) = (e, ds, s') \<and>
      unpublished (rs_db s') = [])"
proof -
  let ?s = "pipeline_run demo_moves"
  obtain e ds s' where run: "run_loop demo_relay (map quiet_round [quiet_batch [] 50]) ?s = (e, ds, s')"
    using prod_cases3 by blast
  have ok: "schema_ok (rs_db ?s)"
    using pipeline_reaches_inv [OF pipeline_run_ok] by (simp add: pipeline_inv_def wallet_inv_def)
  have len: "length (unpublished (rs_db ?s)) = 3" by code_simp
  have "length (unpublished (rs_db s')) = 0"
    using backlog_drains [OF ok _ _ run] len by (simp add: quiet_batch_ok demo_relay_def)
  with run len show ?thesis by auto
qed

text \<open>
  A batch is taken in the order of the outbox ids: with one relay (no rows held by
  others), the rows it takes are sorted by id and older than every row left pending.
\<close>

theorem batch_oldest_first:
  assumes "schema_ok d" and "batch = select_unpublished {} n d"
  shows "sorted (map ob_id batch) \<and>
    (\<forall>x\<in>set batch. \<forall>y\<in>set (unpublished d). y \<notin> set batch \<longrightarrow> ob_id x < ob_id y)"
proof -
  let ?us = "sort_key ob_id (unpublished d)"
  have batch: "batch = take n ?us" using assms(2) by (simp add: select_unpublished_def)
  have sorted: "sorted (map ob_id ?us)" by simp
  have "ob_id x < ob_id y" if x: "x \<in> set batch" and y: "y \<in> set (unpublished d)" "y \<notin> set batch" for x y
  proof -
    have drop: "y \<in> set (drop n ?us)" using y batch by (metis append_take_drop_id set_append set_sort UnE)
    have "map ob_id ?us = map ob_id (take n ?us) @ map ob_id (drop n ?us)" by (metis append_take_drop_id map_append)
    then have "ob_id x \<le> ob_id y" using sorted x drop batch by (auto simp: sorted_append)
    moreover have "ob_id x \<noteq> ob_id y"
    proof
      assume eq: "ob_id x = ob_id y"
      have "x \<in> set (unpublished d)" using x batch by (metis in_set_takeD set_sort)
      with eq y unpublished_distinct [OF assms(1)] have "x = y" by (metis key_inj)
      with x y show False by simp
    qed
    ultimately show ?thesis by simp
  qed
  moreover have "sorted (map ob_id batch)" unfolding batch using sorted by (simp add: take_map [symmetric])
  ultimately show ?thesis by blast
qed

theorem batch_oldest_first_witness:
  "sorted (map ob_id (select_unpublished {} 2 (rs_db (pipeline_run demo_moves))))"
proof -
  have "schema_ok (rs_db (pipeline_run demo_moves))"
    using pipeline_reaches_inv [OF pipeline_run_ok] by (simp add: pipeline_inv_def wallet_inv_def)
  from batch_oldest_first [OF this refl] show ?thesis ..
qed

text \<open>
  C32: With two relays the order per wallet is not kept: while one pod holds the row of the
  first transfer, another publishes the second transfer of the same wallet; the events of one
  topic and key then reach Kafka in the opposite order of the transactions.
\<close>

theorem relays_can_reorder:
  "\<exists>s. pipeline s \<and> map tr_id (transactions (rs_db s)) = [''t1'', ''t2'', ''t3''] \<and>
     map (\<lambda>m. json_get (km_value m) ''eventId'')
       (filter (\<lambda>m. km_topic m = topicTransfers \<and> km_key m = ''wa'') (rs_log s)) =
     [Some (JStr ''t3''), Some (JStr ''t2'')]"
proof (intro exI conjI)
  let ?s = "pipeline_run (demo_moves @ [PBatch demo_relay [2] 50, PBatch demo_relay [] 51])"
  show "pipeline ?s" by (rule pipeline_run_ok)
  show "map tr_id (transactions (rs_db ?s)) = [''t1'', ''t2'', ''t3'']" by code_simp
  show "map (\<lambda>m. json_get (km_value m) ''eventId'')
       (filter (\<lambda>m. km_topic m = topicTransfers \<and> km_key m = ''wa'') (rs_log ?s)) =
     [Some (JStr ''t3''), Some (JStr ''t2'')]" by code_simp
qed

section \<open>The loop and the housekeeping\<close>

text \<open>
  While batches fail, the loop waits \<open>poll, 2*poll, 4*poll, ...\<close> capped at ten seconds
  between them, for every poll interval of at most ten seconds.
\<close>

theorem relay_backoff:
  assumes "0 < rl_poll r" and "rl_poll r \<le> ten_seconds"
    and "\<And>rd s. rd \<in> set rds \<Longrightarrow> \<not> rd_done rd \<and> \<not> rd_done_after rd \<and> (\<exists>e. fst (publishBatch r (rd_env rd) s) = Inl e)"
  shows "fst (snd (run_loop r rds s)) = map (\<lambda>i. min (rl_poll r * 2 ^ i) ten_seconds) [0..<length rds]"
  using loop_backoff [OF assms] by (simp add: run_loop_def)

theorem relay_backoff_witness:
  "fst (snd (run_loop demo_relay (replicate 8 (quiet_round broken_batch)) init_relay_state)) =
     [200000000, 400000000, 800000000, 1600000000, 3200000000, 6400000000, 10000000000, 10000000000]"
proof -
  have "fst (snd (run_loop demo_relay (replicate 8 (quiet_round broken_batch)) init_relay_state)) =
      map (\<lambda>i. min (rl_poll demo_relay * 2 ^ i) ten_seconds) [0..<length (replicate 8 (quiet_round broken_batch))]"
    by (rule relay_backoff)
      (auto simp: demo_relay_def ten_seconds_def broken_batch_def quiet_batch_def publishBatch_def)
  also have "\<dots> = [200000000, 400000000, 800000000, 1600000000, 3200000000, 6400000000, 10000000000, 10000000000]"
    by (simp add: demo_relay_def ten_seconds_def upt_rec)
  finally show ?thesis .
qed

text \<open>
  \<open>Stop\<close> returns: the loop ends at the first round that finds the context done, and the
  batches before it have run to their end: the tables, Kafka and the metrics are as after
  those rounds alone.
\<close>

theorem relay_stops:
  assumes "rd_done rd"
  shows "run_loop r (rds @ rd # rest) s = (Returned, snd (run_loop r rds s))"
  unfolding run_loop_def using assms by (rule loop_stops)

theorem relay_stops_witness:
  "fst (run_loop demo_relay ([quiet_round (quiet_batch [] 50)] @
     (quiet_round (quiet_batch [] 51))\<lparr>rd_done := True\<rparr> # []) (pipeline_run demo_moves)) = Returned"
  by (subst relay_stops) simp_all

text \<open>
  Housekeeping deletes only events that were sent, and sent at least the configured
  number of whole hours ago; every pending event, wallet and transaction is untouched.
\<close>

theorem cleanup_keeps_pending:
  assumes "s' = cleanup_tick r None now s" and "x \<in> set (outbox (rs_db s))" and "x \<notin> set (outbox (rs_db s'))"
  shows "(\<exists>p. ob_published_at x = Some p \<and> p < now - retention_hours r * 3600000000000) \<and>
    unpublished (rs_db s') = unpublished (rs_db s) \<and> transactions (rs_db s') = transactions (rs_db s)"
  using assms delete_published_simps [of "now - retention_hours r * 3600000000000" "rs_db s"]
  by (auto simp: cleanup_tick_def delete_published_def Let_def split: option.splits)

theorem cleanup_keeps_pending_witness:
  "unpublished (rs_db (cleanup_tick demo_relay None 604800000000051 (pipeline_run (demo_moves @ [PBatch demo_relay [3] 50])))) =
   unpublished (rs_db (pipeline_run (demo_moves @ [PBatch demo_relay [3] 50])))"
proof -
  let ?s = "pipeline_run (demo_moves @ [PBatch demo_relay [3] 50])"
  let ?x = "outbox (rs_db ?s) ! 0" and ?s' = "cleanup_tick demo_relay None 604800000000051 ?s"
  have "length (outbox (rs_db ?s)) = 3" by code_simp
  then have "?x \<in> set (outbox (rs_db ?s))" by simp
  moreover have "list_all (\<lambda>y. ob_id y \<noteq> ob_id ?x) (outbox (rs_db ?s'))" by code_simp
  then have "?x \<notin> set (outbox (rs_db ?s'))" by (auto simp: list_all_iff)
  ultimately show ?thesis using cleanup_keeps_pending [OF refl] by blast
qed

text \<open>
  A batch size of zero is not refused at start-up: the loop then polls without ever pausing
  and publishes nothing.
\<close>

theorem zero_batch_spins:
  assumes "rl_batchSize r = 0" and "list_all batch_ok envs"
  shows "run_loop r (map quiet_round envs) s = (Running (rl_poll r), [], s)"
proof -
  have "loop r b (map quiet_round envs) s = (Running (if envs = [] then b else rl_poll r), [], s)" for b
    using assms(2)
  proof (induction envs arbitrary: b)
    case (Cons env envs)
    then have "publishBatch r env s = (Inr 0, s)"
      using publishBatch_ok [of env r "[]" s] assms(1) by (simp add: select_unpublished_def)
    with Cons assms(1) show ?case by (cases envs) simp_all
  qed simp
  then show ?thesis by (simp add: run_loop_def)
qed

end
