(* ===== verification/WalletServer.thy ===== *)
theory WalletServer
  imports StoreClaims
begin

text \<open>
  The gRPC service of \<open>services/wallet/server.go\<close> and the metrics of
  \<open>services/wallet/metrics.go\<close>.  \<open>uuid.Parse\<close> followed by \<open>String()\<close> is a parameter: the canonical
  form of a text, or nothing.  Every handler is the whole method: parsing, validation, the
  store call, the result counter and the status.  A panic of the store leaves the handler as
  a panic (there is no recovery interceptor).
\<close>

section \<open>Statuses and messages\<close>

datatype grpc_code = OK | Canceled | Unknown | InvalidArgument | DeadlineExceeded | NotFound
  | AlreadyExists | PermissionDenied | ResourceExhausted | FailedPrecondition | Aborted
  | OutOfRange | Unimplemented | Internal | Unavailable | DataLoss | Unauthenticated

fun code_String :: "grpc_code \<Rightarrow> string" where
  "code_String OK = ''OK''"
| "code_String Canceled = ''Canceled''"
| "code_String Unknown = ''Unknown''"
| "code_String InvalidArgument = ''InvalidArgument''"
| "code_String DeadlineExceeded = ''DeadlineExceeded''"
| "code_String NotFound = ''NotFound''"
| "code_String AlreadyExists = ''AlreadyExists''"
| "code_String PermissionDenied = ''PermissionDenied''"
| "code_String ResourceExhausted = ''ResourceExhausted''"
| "code_String FailedPrecondition = ''FailedPrecondition''"
| "code_String Aborted = ''Aborted''"
| "code_String OutOfRange = ''OutOfRange''"
| "code_String Unimplemented = ''Unimplemented''"
| "code_String Internal = ''Internal''"
| "code_String Unavailable = ''Unavailable''"
| "code_String DataLoss = ''DataLoss''"
| "code_String Unauthenticated = ''Unauthenticated''"

record grpc_status =
  st_code :: grpc_code
  st_message :: string

definition status_Error :: "grpc_code \<Rightarrow> string \<Rightarrow> grpc_status" where
  "status_Error c msg = \<lparr>st_code = c, st_message = msg\<rparr>"

text \<open>The messages of \<open>wallet.v1\<close> that carry data, with the fields of \<open>wallet.proto\<close>.\<close>

record pb_Wallet =
  pw_Id :: string
  pw_UserId :: string
  pw_BalanceCents :: int
  pw_Currency :: string
  pw_Version :: int
  pw_CreatedAt :: string

record pb_Transaction =
  pt_Id :: string
  pt_Kind :: string
  pt_FromWalletId :: string
  pt_ToWalletId :: string
  pt_AmountCents :: int
  pt_Status :: string
  pt_IdempotencyKey :: string
  pt_CreatedAt :: string

definition wallet_toProto :: "Wallet \<Rightarrow> pb_Wallet" where
  "wallet_toProto w = \<lparr>pw_Id = w_ID w, pw_UserId = w_UserID w, pw_BalanceCents = w_BalanceCents w,
     pw_Currency = w_Currency w, pw_Version = w_Version w,
     pw_CreatedAt = format_RFC3339 (w_CreatedAt w)\<rparr>"

definition tx_toProto :: "Transaction \<Rightarrow> pb_Transaction" where
  "tx_toProto t = \<lparr>pt_Id = t_ID t, pt_Kind = t_Kind t, pt_FromWalletId = t_FromWalletID t,
     pt_ToWalletId = t_ToWalletID t, pt_AmountCents = t_AmountCents t, pt_Status = t_Status t,
     pt_IdempotencyKey = t_IdempotencyKey t, pt_CreatedAt = format_RFC3339 (t_CreatedAt t)\<rparr>"

section \<open>State and metrics\<close>

type_synonym counter = "string \<times> string \<Rightarrow> nat"

record server_state =
  sv_db :: db
  transactionsTotal :: counter
  lockRetries :: "string \<Rightarrow> nat"
  grpcRequests :: counter
  sv_log :: "(string \<times> go_error) list"

definition inc :: "'k \<Rightarrow> ('k \<Rightarrow> nat) \<Rightarrow> 'k \<Rightarrow> nat" where
  "inc k c = c(k := c k + 1)"

definition result_label :: "go_error + Result \<Rightarrow> string" where
  "result_label r =
     (case r of
        Inr res \<Rightarrow> if res_Replayed res then ''replayed'' else ''ok''
      | Inl err \<Rightarrow> if isBusinessError err then ''rejected'' else ''error'')"

definition recordResult :: "string \<Rightarrow> go_error + Result \<Rightarrow> server_state \<Rightarrow> server_state" where
  "recordResult kind r st = st\<lparr>transactionsTotal := inc (kind, result_label r) (transactionsTotal st)\<rparr>"

text \<open>\<open>toStatus\<close>: the status, and the log entry of an error that is not shown to the caller.\<close>

definition toStatus :: "string \<Rightarrow> go_error \<Rightarrow> server_state \<Rightarrow> grpc_status \<times> server_state" where
  "toStatus op err st =
     (if errors_Is err ErrNotFound then (status_Error NotFound (error_text err), st)
      else if errors_Is err ErrInsufficientFunds then (status_Error FailedPrecondition (error_text err), st)
      else if errors_Is err ErrSameWallet \<or> errors_Is err ErrCurrencyMismatch
      then (status_Error InvalidArgument (error_text err), st)
      else if errors_Is err ErrIdempotencyConflict then (status_Error AlreadyExists (error_text err), st)
      else if errors_Is err ErrTooMuchContention then (status_Error Aborted (error_text err), st)
      else if errors_Is err ContextCanceled \<or> errors_Is err ContextDeadlineExceeded
      then (status_Error DeadlineExceeded ''request cancelled or timed out'', st)
      else (status_Error Internal ''internal error'', st\<lparr>sv_log := sv_log st @ [(op, err)]\<rparr>))"

type_synonym uuid_parser = "string \<Rightarrow> uuid option"

definition parseUUID :: "uuid_parser \<Rightarrow> string \<Rightarrow> string \<Rightarrow> grpc_status + uuid" where
  "parseUUID parse val field =
     (case parse val of
        None \<Rightarrow> Inl (status_Error InvalidArgument (field @ '' must be a UUID''))
      | Some u \<Rightarrow> Inr u)"

definition validateMoney :: "int \<Rightarrow> string \<Rightarrow> grpc_status option" where
  "validateMoney amount key =
     (if amount \<le> 0 then Some (status_Error InvalidArgument ''amount_cents must be a positive integer'')
      else if length key = 0 \<or> 200 < length key
      then Some (status_Error InvalidArgument ''idempotency_key is required (1-200 characters)'')
      else None)"

section \<open>Handlers\<close>

type_synonym 'a rpc = "server_state \<Rightarrow> (grpc_status, 'a) outcome \<times> server_state"

text \<open>The end of a handler that failed in the store.\<close>

definition fail_status :: "string \<Rightarrow> go_error \<Rightarrow> 'a rpc" where
  "fail_status op err st = (case toStatus op err st of (s, st') \<Rightarrow> (Err s, st'))"

definition rpc_CreateWallet ::
    "uuid_parser \<Rightarrow> go_error option \<Rightarrow> uuid \<Rightarrow> timestamp \<Rightarrow> string \<Rightarrow> pb_Wallet rpc" where
  "rpc_CreateWallet parse fault gen now user_id st =
     (case parseUUID parse user_id ''user_id'' of
        Inl s \<Rightarrow> (Err s, st)
      | Inr userID \<Rightarrow>
          (case CreateWallet fault gen now userID (sv_db st) of
             (Inl err, d') \<Rightarrow> fail_status ''create wallet'' err (st\<lparr>sv_db := d'\<rparr>)
           | (Inr w, d') \<Rightarrow> (Ret (wallet_toProto w), st\<lparr>sv_db := d'\<rparr>)))"

definition rpc_GetWallet :: "uuid_parser \<Rightarrow> go_error option \<Rightarrow> string \<Rightarrow> pb_Wallet rpc" where
  "rpc_GetWallet parse fault user_id st =
     (case parseUUID parse user_id ''user_id'' of
        Inl s \<Rightarrow> (Err s, st)
      | Inr userID \<Rightarrow>
          (case GetWalletByUser fault userID (sv_db st) of
             Inl err \<Rightarrow> fail_status ''get wallet'' err st
           | Inr w \<Rightarrow> (Ret (wallet_toProto w), st)))"

text \<open>After the store call of a deposit or transfer: count the retries and the result, answer.\<close>

definition finish_money ::
    "string \<Rightarrow> string \<Rightarrow> (go_error, Result) outcome \<times> nat \<times> db \<Rightarrow> pb_Transaction rpc" where
  "finish_money kind op call st =
     (case call of (out, n, d') \<Rightarrow>
        let st1 = st\<lparr>sv_db := d', lockRetries := (lockRetries st)(kind := lockRetries st kind + n)\<rparr> in
        (case out of
           Panic msg \<Rightarrow> (Panic msg, st1)
         | Ret res \<Rightarrow> (Ret (tx_toProto (res_Tx res)), recordResult kind (Inr res) st1)
         | Err err \<Rightarrow> fail_status op err (recordResult kind (Inl err) st1)))"

definition rpc_Deposit ::
    "uuid_parser \<Rightarrow> int \<Rightarrow> retry_env \<Rightarrow> string \<Rightarrow> int \<Rightarrow> string \<Rightarrow> pb_Transaction rpc" where
  "rpc_Deposit parse maxRetries env user_id amount key st =
     (case parseUUID parse user_id ''user_id'' of
        Inl s \<Rightarrow> (Err s, st)
      | Inr userID \<Rightarrow>
          (case validateMoney amount key of
             Some s \<Rightarrow> (Err s, st)
           | None \<Rightarrow>
               finish_money ''DEPOSIT'' ''deposit'' (Deposit maxRetries env userID amount key (sv_db st)) st))"

definition rpc_Transfer ::
    "uuid_parser \<Rightarrow> int \<Rightarrow> retry_env \<Rightarrow> string \<Rightarrow> string \<Rightarrow> int \<Rightarrow> string \<Rightarrow> pb_Transaction rpc" where
  "rpc_Transfer parse maxRetries env user_id to_wallet_id amount key st =
     (case parseUUID parse user_id ''user_id'' of
        Inl s \<Rightarrow> (Err s, st)
      | Inr userID \<Rightarrow>
     (case parseUUID parse to_wallet_id ''to_wallet_id'' of
        Inl s \<Rightarrow> (Err s, st)
      | Inr toWalletID \<Rightarrow>
          (case validateMoney amount key of
             Some s \<Rightarrow> (Err s, st)
           | None \<Rightarrow>
               finish_money ''TRANSFER'' ''transfer''
                 (Transfer maxRetries env userID toWalletID amount key (sv_db st)) st)))"

definition rpc_GetTransaction ::
    "uuid_parser \<Rightarrow> go_error option \<Rightarrow> string \<Rightarrow> string \<Rightarrow> pb_Transaction rpc" where
  "rpc_GetTransaction parse fault user_id transaction_id st =
     (case parseUUID parse user_id ''user_id'' of
        Inl s \<Rightarrow> (Err s, st)
      | Inr userID \<Rightarrow>
     (case parseUUID parse transaction_id ''transaction_id'' of
        Inl s \<Rightarrow> (Err s, st)
      | Inr txID \<Rightarrow>
          (case GetTransaction fault userID txID (sv_db st) of
             Inl err \<Rightarrow> fail_status ''get transaction'' err st
           | Inr t \<Rightarrow> (Ret (tx_toProto t), st))))"

section \<open>The interceptor\<close>

text \<open>\<open>path.Base\<close>: the last element of a slash-separated path.\<close>

definition path_Base :: "string \<Rightarrow> string" where
  "path_Base p =
     (if p = [] then ''.''
      else let q = rev (dropWhile (\<lambda>c. c = CHR ''/'') (rev p));
               b = rev (takeWhile (\<lambda>c. c \<noteq> CHR ''/'') (rev q))
           in if b = [] then ''/'' else b)"

definition outcome_code :: "(grpc_status, 'a) outcome \<Rightarrow> grpc_code option" where
  "outcome_code out = (case out of Ret x \<Rightarrow> Some OK | Err s \<Rightarrow> Some (st_code s) | Panic m \<Rightarrow> None)"

definition metricsInterceptor :: "string \<Rightarrow> 'a rpc \<Rightarrow> 'a rpc" where
  "metricsInterceptor fullMethod handler st =
     (case handler st of (out, st') \<Rightarrow>
        (case outcome_code out of
           None \<Rightarrow> (out, st')
         | Some c \<Rightarrow>
             (out, st'\<lparr>grpcRequests := inc (path_Base fullMethod, code_String c) (grpcRequests st')\<rparr>)))"

section \<open>The methods as the gRPC server runs them\<close>

text \<open>
  What one call meets: a fault of the statements of \<open>CreateWallet\<close>, \<open>GetWallet\<close> and \<open>GetTransaction\<close>
  (by method), the id and time the database draws, and the attempts of \<open>withRetries\<close>.
\<close>

record call_env =
  ce_fault :: "string \<Rightarrow> go_error option"
  ce_gen :: uuid
  ce_now :: timestamp
  ce_retry :: retry_env

definition srv_CreateWallet :: "uuid_parser \<Rightarrow> call_env \<Rightarrow> string \<Rightarrow> pb_Wallet rpc" where
  "srv_CreateWallet parse c user_id =
     metricsInterceptor ''/wallet.v1.WalletService/CreateWallet''
       (rpc_CreateWallet parse (ce_fault c ''CreateWallet'') (ce_gen c) (ce_now c) user_id)"

definition srv_GetWallet :: "uuid_parser \<Rightarrow> call_env \<Rightarrow> string \<Rightarrow> pb_Wallet rpc" where
  "srv_GetWallet parse c user_id =
     metricsInterceptor ''/wallet.v1.WalletService/GetWallet''
       (rpc_GetWallet parse (ce_fault c ''GetWallet'') user_id)"

definition srv_Deposit :: "uuid_parser \<Rightarrow> int \<Rightarrow> call_env \<Rightarrow> string \<Rightarrow> int \<Rightarrow> string \<Rightarrow> pb_Transaction rpc" where
  "srv_Deposit parse maxRetries c user_id amount key =
     metricsInterceptor ''/wallet.v1.WalletService/Deposit''
       (rpc_Deposit parse maxRetries (ce_retry c) user_id amount key)"

definition srv_Transfer ::
    "uuid_parser \<Rightarrow> int \<Rightarrow> call_env \<Rightarrow> string \<Rightarrow> string \<Rightarrow> int \<Rightarrow> string \<Rightarrow> pb_Transaction rpc" where
  "srv_Transfer parse maxRetries c user_id to_wallet_id amount key =
     metricsInterceptor ''/wallet.v1.WalletService/Transfer''
       (rpc_Transfer parse maxRetries (ce_retry c) user_id to_wallet_id amount key)"

definition srv_GetTransaction :: "uuid_parser \<Rightarrow> call_env \<Rightarrow> string \<Rightarrow> string \<Rightarrow> pb_Transaction rpc" where
  "srv_GetTransaction parse c user_id transaction_id =
     metricsInterceptor ''/wallet.v1.WalletService/GetTransaction''
       (rpc_GetTransaction parse (ce_fault c ''GetTransaction'') user_id transaction_id)"

end
