(* ===== verification/ServerProofs.thy ===== *)
theory ServerProofs
  imports WalletServer
begin

text \<open>
  Lemmas about the handlers of theory \<open>WalletServer\<close>, and the contract the gateway relies on: a
  locale with the calls of the wallet client and their laws, interpreted on the handlers as the
  gRPC server runs them.
\<close>

section \<open>Handlers and the store\<close>

lemma toStatus_db [simp]: "toStatus op err st = (s, st') \<Longrightarrow> sv_db st' = sv_db st"
  by (auto simp: toStatus_def split: if_splits)

lemma fail_status_Err: "fail_status op err st = (out, st') \<Longrightarrow> (\<exists>s. out = Err s) \<and> sv_db st' = sv_db st"
  by (auto simp: fail_status_def split: prod.splits dest: toStatus_db)

lemma finish_money_db: "finish_money kind op (out, n, d') st = (res, st') \<Longrightarrow> sv_db st' = d'"
  by (auto simp: finish_money_def Let_def recordResult_def split: outcome.splits dest!: fail_status_Err)

lemma finish_money_Ret:
  assumes "finish_money kind op call st = (Ret t, st')"
  obtains r n where "call = (Ret r, n, sv_db st')" and "t = tx_toProto (res_Tx r)"
    and "transactionsTotal st' = inc (kind, result_label (Inr r)) (transactionsTotal st)"
proof -
  obtain out n d' where call: "call = (out, n, d')" by (cases call) auto
  with assms obtain r where out: "out = Ret r"
    by (cases out) (auto simp: finish_money_def Let_def dest: fail_status_Err)
  with assms call show thesis
    by (intro that [of r n]) (auto simp: finish_money_def Let_def recordResult_def)
qed

text \<open>A successful call of the RPC is a successful call of the store on the canonical ids.\<close>

lemma rpc_Transfer_Ret:
  assumes "rpc_Transfer parse m env user_id to_id amount key st = (Ret t, st')"
  obtains u to r n where "parse user_id = Some u" and "parse to_id = Some to"
    and "Transfer m env u to amount key (sv_db st) = (Ret r, n, sv_db st')" and "t = tx_toProto (res_Tx r)"
    and "transactionsTotal st' = inc (''TRANSFER'', result_label (Inr r)) (transactionsTotal st)"
  using assms that
  by (auto simp: rpc_Transfer_def parseUUID_def split: option.splits elim!: finish_money_Ret)

lemma rpc_Deposit_Ret:
  assumes "rpc_Deposit parse m env user_id amount key st = (Ret t, st')"
  obtains u r n where "parse user_id = Some u"
    and "Deposit m env u amount key (sv_db st) = (Ret r, n, sv_db st')" and "t = tx_toProto (res_Tx r)"
  using assms that
  by (auto simp: rpc_Deposit_def parseUUID_def split: option.splits elim!: finish_money_Ret)

lemma rpc_Transfer_steps:
  assumes B: "\<And>i. BeginFunc_doc store_steps (re_begin env i)" and inv: "wallet_inv (sv_db st)"
    and run: "rpc_Transfer parse m env user_id to_id amount key st = (out, st')"
  shows "store_steps (sv_db st) (sv_db st')"
proof (cases "st' = st \<or> sv_db st' = sv_db st")
  case True
  then show ?thesis by (auto simp: store_steps_def)
next
  case False
  with run obtain u to where "finish_money ''TRANSFER'' ''transfer''
      (Transfer m env u to amount key (sv_db st)) st = (out, st')"
    by (auto simp: rpc_Transfer_def parseUUID_def split: option.splits)
  moreover obtain o' n d' where call: "Transfer m env u to amount key (sv_db st) = (o', n, d')"
    using prod_cases3 by blast
  ultimately have "sv_db st' = d'" by (simp add: finish_money_db)
  with trf.call_step [OF B inv call [unfolded Transfer_def]] show ?thesis by simp
qed

lemma rpc_Deposit_steps:
  assumes B: "\<And>i. BeginFunc_doc store_steps (re_begin env i)" and inv: "wallet_inv (sv_db st)"
    and run: "rpc_Deposit parse m env user_id amount key st = (out, st')"
  shows "store_steps (sv_db st) (sv_db st')"
proof (cases "st' = st \<or> sv_db st' = sv_db st")
  case True
  then show ?thesis by (auto simp: store_steps_def)
next
  case False
  with run obtain u where "finish_money ''DEPOSIT'' ''deposit''
      (Deposit m env u amount key (sv_db st)) st = (out, st')"
    by (auto simp: rpc_Deposit_def parseUUID_def split: option.splits)
  moreover obtain o' n d' where call: "Deposit m env u amount key (sv_db st) = (o', n, d')"
    using prod_cases3 by blast
  ultimately have "sv_db st' = d'" by (simp add: finish_money_db)
  with dep.call_step [OF B inv call [unfolded Deposit_def]] show ?thesis by simp
qed

lemma rpc_CreateWallet_Ret:
  assumes "rpc_CreateWallet parse fault gen now user_id st = (Ret w, st')"
  obtains u x where "parse user_id = Some u"
    and "CreateWallet fault gen now u (sv_db st) = (Inr x, sv_db st')" and "w = wallet_toProto x"
proof -
  from assms obtain u where u: "parse user_id = Some u"
    by (auto simp: rpc_CreateWallet_def parseUUID_def split: option.splits)
  obtain res d' where c: "CreateWallet fault gen now u (sv_db st) = (res, d')" by fastforce
  with assms u show thesis
    by (cases res) (auto simp: rpc_CreateWallet_def parseUUID_def dest: fail_status_Err intro: that)
qed

lemma rpc_CreateWallet_steps:
  assumes run: "rpc_CreateWallet parse fault gen now user_id st = (out, st')"
  shows "store_steps (sv_db st) (sv_db st')"
proof (cases "parse user_id")
  case None
  with run show ?thesis by (auto simp: rpc_CreateWallet_def parseUUID_def store_steps_def)
next
  case (Some u)
  obtain res d' where c: "CreateWallet fault gen now u (sv_db st) = (res, d')" by fastforce
  then have "store_steps (sv_db st) d'" by (blast intro: store_steps_single store_step.create)
  moreover have "sv_db st' = d'"
    using run c Some
    by (cases res) (auto simp: rpc_CreateWallet_def parseUUID_def dest!: fail_status_Err)
  ultimately show ?thesis by simp
qed

lemma rpc_GetWallet_db:
  assumes "rpc_GetWallet parse fault user_id st = (out, st')"
  shows "sv_db st' = sv_db st"
  using assms by (auto simp: rpc_GetWallet_def parseUUID_def split: option.splits sum.splits dest!: fail_status_Err)

lemma rpc_GetWallet_Ret:
  assumes "rpc_GetWallet parse fault user_id st = (Ret w, st')"
  obtains u r where "parse user_id = Some u" and "select_wallet_by_user u (sv_db st) = Some r"
    and "w = wallet_toProto (walletColumns r)"
  using assms that
  by (auto simp: rpc_GetWallet_def parseUUID_def GetWalletByUser_def stmt_inr
      split: option.splits sum.splits dest!: fail_status_Err)

section \<open>A user keeps the wallet\<close>

definition wallet_kept :: "uuid \<Rightarrow> db \<Rightarrow> db \<Rightarrow> bool" where
  "wallet_kept u d d' \<longleftrightarrow>
     (\<forall>r. select_wallet_by_user u d = Some r \<longrightarrow>
        (\<exists>r'. select_wallet_by_user u d' = Some r' \<and> wr_id r' = wr_id r))"

lemma wallet_kept_map:
  assumes "wallets d' = map h (wallets d)" and "\<And>r. wr_user_id (h r) = wr_user_id r \<and> wr_id (h r) = wr_id r"
  shows "wallet_kept u d d'"
proof -
  have "select_wallet_by_user u d' = map_option h (select_wallet_by_user u d)"
    unfolding select_wallet_by_user_def assms(1) by (rule find_map_inv) (simp add: assms(2))
  with assms(2) show ?thesis by (simp add: wallet_kept_def)
qed

lemma wallet_kept_same: "wallets d' = wallets d \<Longrightarrow> wallet_kept u d d'"
  by (simp add: wallet_kept_def select_wallet_by_user_def)

lemma store_step_wallet: "store_step d d' \<Longrightarrow> wallet_inv d \<Longrightarrow> wallet_kept u d d'"
proof (induction rule: store_step.induct)
  case (create fault gen now v d r d')
  from create(1) show ?case
    by (cases rule: CreateWallet_cases) (auto simp: wallet_kept_def select_wallet_by_user_def find_append)
next
  case (deposit v amount k h d r d')
  from deposit(2) have "schema_ok d" by (simp add: wallet_inv_def)
  from this deposit(1) show ?case
  proof (cases rule: Deposit_fn_Inr)
    case (moved w)
    have "wallets d' = map (\<lambda>x. if wr_id x = wr_id w then bump_row (h_now h) amount x else x) (wallets d)"
      by (simp add: moved(2) post_deposit_def bump_wallet_wallets)
    then show ?thesis by (rule wallet_kept_map) simp
  qed (simp add: wallet_kept_same)
next
  case (transfer v to amount k h d r d')
  from transfer(2) have "schema_ok d" by (simp add: wallet_inv_def)
  from this transfer(1) show ?case
  proof (cases rule: Transfer_fn_Inr)
    case (moved f t)
    then have "wr_id f \<noteq> wr_id t" by (simp add: transfer_moves_def)
    from post_transfer_wallets [OF this] show ?thesis
      unfolding moved(2) by (rule wallet_kept_map) simp
  qed (simp add: wallet_kept_same)
qed (auto simp: mark_published_def delete_published_def Let_def intro: wallet_kept_same)

lemma store_steps_wallet: "store_steps d d' \<Longrightarrow> wallet_inv d \<Longrightarrow> wallet_kept u d d'"
  unfolding store_steps_def
proof (induction rule: rtranclp_induct)
  case base
  then show ?case by (simp add: wallet_kept_def)
next
  case (step d1 d2)
  then have "wallet_inv d1" using store_steps_inv by (auto simp: store_steps_def)
  from store_step_wallet [OF step.hyps(2) this] step show ?case
    unfolding wallet_kept_def by (metis (no_types, lifting))
qed

section \<open>The contract of the wallet client\<close>

text \<open>
  What the gateway may rely on when it calls the wallet service.  The first argument of an
  operation is what the call meets (faults, draws, other requests); \<open>later\<close> is what may happen to
  the service between two calls, and \<open>owner u i\<close> says that \<open>i\<close> is the wallet of user \<open>u\<close>.
\<close>

locale wallet_client =
  fixes good :: "'s \<Rightarrow> bool" and later :: "'s \<Rightarrow> 's \<Rightarrow> bool"
    and owner :: "string \<Rightarrow> string \<Rightarrow> 's \<Rightarrow> bool" and usual :: "'c \<Rightarrow> bool"
    and create :: "'c \<Rightarrow> string \<Rightarrow> 's \<Rightarrow> (grpc_status, pb_Wallet) outcome \<times> 's"
    and get :: "'c \<Rightarrow> string \<Rightarrow> 's \<Rightarrow> (grpc_status, pb_Wallet) outcome \<times> 's"
    and send :: "'c \<Rightarrow> string \<Rightarrow> string \<Rightarrow> int \<Rightarrow> string \<Rightarrow> 's \<Rightarrow> (grpc_status, pb_Transaction) outcome \<times> 's"
  assumes later_refl: "later s s"
    and later_trans: "later s s1 \<Longrightarrow> later s1 s2 \<Longrightarrow> later s s2"
    and later_good: "later s s' \<Longrightarrow> good s \<Longrightarrow> good s'"
    and create_later: "good s \<Longrightarrow> create c u s = (out, s') \<Longrightarrow> later s s'"
    and get_later: "good s \<Longrightarrow> get c u s = (out, s') \<Longrightarrow> later s s'"
    and send_later: "good s \<Longrightarrow> usual c \<Longrightarrow> send c u to amount key s = (tout, s') \<Longrightarrow> later s s'"
    and create_owner: "good s \<Longrightarrow> create c u s = (Ret w, s') \<Longrightarrow> owner u (pw_Id w) s'"
    and get_owner: "good s \<Longrightarrow> get c u s = (Ret w, s') \<Longrightarrow> owner u (pw_Id w) s'"
    and owner_later: "later s s' \<Longrightarrow> good s \<Longrightarrow> owner u i s \<Longrightarrow> owner u i s'"
    and owner_unique: "owner u i s \<Longrightarrow> owner u j s \<Longrightarrow> i = j"
    and send_replays: "good s \<Longrightarrow> usual c \<Longrightarrow> usual c' \<Longrightarrow> send c u to amount key s = (Ret t, s1) \<Longrightarrow>
      later s1 s2 \<Longrightarrow> send c' u to amount key s2 = (Ret t', s3) \<Longrightarrow> t' = t"
begin

text \<open>The wallet a user was once told is the wallet the user is told ever after.\<close>

lemma owner_stable: "good s \<Longrightarrow> later s s' \<Longrightarrow> owner u i s \<Longrightarrow> owner u j s' \<Longrightarrow> j = i"
  using owner_later owner_unique by blast

end

definition server_good :: "server_state \<Rightarrow> bool" where
  "server_good st \<longleftrightarrow> wallet_inv (sv_db st)"

definition server_later :: "server_state \<Rightarrow> server_state \<Rightarrow> bool" where
  "server_later st st' \<longleftrightarrow> store_steps (sv_db st) (sv_db st')"

text \<open>The wallet of a user in the tables.\<close>

definition owns :: "uuid_parser \<Rightarrow> string \<Rightarrow> string \<Rightarrow> server_state \<Rightarrow> bool" where
  "owns parse user_id i st \<longleftrightarrow>
     (\<exists>u r. parse user_id = Some u \<and> select_wallet_by_user u (sv_db st) = Some r \<and> i = wr_id r)"

lemma create_owns:
  assumes "wallet_inv (sv_db st)" and "rpc_CreateWallet parse fault gen now user_id st = (Ret w, st')"
  shows "owns parse user_id (pw_Id w) st'"
proof -
  from assms(2) obtain u x where u: "parse user_id = Some u"
    and run: "CreateWallet fault gen now u (sv_db st) = (Inr x, sv_db st')" and w: "w = wallet_toProto x"
    by (rule rpc_CreateWallet_Ret)
  from run obtain r where r: "insert_wallet gen now u (sv_db st) = Inr (r, sv_db st')" "x = walletColumns r"
    by (auto simp: CreateWallet_def scanWallet_def split: option.splits sum.splits)
  have ok: "schema_ok (sv_db st')" using CreateWallet_inv [OF assms(1) run] by (simp add: wallet_inv_def)
  from insert_wallet_Inr [OF r(1)] select_user_row [OF ok, of r] u w r(2) show ?thesis
    by (auto simp: wallet_toProto_def owns_def)
qed

lemma get_owns:
  assumes "rpc_GetWallet parse fault user_id st = (Ret w, st')"
  shows "owns parse user_id (pw_Id w) st'"
proof -
  have "sv_db st' = sv_db st" using assms by (rule rpc_GetWallet_db)
  with assms show ?thesis by (auto simp: wallet_toProto_def owns_def elim!: rpc_GetWallet_Ret)
qed

lemma owns_later:
  assumes "server_later s s'" and "server_good s" and "owns parse user_id i s"
  shows "owns parse user_id i s'"
proof -
  from assms(3) obtain u r where "parse user_id = Some u" "select_wallet_by_user u (sv_db s) = Some r" "i = wr_id r"
    by (auto simp: owns_def)
  moreover have "wallet_kept u (sv_db s) (sv_db s')"
    using assms store_steps_wallet by (simp add: server_later_def server_good_def)
  ultimately show ?thesis by (force simp: owns_def wallet_kept_def)
qed

lemma rpc_transfers_agree:
  assumes B: "\<And>i. BeginFunc_doc store_steps (re_begin env i)" and B': "\<And>i. BeginFunc_doc store_steps (re_begin env' i)"
    and inv: "wallet_inv (sv_db st)" and ids: "parse u1 = parse u2" "parse t1 = parse t2"
    and first: "rpc_Transfer parse m env u1 t1 amount key st = (Ret t, st1)"
    and mid: "store_steps (sv_db st1) (sv_db st2)"
    and second: "rpc_Transfer parse m' env' u2 t2 amount key st2 = (Ret t', st3)"
  shows "t' = t \<and> transactionsTotal st3 = inc (''TRANSFER'', ''replayed'') (transactionsTotal st2)"
proof -
  from first obtain u to r n where
    a: "parse u1 = Some u" "parse t1 = Some to" "Transfer m env u to amount key (sv_db st) = (Ret r, n, sv_db st1)"
    "t = tx_toProto (res_Tx r)" by (rule rpc_Transfer_Ret)
  from second obtain u' to' r' n' where
    b: "parse u2 = Some u'" "parse t2 = Some to'"
    "Transfer m' env' u' to' amount key (sv_db st2) = (Ret r', n', sv_db st3)" "t' = tx_toProto (res_Tx r')"
    "transactionsTotal st3 = inc (''TRANSFER'', result_label (Inr r')) (transactionsTotal st2)"
    by (rule rpc_Transfer_Ret)
  from a b ids have "u' = u" "to' = to" by simp_all
  with b have "Transfer m' env' u to amount key (sv_db st2) = (Ret r', n', sv_db st3)" by simp
  from trf.calls_agree [OF B B' inv a(3) [unfolded Transfer_def] mid this [unfolded Transfer_def]] a(4) b(4,5)
  show ?thesis by (simp add: result_label_def)
qed

text \<open>The laws for the service, when \<open>pgx.BeginFunc\<close> behaves as documented.\<close>

definition doc_env :: "retry_env \<Rightarrow> bool" where
  "doc_env env \<longleftrightarrow> (\<forall>i. BeginFunc_doc store_steps (re_begin env i))"

definition doc_call :: "call_env \<Rightarrow> bool" where
  "doc_call c \<longleftrightarrow> doc_env (ce_retry c)"

lemma metricsInterceptor_eq:
  "metricsInterceptor meth h st = (out, st') \<Longrightarrow> \<exists>st1. h st = (out, st1) \<and> sv_db st1 = sv_db st'"
  by (auto simp: metricsInterceptor_def split: prod.splits option.splits)

lemma owns_db: "sv_db s = sv_db s' \<Longrightarrow> owns parse u i s = owns parse u i s'"
  by (simp add: owns_def)

interpretation wc: wallet_client server_good server_later "owns parse" doc_call
    "srv_CreateWallet parse" "srv_GetWallet parse" "srv_Transfer parse m" for parse m
proof (unfold_locales, goal_cases)
  case (1 s)
  then show ?case by (simp add: server_later_def store_steps_def)
next
  case (2 a b c)
  then show ?case by (auto simp: server_later_def store_steps_def)
next
  case (3 s s')
  then show ?case by (simp add: server_later_def server_good_def store_steps_inv)
next
  case (4 s c u out s')
  then show ?case
    by (auto simp: server_later_def srv_CreateWallet_def dest!: metricsInterceptor_eq rpc_CreateWallet_steps)
next
  case (5 s c u out s')
  then show ?case
    by (auto simp: server_later_def srv_GetWallet_def store_steps_def dest!: metricsInterceptor_eq rpc_GetWallet_db)
next
  case (6 s c u to amount key tout s')
  then obtain s1 where "rpc_Transfer parse m (ce_retry c) u to amount key s = (tout, s1)" "sv_db s1 = sv_db s'"
    by (auto simp: srv_Transfer_def dest!: metricsInterceptor_eq)
  from rpc_Transfer_steps [OF _ _ this(1)] this(2) 6 show ?case
    by (simp add: server_later_def server_good_def doc_call_def doc_env_def)
next
  case (7 s c u w s')
  then obtain s1 where s1: "rpc_CreateWallet parse (ce_fault c ''CreateWallet'') (ce_gen c) (ce_now c) u s = (Ret w, s1)"
    "sv_db s1 = sv_db s'" using metricsInterceptor_eq unfolding srv_CreateWallet_def by blast
  with 7(1) create_owns [OF _ s1(1)] owns_db [OF s1(2)] show ?case by (simp add: server_good_def)
next
  case (8 s c u w s')
  then obtain s1 where s1: "rpc_GetWallet parse (ce_fault c ''GetWallet'') u s = (Ret w, s1)" "sv_db s1 = sv_db s'"
    using metricsInterceptor_eq unfolding srv_GetWallet_def by blast
  with get_owns [OF s1(1)] owns_db [OF s1(2)] show ?case by simp
next
  case (9 s s' u i)
  then show ?case by (rule owns_later)
next
  case (10 u i s j)
  then show ?case by (auto simp: owns_def)
next
  case (11 s c c' u to amount key t s1 s2 t' s3)
  then obtain x where x: "rpc_Transfer parse m (ce_retry c) u to amount key s = (Ret t, x)" "sv_db x = sv_db s1"
    by (auto simp: srv_Transfer_def dest!: metricsInterceptor_eq)
  from 11 obtain y where y: "rpc_Transfer parse m (ce_retry c') u to amount key s2 = (Ret t', y)"
    by (auto simp: srv_Transfer_def dest!: metricsInterceptor_eq)
  have "store_steps (sv_db x) (sv_db s2)" using 11(5) x(2) by (simp add: server_later_def)
  from rpc_transfers_agree [OF _ _ _ refl refl x(1) this y] 11(1-3) show ?case
    by (simp add: doc_call_def doc_env_def server_good_def)
qed

section \<open>Statuses by the root of the error\<close>

lemma toStatus_root:
  "toStatus op err st =
     (case error_root err of
        ErrNotFound \<Rightarrow> (status_Error NotFound (error_text err), st)
      | ErrInsufficientFunds \<Rightarrow> (status_Error FailedPrecondition (error_text err), st)
      | ErrSameWallet \<Rightarrow> (status_Error InvalidArgument (error_text err), st)
      | ErrCurrencyMismatch \<Rightarrow> (status_Error InvalidArgument (error_text err), st)
      | ErrIdempotencyConflict \<Rightarrow> (status_Error AlreadyExists (error_text err), st)
      | ErrTooMuchContention \<Rightarrow> (status_Error Aborted (error_text err), st)
      | ContextCanceled \<Rightarrow> (status_Error DeadlineExceeded ''request cancelled or timed out'', st)
      | ContextDeadlineExceeded \<Rightarrow> (status_Error DeadlineExceeded ''request cancelled or timed out'', st)
      | _ \<Rightarrow> (status_Error Internal ''internal error'', st\<lparr>sv_log := sv_log st @ [(op, err)]\<rparr>))"
  unfolding toStatus_def by (simp only: errors_Is_root go_error.distinct not_False_eq_True) (simp split: go_error.split)

end
