(* ===== verification/ServerClaims.thy ===== *)
theory ServerClaims
  imports ServerProofs
begin

text \<open>The properties of the gRPC service.\<close>

section \<open>An example\<close>

definition demo_server :: server_state where
  "demo_server = \<lparr>sv_db = demo_db, transactionsTotal = (\<lambda>_. 0), lockRetries = (\<lambda>_. 0),
     grpcRequests = (\<lambda>_. 0), sv_log = []\<rparr>"

text \<open>A parser for the example: the texts that differ in case only are the same id.\<close>

definition fold_case :: uuid_parser where
  "fold_case s = Some (map (\<lambda>c. if c = CHR ''A'' then CHR ''a'' else c) s)"

text \<open>The example's transfer, made again: a replay.\<close>

lemma demo_transfer_again:
  assumes call: "Transfer 5 quiet_env ''ann'' ''wb'' 300 ''k9'' demo_db = (Ret demo_transfer_result, 0, d1)"
  shows "Transfer 5 quiet_env ''ann'' ''wb'' 300 ''k9'' d1 =
    (Ret \<lparr>res_Tx = res_Tx demo_transfer_result, res_Replayed = True\<rparr>, 0, d1)"
proof -
  from trf.call_records [OF quiet_env_doc demo_db_inv call [unfolded Transfer_def]] obtain x where
    "select_tx_by_key ''ann'' ''k9'' d1 = Some x" "is_transfer_of ''wb'' 300 x"
    "res_Tx demo_transfer_result = txColumns x" by blast
  then show ?thesis
    by (simp add: Transfer_def withRetries_def retry_loop.simps [of 5] run_tx_def Transfer_fn_def
        findByKey_def scan_no_fault is_transfer_of_def)
qed

lemma demo_rpc:
  "\<exists>t st1 st3. rpc_Transfer fold_case 5 quiet_env ''Ann'' ''wb'' 300 ''k9'' demo_server = (Ret t, st1) \<and>
     rpc_Transfer fold_case 5 quiet_env ''ann'' ''wb'' 300 ''k9'' st1 = (Ret t, st3)"
proof -
  obtain d1 where call: "Transfer 5 quiet_env ''ann'' ''wb'' 300 ''k9'' demo_db = (Ret demo_transfer_result, 0, d1)"
    using demo_transfer_call ..
  with demo_transfer_again [OF call] show ?thesis
    by (simp add: rpc_Transfer_def parseUUID_def fold_case_def validateMoney_def finish_money_def demo_server_def
        recordResult_def)
qed

section \<open>Properties of the service\<close>



text \<open>
  A transfer request with a malformed id, an amount that is not positive or a key that is
  empty or longer than 200 bytes is refused as \<open>InvalidArgument\<close>, and nothing happens: no
  database access, no counter, no log.
\<close>

theorem transfer_rejects_bad_input:
  assumes "parse user_id = None \<or> parse to_id = None \<or> amount \<le> 0 \<or> key = [] \<or> 200 < length key"
  shows "\<exists>msg. rpc_Transfer parse m env user_id to_id amount key st = (Err (status_Error InvalidArgument msg), st)"
proof -
  have "validateMoney amount key \<noteq> None \<longleftrightarrow> amount \<le> 0 \<or> key = [] \<or> 200 < length key"
    by (auto simp: validateMoney_def)
  with assms show ?thesis
    by (cases "parse user_id"; cases "parse to_id")
      (auto simp: rpc_Transfer_def parseUUID_def validateMoney_def)
qed

theorem transfer_rejects_bad_input_witness:
  "\<exists>msg. rpc_Transfer Some 10 quiet_env ''ann'' ''wb'' 0 ''k9'' demo_server =
     (Err (status_Error InvalidArgument msg), demo_server)"
  using transfer_rejects_bad_input [of Some "''ann''" "''wb''" 0 "''k9''"] by simp

text \<open>
  Idempotency at the service boundary: two transfer RPCs with the same key, the same
  amount and ids that are spellings of the same UUIDs, both answered, return the same
  transaction, and the second counts as replayed; between them anything may happen to the store.
\<close>

theorem rpc_transfer_idempotent:
  assumes "\<And>i. BeginFunc_doc store_steps (re_begin env i)" and "\<And>i. BeginFunc_doc store_steps (re_begin env' i)"
    and "wallet_inv (sv_db st)" and "parse u1 = parse u2" and "parse t1 = parse t2"
    and "rpc_Transfer parse m env u1 t1 amount key st = (Ret t, st1)"
    and "store_steps (sv_db st1) (sv_db st2)"
    and "rpc_Transfer parse m' env' u2 t2 amount key st2 = (Ret t', st3)"
  shows "t' = t \<and> transactionsTotal st3 = inc (''TRANSFER'', ''replayed'') (transactionsTotal st2)"
  using assms by (rule rpc_transfers_agree)

theorem rpc_transfer_idempotent_witness:
  "\<exists>t st1 st3. rpc_Transfer fold_case 5 quiet_env ''Ann'' ''wb'' 300 ''k9'' demo_server = (Ret t, st1) \<and>
     rpc_Transfer fold_case 5 quiet_env ''ann'' ''wb'' 300 ''k9'' st1 = (Ret t, st3) \<and>
     transactionsTotal st3 = inc (''TRANSFER'', ''replayed'') (transactionsTotal st1)"
proof -
  obtain t st1 st3 where
    a: "rpc_Transfer fold_case 5 quiet_env ''Ann'' ''wb'' 300 ''k9'' demo_server = (Ret t, st1)" and
    b: "rpc_Transfer fold_case 5 quiet_env ''ann'' ''wb'' 300 ''k9'' st1 = (Ret t, st3)"
    using demo_rpc by blast
  have "wallet_inv (sv_db demo_server)" by (simp add: demo_server_def demo_db_inv)
  from rpc_transfer_idempotent [OF quiet_env_doc quiet_env_doc this _ refl a _ b] a b show ?thesis
    by (auto simp: fold_case_def store_steps_def)
qed

end
