(* ===== verification/GoText.thy ===== *)
theory GoText
  imports GoTime
begin

text \<open>
  The string functions of Go's standard library that the services use: \<open>strings.TrimSpace\<close>,
  \<open>strings.Cut\<close>, \<open>strings.Split\<close> (its first element), \<open>net.SplitHostPort\<close>, \<open>hex.EncodeToString\<close>
  and \<open>strconv.Atoi\<close>.  A string is the list of its bytes.
\<close>

section \<open>Cutting and trimming\<close>

text \<open>\<open>before, after, found := strings.Cut(s, " ")\<close>.\<close>

fun cut_space :: "string \<Rightarrow> (string \<times> string) option" where
  "cut_space [] = None"
| "cut_space (c # s) =
     (if c = CHR '' '' then Some ([], s)
      else (case cut_space s of None \<Rightarrow> None | Some (a, b) \<Rightarrow> Some (c # a, b)))"

text \<open>\<open>strings.Split(s, ",")[0]\<close>.\<close>

definition split_comma_head :: "string \<Rightarrow> string" where
  "split_comma_head s = takeWhile (\<lambda>c. c \<noteq> CHR '','') s"

text \<open>The UTF-8 encodings of the characters \<open>unicode.IsSpace\<close> accepts.\<close>

definition bytes :: "nat list \<Rightarrow> string" where
  "bytes ns = map char_of ns"

definition spaces :: "string list" where
  "spaces = map bytes ([[9], [10], [11], [12], [13], [32], [194, 133], [194, 160], [225, 154, 128],
     [226, 128, 168], [226, 128, 169], [226, 128, 175], [226, 129, 159], [227, 128, 128]] @
     map (\<lambda>n. [226, 128, n]) [128..<139])"

function trim_prefixes :: "string list \<Rightarrow> string \<Rightarrow> string" where
  "trim_prefixes ps s =
     (case find (\<lambda>p. p \<noteq> [] \<and> take (length p) s = p) ps of
        None \<Rightarrow> s
      | Some p \<Rightarrow> if length p \<le> length s then trim_prefixes ps (drop (length p) s) else s)"
  by pat_completeness auto
termination
proof (relation "measure (\<lambda>(ps, s). length s)")
  fix ps :: "string list" and s p
  assume "find (\<lambda>p. p \<noteq> [] \<and> take (length p) s = p) ps = Some p" and le: "length p \<le> length s"
  then have "p \<noteq> []" by (auto dest: find_SomeD)
  then have "0 < length p" by simp
  with le have "length s - length p < length s" by linarith
  then show "((ps, drop (length p) s), ps, s) \<in> measure (\<lambda>(ps, s). length s)" by simp
qed simp

declare trim_prefixes.simps [simp del]

definition strings_TrimSpace :: "string \<Rightarrow> string" where
  "strings_TrimSpace s = rev (trim_prefixes (map rev spaces) (rev (trim_prefixes spaces s)))"

section \<open>Host and port\<close>

text \<open>The index of the first and of the last occurrence of a byte.\<close>

definition first_index :: "char \<Rightarrow> string \<Rightarrow> nat option" where
  "first_index c s = find (\<lambda>i. s ! i = c) [0..<length s]"

definition last_index :: "char \<Rightarrow> string \<Rightarrow> nat option" where
  "last_index c s = find (\<lambda>i. s ! i = c) (rev [0..<length s])"

text \<open>\<open>host, _, err := net.SplitHostPort(hostport)\<close>: the host, or nothing for an error.\<close>

definition split_host :: "string \<Rightarrow> string option" where
  "split_host s =
     (case last_index (CHR '':'') s of
        None \<Rightarrow> None
      | Some i \<Rightarrow>
          if s ! 0 = CHR ''[''
          then (case first_index (CHR '']'') s of
                  None \<Rightarrow> None
                | Some e \<Rightarrow>
                    if Suc e \<noteq> i then None
                    else if CHR ''['' \<in> set (drop 1 s) \<or> CHR '']'' \<in> set (drop (Suc e) s) then None
                    else Some (take (e - 1) (drop 1 s)))
          else if CHR '':'' \<in> set (take i s) \<or> CHR ''['' \<in> set s \<or> CHR '']'' \<in> set s then None
          else Some (take i s))"

section \<open>Hexadecimal text\<close>

definition hex_digits :: string where "hex_digits = ''0123456789abcdef''"

definition hex_EncodeToString :: "string \<Rightarrow> string" where
  "hex_EncodeToString b =
     concat (map (\<lambda>c. let n = (of_char c :: nat) in [hex_digits ! (n div 16), hex_digits ! (n mod 16)]) b)"

section \<open>Integers from text\<close>

text \<open>
  \<open>strconv.Atoi\<close> for a 64-bit \<open>int\<close>: an optional sign, at least one decimal digit, nothing
  else, and a value in range.
\<close>

definition digit_value :: "char \<Rightarrow> int" where
  "digit_value c = int (of_char c) - 48"

definition is_digit :: "char \<Rightarrow> bool" where
  "is_digit c \<longleftrightarrow> 0 \<le> digit_value c \<and> digit_value c \<le> 9"

definition digits_value :: "string \<Rightarrow> int" where
  "digits_value s = foldl (\<lambda>n c. n * 10 + digit_value c) 0 s"

definition unsigned_value :: "string \<Rightarrow> int option" where
  "unsigned_value s = (if s \<noteq> [] \<and> list_all is_digit s then Some (digits_value s) else None)"

definition strconv_Atoi :: "string \<Rightarrow> int option" where
  "strconv_Atoi s =
     (case (case s of
              [] \<Rightarrow> None
            | c # cs \<Rightarrow>
                if c = CHR ''-'' then map_option uminus (unsigned_value cs)
                else if c = CHR ''+'' then unsigned_value cs
                else unsigned_value s) of
        None \<Rightarrow> None
      | Some n \<Rightarrow> if in_int64 n then Some n else None)"

lemma digit_char_value: "digit_value (digit_char n) = n mod 10" "is_digit (digit_char n)"
proof -
  have "0 \<le> n mod 10" "n mod 10 < 10" by simp_all
  then have "n mod 10 = 0 \<or> n mod 10 = 1 \<or> n mod 10 = 2 \<or> n mod 10 = 3 \<or> n mod 10 = 4 \<or>
      n mod 10 = 5 \<or> n mod 10 = 6 \<or> n mod 10 = 7 \<or> n mod 10 = 8 \<or> n mod 10 = 9" by presburger
  then show v: "digit_value (digit_char n) = n mod 10"
    by (elim disjE) (simp_all add: digit_char_def digits_def digit_value_def)
  then show "is_digit (digit_char n)" by (simp add: is_digit_def)
qed

lemma digits_value_snoc: "digits_value (s @ [c]) = digits_value s * 10 + digit_value c"
  by (simp add: digits_value_def)

lemma dec_text_value: "0 \<le> n \<Longrightarrow> digits_value (dec_text n) = n \<and> list_all is_digit (dec_text n)"
proof (induction n rule: dec_text.induct)
  case (1 n)
  show ?case
  proof (cases "n < 10")
    case True
    with 1 show ?thesis
      by (simp add: dec_text.simps [of n] digits_value_def digit_char_value)
  next
    case False
    then have "0 \<le> n div 10" by simp
    with 1 False show ?thesis
      by (simp add: dec_text.simps [of n] digits_value_snoc digit_char_value list_all_append)
  qed
qed

lemma unsigned_dec_text: "0 \<le> n \<Longrightarrow> unsigned_value (dec_text n) = Some n"
  using dec_text_value by (simp add: unsigned_value_def)

text \<open>The decimal text of an integer reads back as that integer.\<close>

lemma Atoi_Itoa: "in_int64 k \<Longrightarrow> strconv_Atoi (strconv_Itoa k) = Some k"
proof (cases "k < 0")
  case True
  then have "unsigned_value (dec_text (- k)) = Some (- k)" by (simp add: unsigned_dec_text)
  moreover assume "in_int64 k"
  ultimately show ?thesis using True by (simp add: strconv_Atoi_def strconv_Itoa_def)
next
  case False
  then have v: "unsigned_value (dec_text k) = Some k" by (simp add: unsigned_dec_text)
  assume rng: "in_int64 k"
  obtain c cs where t: "dec_text k = c # cs" by (cases "dec_text k") simp_all
  have "is_digit c" using False dec_text_value [of k] t by simp
  then have "c \<noteq> CHR ''-''" "c \<noteq> CHR ''+''" by (auto simp: is_digit_def digit_value_def)
  with False t v rng show ?thesis by (simp add: strconv_Atoi_def strconv_Itoa_def)
qed

lemma split_host_plain:
  assumes "CHR '':'' \<notin> set h" and "CHR ''['' \<notin> set h" and "CHR '']'' \<notin> set h" and "h \<noteq> []"
    and "CHR '':'' \<notin> set p" and "CHR ''['' \<notin> set p" and "CHR '']'' \<notin> set p"
  shows "split_host (h @ CHR '':'' # p) = Some h"
proof -
  let ?s = "h @ CHR '':'' # p"
  have none: "find (\<lambda>i. ?s ! i = CHR '':'') (rev [Suc (length h)..<length ?s]) = None"
  proof -
    have "?s ! i \<noteq> CHR '':''" if "Suc (length h) \<le> i" "i < length ?s" for i
    proof -
      have "?s ! i = p ! (i - Suc (length h))" using that by (simp add: nth_append nth_Cons')
      moreover have "i - Suc (length h) < length p" using that by simp
      ultimately show ?thesis using assms(5) nth_mem by metis
    qed
    then show ?thesis unfolding find_None_all by (auto simp del: upt_Suc)
  qed
  have "[0..<length ?s] = [0..<length h] @ [length h..<length ?s]"
    using upt_add_eq_append [of 0 "length h" "length ?s - length h"] by simp
  then have "[0..<length ?s] = [0..<length h] @ length h # [Suc (length h)..<length ?s]"
    by (simp add: upt_conv_Cons del: upt_Suc)
  then have "last_index (CHR '':'') ?s = Some (length h)"
    using none by (simp add: last_index_def find_append del: upt_Suc)
  moreover have "?s ! 0 \<noteq> CHR ''[''" using assms by (cases h) auto
  ultimately show ?thesis using assms by (simp add: split_host_def)
qed

section \<open>Nothing to trim\<close>

text \<open>A printable ASCII byte neither starts nor ends the encoding of a space.\<close>

definition printable :: "char \<Rightarrow> bool" where
  "printable c \<longleftrightarrow> 33 \<le> (of_char c :: nat) \<and> (of_char c :: nat) < 128"

lemma spaces_codes: "p \<in> set spaces \<Longrightarrow> p \<noteq> [] \<and> \<not> printable (hd p) \<and> \<not> printable (last p)"
  by (auto simp: spaces_def bytes_def printable_def)

lemma trim_plain:
  assumes "\<And>p. p \<in> set ps \<Longrightarrow> p \<noteq> [] \<and> \<not> printable (hd p)" and "printable c"
  shows "trim_prefixes ps (c # s) = c # s"
proof -
  have "hd p = c" if "p \<noteq> []" "take (length p) (c # s) = p" for p
    using that by (cases p) auto
  then have "find (\<lambda>p. p \<noteq> [] \<and> take (length p) (c # s) = p) ps = None"
    using assms by (auto simp: find_None_iff)
  then show ?thesis by (simp add: trim_prefixes.simps [of ps "c # s"])
qed

lemma TrimSpace_plain:
  assumes "s \<noteq> []" and "printable (hd s)" and "printable (last s)"
  shows "strings_TrimSpace s = s"
proof -
  have "trim_prefixes spaces s = s" using assms spaces_codes trim_plain [of spaces "hd s" "tl s"] by simp
  moreover have "trim_prefixes (map rev spaces) (rev s) = rev s"
  proof -
    obtain c t where t: "rev s = c # t" using assms(1) by (cases "rev s") auto
    then have "c = last s" by (metis hd_rev list.sel(1))
    with assms(3) show ?thesis
      unfolding t by (intro trim_plain) (use spaces_codes in \<open>auto simp: hd_rev\<close>)
  qed
  ultimately show ?thesis by (simp add: strings_TrimSpace_def)
qed

end
