(* ===== verification/Http.thy ===== *)
theory Http
  imports WalletServer GoText
begin

text \<open>
  The HTTP plumbing of the gateway: \<open>services/gateway/httpx.go\<close>, the JSON shapes and the status
  mapping of \<open>services/gateway/walletclient.go\<close>, and the state the handlers share.

  A response writer keeps the headers, every status passed to \<open>WriteHeader\<close> (the first one is
  sent, the \<open>statusRecorder\<close> keeps the last one) and the bodies written.  What the gateway
  takes from third parties and from the server (JWT, bcrypt, Redis, PostgreSQL's draws, the
  wallet client) are fields of \<open>api\<close>; so are the JSON decoder and the e-mail parser.
\<close>

section \<open>Requests and responses\<close>

record http_request =
  hr_Method :: string
  hr_Path :: "string list"
  hr_Header :: "string \<Rightarrow> string"
  hr_RemoteAddr :: string
  hr_Body :: string
  hr_user :: "string option"

record writer =
  hw_header :: "string \<rightharpoonup> string"
  hw_calls :: "int list"
  hw_body :: "json list"

definition new_writer :: writer where
  "new_writer = \<lparr>hw_header = Map.empty, hw_calls = [], hw_body = []\<rparr>"

definition set_header :: "string \<Rightarrow> string \<Rightarrow> writer \<Rightarrow> writer" where
  "set_header k v w = w\<lparr>hw_header := (hw_header w)(k \<mapsto> v)\<rparr>"

definition WriteHeader :: "int \<Rightarrow> writer \<Rightarrow> writer" where
  "WriteHeader code w = w\<lparr>hw_calls := hw_calls w @ [code]\<rparr>"

text \<open>The status sent to the client, and the one the \<open>statusRecorder\<close> holds.\<close>

definition sent_status :: "writer \<Rightarrow> int" where
  "sent_status w = (case hw_calls w of [] \<Rightarrow> 200 | c # cs \<Rightarrow> c)"

definition recorded_status :: "writer \<Rightarrow> int" where
  "recorded_status w = (if hw_calls w = [] then 200 else last (hw_calls w))"

definition writeJSON :: "int \<Rightarrow> json \<Rightarrow> writer \<Rightarrow> writer" where
  "writeJSON code body w =
     (let w1 = WriteHeader code (set_header ''Content-Type'' ''application/json'' w)
      in w1\<lparr>hw_body := hw_body w1 @ [body]\<rparr>)"

definition writeError :: "int \<Rightarrow> string \<Rightarrow> writer \<Rightarrow> writer" where
  "writeError code msg w = writeJSON code (JObj [(''error'', JStr msg)]) w"

section \<open>The gateway's state and what it depends on\<close>

record user_row =
  us_id :: uuid
  us_email :: string
  us_password_hash :: string
  us_created_at :: timestamp

record claims =
  cl_Subject :: string
  cl_IssuedAt :: int
  cl_ExpiresAt :: int

record ('r, 's) gateway =
  gw_redis :: 'r
  gw_users :: "user_row list"
  gw_wallet :: 's
  gw_rateLimited :: "string \<Rightarrow> nat"
  gw_httpRequests :: "string \<times> string \<times> string \<Rightarrow> nat"
  gw_log :: "string list"

type_synonym ('a, 's) client_call = "'s \<Rightarrow> (grpc_status + 'a) \<times> 's"

record ('r, 's) api =
  api_secret :: string
  api_ttl :: duration
  api_now :: timestamp
  jwt_sign :: "string \<Rightarrow> claims \<Rightarrow> go_error + string"
  jwt_parse :: "string \<Rightarrow> timestamp \<Rightarrow> string \<Rightarrow> go_error + claims"
  bcrypt_generate :: "string \<Rightarrow> go_error + string"
  bcrypt_compare :: "string \<Rightarrow> string \<Rightarrow> bool"
  mail_ParseAddress :: "string \<Rightarrow> bool"
  unicode_ToLower :: "string \<Rightarrow> string"
  decode_credentials :: "string \<Rightarrow> (string \<times> string) option"
  decode_amount :: "string \<Rightarrow> int option"
  decode_transfer :: "string \<Rightarrow> (string \<times> int) option"
  redis_exec :: "string \<Rightarrow> 'r \<Rightarrow> (go_error + int) \<times> 'r"
  db_fault :: "go_error option"
  db_gen :: uuid
  wc_CreateWallet :: "string \<Rightarrow> (pb_Wallet, 's) client_call"
  wc_GetWallet :: "string \<Rightarrow> (pb_Wallet, 's) client_call"
  wc_Deposit :: "string \<Rightarrow> int \<Rightarrow> string \<Rightarrow> (pb_Transaction, 's) client_call"
  wc_Transfer :: "string \<Rightarrow> string \<Rightarrow> int \<Rightarrow> string \<Rightarrow> (pb_Transaction, 's) client_call"
  wc_GetTransaction :: "string \<Rightarrow> string \<Rightarrow> (pb_Transaction, 's) client_call"

type_synonym ('r, 's) handler =
  "http_request \<Rightarrow> writer \<times> ('r, 's) gateway \<Rightarrow> writer \<times> ('r, 's) gateway"

definition log_line :: "string \<Rightarrow> ('r, 's) gateway \<Rightarrow> ('r, 's) gateway" where
  "log_line msg g = g\<lparr>gw_log := gw_log g @ [msg]\<rparr>"

section \<open>Helpers of \<open>httpx.go\<close>\<close>

text \<open>
  \<open>readJSON\<close>: the decoder sees at most 10KB of the body and reads one JSON value from them.
\<close>

definition readJSON :: "(string \<Rightarrow> 'a option) \<Rightarrow> http_request \<Rightarrow> writer \<Rightarrow> writer + 'a" where
  "readJSON decode r w =
     (case decode (take 10240 (hr_Body r)) of
        None \<Rightarrow> Inl (writeError 400 ''invalid JSON body'' w)
      | Some v \<Rightarrow> Inr v)"

definition clientIP :: "bool \<Rightarrow> http_request \<Rightarrow> string" where
  "clientIP trustProxy r =
     (if trustProxy \<and> hr_Header r ''X-Forwarded-For'' \<noteq> []
      then strings_TrimSpace (split_comma_head (hr_Header r ''X-Forwarded-For''))
      else (case split_host (hr_RemoteAddr r) of None \<Rightarrow> hr_RemoteAddr r | Some h \<Rightarrow> h))"

definition newRequestID :: "string \<Rightarrow> string" where
  "newRequestID rnd = hex_EncodeToString rnd"

text \<open>
  \<open>observe\<close>: \<open>pattern\<close> is the route the mux matched, \<open>rnd\<close> the eight random bytes.  The
  histogram of durations is left out.
\<close>

definition observe ::
    "string \<Rightarrow> string \<Rightarrow> ('r, 's) handler \<Rightarrow> ('r, 's) handler" where
  "observe rnd pattern next r =
     (\<lambda>(w, g).
        let reqID = (if hr_Header r ''X-Request-Id'' = [] then newRequestID rnd
                     else hr_Header r ''X-Request-Id'');
            (w', g') = next r (set_header ''X-Request-Id'' reqID w, g);
            route = (if pattern = [] \<or> pattern = ''/'' then ''unmatched'' else pattern);
            label = (hr_Method r, route, strconv_Itoa (recorded_status w'))
        in (w', log_line ''request'' (g'\<lparr>gw_httpRequests := inc label (gw_httpRequests g')\<rparr>)))"

section \<open>Helpers of \<open>walletclient.go\<close>\<close>

definition status_Code :: "grpc_status + 'a \<Rightarrow> grpc_code" where
  "status_Code r = (case r of Inl s \<Rightarrow> st_code s | Inr _ \<Rightarrow> OK)"

fun httpStatusFor :: "grpc_code \<Rightarrow> int" where
  "httpStatusFor InvalidArgument = 400"
| "httpStatusFor NotFound = 404"
| "httpStatusFor AlreadyExists = 409"
| "httpStatusFor Aborted = 409"
| "httpStatusFor FailedPrecondition = 422"
| "httpStatusFor Unavailable = 503"
| "httpStatusFor DeadlineExceeded = 504"
| "httpStatusFor _ = 500"

definition toWalletJSON :: "pb_Wallet \<Rightarrow> json" where
  "toWalletJSON w = JObj
     [(''id'', JStr (pw_Id w)), (''userId'', JStr (pw_UserId w)),
      (''balanceCents'', JNum (pw_BalanceCents w)), (''currency'', JStr (pw_Currency w)),
      (''version'', JNum (pw_Version w)), (''createdAt'', JStr (pw_CreatedAt w))]"

text \<open>\<open>fromWalletId,omitempty\<close>: the field is left out for a deposit.\<close>

definition toTransactionJSON :: "pb_Transaction \<Rightarrow> json" where
  "toTransactionJSON t = JObj
     ([(''id'', JStr (pt_Id t)), (''kind'', JStr (pt_Kind t))] @
      (if pt_FromWalletId t = [] then [] else [(''fromWalletId'', JStr (pt_FromWalletId t))]) @
      [(''toWalletId'', JStr (pt_ToWalletId t)), (''amountCents'', JNum (pt_AmountCents t)),
       (''status'', JStr (pt_Status t)), (''idempotencyKey'', JStr (pt_IdempotencyKey t)),
       (''createdAt'', JStr (pt_CreatedAt t))])"

text \<open>
  What a gRPC client sees of a method.  The deadline of \<open>callCtx\<close>, a broken connection or a
  crashed server may take the request or the answer: then the client has a status of its own,
  and only in the second case the method ran.
\<close>

datatype network = Delivered | RequestLost grpc_status | AnswerLost grpc_status

definition grpc_call :: "network \<Rightarrow> ('s \<Rightarrow> (grpc_status, 'a) outcome \<times> 's) \<Rightarrow> ('a, 's) client_call" where
  "grpc_call net handler st =
     (case net of
        RequestLost s \<Rightarrow> (Inl s, st)
      | AnswerLost s \<Rightarrow> (Inl s, snd (handler st))
      | Delivered \<Rightarrow>
          (case handler st of
             (Ret x, st') \<Rightarrow> (Inr x, st')
           | (Err s, st') \<Rightarrow> (Inl s, st')
           | (Panic m, st') \<Rightarrow> (Inl (status_Error Unavailable m), st')))"

text \<open>The gateway's client connected to the wallet service, for one request.\<close>

definition wallet_api ::
    "uuid_parser \<Rightarrow> int \<Rightarrow> call_env \<Rightarrow> (string \<Rightarrow> network) \<Rightarrow> ('r, server_state) api \<Rightarrow> ('r, server_state) api" where
  "wallet_api parse m c net a = a\<lparr>
     wc_CreateWallet := \<lambda>u. grpc_call (net ''CreateWallet'') (srv_CreateWallet parse c u),
     wc_GetWallet := \<lambda>u. grpc_call (net ''GetWallet'') (srv_GetWallet parse c u),
     wc_Deposit := \<lambda>u amount key. grpc_call (net ''Deposit'') (srv_Deposit parse m c u amount key),
     wc_Transfer := \<lambda>u to amount key. grpc_call (net ''Transfer'') (srv_Transfer parse m c u to amount key),
     wc_GetTransaction := \<lambda>u i. grpc_call (net ''GetTransaction'') (srv_GetTransaction parse c u i)\<rparr>"

lemma writeError_calls [simp]: "hw_calls (writeError c m w) = hw_calls w @ [c]"
  by (simp add: writeError_def writeJSON_def WriteHeader_def set_header_def Let_def)

lemma writeJSON_calls [simp]: "hw_calls (writeJSON c b w) = hw_calls w @ [c]"
  by (simp add: writeJSON_def WriteHeader_def set_header_def Let_def)

lemma set_header_calls [simp]: "hw_calls (set_header k v w) = hw_calls w" "hw_body (set_header k v w) = hw_body w"
  by (simp_all add: set_header_def)

lemma writeJSON_body [simp]: "hw_body (writeJSON c b w) = hw_body w @ [b]"
  "hw_body (writeError c m w) = hw_body w @ [JObj [(''error'', JStr m)]]"
  by (simp_all add: writeJSON_def writeError_def WriteHeader_def set_header_def Let_def)

lemma new_writer_simps [simp]: "hw_calls new_writer = []" "hw_body new_writer = []"
  by (simp_all add: new_writer_def)

lemma log_line_simps [simp]:
  "gw_redis (log_line m g) = gw_redis g" "gw_users (log_line m g) = gw_users g"
  "gw_wallet (log_line m g) = gw_wallet g" "gw_rateLimited (log_line m g) = gw_rateLimited g"
  "gw_httpRequests (log_line m g) = gw_httpRequests g"
  by (simp_all add: log_line_def)

end
