(* ===== verification/RateLimit.thy ===== *)
theory RateLimit
  imports Http
begin

text \<open>
  \<open>services/gateway/ratelimit.go\<close>: a fixed-window counter in Redis.  The pipeline
  \<open>INCR key; EXPIRE key 70s\<close> is the field \<open>redis_exec\<close> of \<open>api\<close>; its documented behaviour is
  \<open>TxPipeline_doc\<close>, stated with the value \<open>hits\<close> that the counter of a key has (zero when the key
  is absent).
\<close>

section \<open>The limiter\<close>

definition unix_seconds :: "timestamp \<Rightarrow> int" where
  "unix_seconds t = t div 1000000000"

text \<open>Go's integer division and remainder truncate towards zero.\<close>

definition go_div :: "int \<Rightarrow> int \<Rightarrow> int" where
  "go_div a b = (if a < 0 then - (- a div b) else a div b)"

definition go_mod :: "int \<Rightarrow> int \<Rightarrow> int" where
  "go_mod a b = a - go_div a b * b"

text \<open>\<open>fmt.Sprintf("rl:%s:%s:%d", bucket, keyFn(r), window)\<close>.\<close>

definition rate_key :: "string \<Rightarrow> string \<Rightarrow> int \<Rightarrow> string" where
  "rate_key bucket who window = ''rl:'' @ bucket @ '':'' @ who @ '':'' @ strconv_Itoa window"

definition limit ::
    "('r, 's) api \<Rightarrow> string \<Rightarrow> int \<Rightarrow> (http_request \<Rightarrow> string) \<Rightarrow> ('r, 's) handler \<Rightarrow> ('r, 's) handler" where
  "limit a bucket perMinute keyFn next r =
     (\<lambda>(w, g).
        let key = rate_key bucket (keyFn r) (go_div (unix_seconds (api_now a)) 60) in
        (case redis_exec a key (gw_redis g) of
           (Inl err, redis') \<Rightarrow>
             next r (w, log_line ''rate limiter unavailable, allowing request'' (g\<lparr>gw_redis := redis'\<rparr>))
         | (Inr count, redis') \<Rightarrow>
             let w1 = set_header ''X-RateLimit-Remaining'' (strconv_Itoa (max 0 (perMinute - count)))
                        (set_header ''X-RateLimit-Limit'' (strconv_Itoa perMinute) w);
                 g1 = g\<lparr>gw_redis := redis'\<rparr>
             in if perMinute < count
                then (writeError 429 ''rate limit exceeded''
                        (set_header ''Retry-After''
                           (strconv_Itoa (60 - go_mod (unix_seconds (api_now a)) 60)) w1),
                      g1\<lparr>gw_rateLimited := inc bucket (gw_rateLimited g1)\<rparr>)
                else next r (w1, g1)))"

section \<open>What Redis promises\<close>

definition TxPipeline_doc :: "(string \<Rightarrow> 'r \<Rightarrow> (go_error + int) \<times> 'r) \<Rightarrow> (string \<Rightarrow> 'r \<Rightarrow> int) \<Rightarrow> bool" where
  "TxPipeline_doc exec hits \<longleftrightarrow>
     (\<forall>k s. (\<forall>k'. k' \<noteq> k \<longrightarrow> hits k' (snd (exec k s)) = hits k' s) \<and> hits k s \<le> hits k (snd (exec k s)) \<and>
        (case fst (exec k s) of
           Inr n \<Rightarrow> n = hits k s + 1 \<and> hits k (snd (exec k s)) = n
         | Inl e \<Rightarrow> True))"

text \<open>Whether the limiter lets a request through, and whether it does so without Redis.\<close>

definition counted :: "('r, 's) api \<Rightarrow> string \<Rightarrow> (http_request \<Rightarrow> string) \<Rightarrow> http_request \<Rightarrow> 'r \<Rightarrow> int option" where
  "counted a bucket keyFn r redis =
     (case fst (redis_exec a (rate_key bucket (keyFn r) (go_div (unix_seconds (api_now a)) 60)) redis) of
        Inl e \<Rightarrow> None | Inr n \<Rightarrow> Some n)"

definition admits ::
    "('r, 's) api \<Rightarrow> string \<Rightarrow> int \<Rightarrow> (http_request \<Rightarrow> string) \<Rightarrow> http_request \<Rightarrow> 'r \<Rightarrow> bool" where
  "admits a bucket perMinute keyFn r redis =
     (case counted a bucket keyFn r redis of None \<Rightarrow> True | Some n \<Rightarrow> n \<le> perMinute)"

text \<open>
  A series of requests of any clients, served one after the other by any pods (each with its
  own \<open>api\<close> value): for each, the client and the minute it is counted under, and whether Redis
  answered and the request reached its handler.  The limiter calls its handler when, around a
  handler that writes nothing, nothing is written.
\<close>

definition reached :: "('r, 's) api \<Rightarrow> string \<Rightarrow> int \<Rightarrow> (http_request \<Rightarrow> string) \<Rightarrow> http_request \<Rightarrow> ('r, 's) gateway \<Rightarrow> bool" where
  "reached a bucket perMinute keyFn r g \<longleftrightarrow>
     hw_calls (fst (limit a bucket perMinute keyFn (\<lambda>r p. p) r (new_writer, g))) = []"

definition window_of :: "('r, 's) api \<Rightarrow> int" where
  "window_of a = go_div (unix_seconds (api_now a)) 60"

fun admitted_run ::
    "string \<Rightarrow> int \<Rightarrow> (http_request \<Rightarrow> string) \<Rightarrow> (('r, 's) api \<Rightarrow> ('r, 's) handler) \<Rightarrow>
     (('r, 's) api \<times> http_request) list \<Rightarrow> ('r, 's) gateway \<Rightarrow> ((string \<times> int) \<times> bool) list" where
  "admitted_run bucket perMinute keyFn h [] g = []"
| "admitted_run bucket perMinute keyFn h ((a, r) # rs) g =
     ((keyFn r, window_of a),
      counted a bucket keyFn r (gw_redis g) \<noteq> None \<and> reached a bucket perMinute keyFn r g) #
     admitted_run bucket perMinute keyFn h rs (snd (limit a bucket perMinute keyFn (h a) r (new_writer, g)))"

section \<open>Lemmas\<close>

lemma limit_admits:
  "limit a bucket perMinute keyFn next r (w, g) =
     (let key = rate_key bucket (keyFn r) (go_div (unix_seconds (api_now a)) 60);
          g1 = g\<lparr>gw_redis := snd (redis_exec a key (gw_redis g))\<rparr>
      in case counted a bucket keyFn r (gw_redis g) of
           None \<Rightarrow> next r (w, log_line ''rate limiter unavailable, allowing request'' g1)
         | Some n \<Rightarrow>
             let w1 = set_header ''X-RateLimit-Remaining'' (strconv_Itoa (max 0 (perMinute - n)))
                        (set_header ''X-RateLimit-Limit'' (strconv_Itoa perMinute) w)
             in if admits a bucket perMinute keyFn r (gw_redis g) then next r (w1, g1)
                else (writeError 429 ''rate limit exceeded''
                        (set_header ''Retry-After''
                           (strconv_Itoa (60 - go_mod (unix_seconds (api_now a)) 60)) w1),
                      g1\<lparr>gw_rateLimited := inc bucket (gw_rateLimited g1)\<rparr>))"
  unfolding limit_def counted_def admits_def Let_def
  by (cases "redis_exec a (rate_key bucket (keyFn r) (go_div (unix_seconds (api_now a)) 60)) (gw_redis g)")
    (auto split: sum.split)

lemma reached_admits: "reached a bucket perMinute keyFn r g \<longleftrightarrow> admits a bucket perMinute keyFn r (gw_redis g)"
  by (simp add: reached_def limit_admits Let_def admits_def split: option.split)

lemma TxPipeline_docD:
  assumes "TxPipeline_doc exec hits"
  shows "k' \<noteq> k \<Longrightarrow> hits k' (snd (exec k s)) = hits k' s" and "hits k s \<le> hits k (snd (exec k s))"
    and "fst (exec k s) = Inr n \<Longrightarrow> n = hits k s + 1 \<and> hits k (snd (exec k s)) = n"
proof -
  note all = assms [unfolded TxPipeline_doc_def, rule_format, of k s]
  show "k' \<noteq> k \<Longrightarrow> hits k' (snd (exec k s)) = hits k' s" using all by blast
  show "hits k s \<le> hits k (snd (exec k s))" using all by blast
  show "fst (exec k s) = Inr n \<Longrightarrow> n = hits k s + 1 \<and> hits k (snd (exec k s)) = n" using all by simp
qed

definition keeps_redis :: "('r, 's) handler \<Rightarrow> bool" where
  "keeps_redis next \<longleftrightarrow> (\<forall>r w g. gw_redis (snd (next r (w, g))) = gw_redis g)"

lemma limit_redis:
  assumes "keeps_redis next"
  shows "gw_redis (snd (limit a bucket perMinute keyFn next r (w, g))) =
    snd (redis_exec a (rate_key bucket (keyFn r) (go_div (unix_seconds (api_now a)) 60)) (gw_redis g))"
  using assms by (auto simp: limit_admits Let_def keeps_redis_def split: option.split)

lemma rate_key_inject:
  assumes "CHR '':'' \<notin> set b" and "CHR '':'' \<notin> set b'" and "rate_key b u n = rate_key b' u' n'"
  shows "b = b' \<and> u = u' \<and> n = n'"
proof -
  have split: "xs = xs' \<and> ys = ys'"
    if "xs @ CHR '':'' # ys = xs' @ CHR '':'' # ys'" "CHR '':'' \<notin> set xs" "CHR '':'' \<notin> set xs'" for xs xs' ys ys'
    using that by (induction xs arbitrary: xs') (auto simp: Cons_eq_append_conv append_eq_Cons_conv)
  from split [of b "u @ '':'' @ strconv_Itoa n" b' "u' @ '':'' @ strconv_Itoa n'"] assms
  have b: "b = b'" and rest: "u @ CHR '':'' # strconv_Itoa n = u' @ CHR '':'' # strconv_Itoa n'"
    by (simp_all add: rate_key_def)
  from arg_cong [OF rest, of rev]
  have "rev (strconv_Itoa n) @ CHR '':'' # rev u = rev (strconv_Itoa n') @ CHR '':'' # rev u'" by simp
  from split [OF this] strconv_Itoa_no_colon have "rev (strconv_Itoa n) = rev (strconv_Itoa n')" "rev u = rev u'"
    by simp_all
  with b show ?thesis using strconv_Itoa_inject by simp
qed

text \<open>
  Counting: the requests of one client let through in one minute fit between the counter's
  start and the limit; those of other clients and other minutes count elsewhere.
\<close>

lemma admitted_count:
  assumes colon: "CHR '':'' \<notin> set bucket" and keep: "\<And>a. keeps_redis (h a)"
  shows "(\<And>a r. (a, r) \<in> set rs \<Longrightarrow> TxPipeline_doc (redis_exec a) hits) \<Longrightarrow>
    int (count_list (admitted_run bucket m keyFn h rs g) ((who, win), True)) \<le>
      max 0 (m - hits (rate_key bucket who win) (gw_redis g))"
proof (induction rs arbitrary: g)
  case Nil
  then show ?case by simp
next
  case (Cons x rs)
  obtain a r where x: "x = (a, r)" by (cases x)
  have doc: "TxPipeline_doc (redis_exec a) hits" by (rule Cons.prems [of a r]) (simp add: x)
  note d = TxPipeline_docD [OF doc]
  let ?k = "rate_key bucket who win" and ?q = "rate_key bucket (keyFn r) (window_of a)"
  let ?g = "snd (limit a bucket m keyFn (h a) r (new_writer, g))"
  have red: "gw_redis ?g = snd (redis_exec a ?q (gw_redis g))"
    using limit_redis [OF keep] by (simp add: window_of_def)
  have IH: "int (count_list (admitted_run bucket m keyFn h rs ?g) ((who, win), True)) \<le> max 0 (m - hits ?k (gw_redis ?g))"
    by (rule Cons.IH) (use Cons.prems in auto)
  show ?case
  proof (cases "(keyFn r, window_of a) = (who, win)")
    case False
    then have "?k \<noteq> ?q" using rate_key_inject [OF colon colon] by blast
    with d(1) red have "hits ?k (gw_redis ?g) = hits ?k (gw_redis g)" by simp
    with IH False show ?thesis by (auto simp: x)
  next
    case True
    then have q: "?q = ?k" by simp
    show ?thesis
    proof (cases "fst (redis_exec a ?k (gw_redis g))")
      case (Inl e)
      then have "counted a bucket keyFn r (gw_redis g) = None" using q by (simp add: counted_def window_of_def)
      moreover have "hits ?k (gw_redis g) \<le> hits ?k (gw_redis ?g)" using d(2) red q by simp
      ultimately show ?thesis using IH by (auto simp: x)
    next
      case (Inr n)
      then have "counted a bucket keyFn r (gw_redis g) = Some n" using q by (simp add: counted_def window_of_def)
      moreover have "n = hits ?k (gw_redis g) + 1" "hits ?k (gw_redis ?g) = n" using d(3) [OF Inr] red q by simp_all
      ultimately show ?thesis using IH by (auto simp: x reached_admits admits_def)
    qed
  qed
qed

lemma go_mod_minute: "0 \<le> t \<Longrightarrow> 0 \<le> go_mod t 60 \<and> go_mod t 60 < 60"
  by (simp add: go_mod_def go_div_def minus_div_mult_eq_mod)

end
