(* ===== verification/Gateway.thy ===== *)
theory Gateway
  imports RateLimit
begin

text \<open>
  The gateway's tokens and passwords (\<open>services/gateway/auth.go\<close>), its handlers
  (\<open>services/gateway/handlers.go\<close>) and the routing table and middleware composition of
  \<open>services/gateway/main.go\<close>.
\<close>

section \<open>Tokens and passwords\<close>

text \<open>\<open>jwt.NewNumericDate\<close> keeps whole seconds.\<close>

definition issue :: "('r, 's) api \<Rightarrow> string \<Rightarrow> go_error + string" where
  "issue a userID = jwt_sign a (api_secret a)
     \<lparr>cl_Subject = userID, cl_IssuedAt = unix_seconds (api_now a),
      cl_ExpiresAt = unix_seconds (api_now a + api_ttl a)\<rparr>"

definition verify :: "('r, 's) api \<Rightarrow> string \<Rightarrow> go_error + string" where
  "verify a token =
     (case jwt_parse a (api_secret a) (api_now a) token of
        Inl err \<Rightarrow> Inl err
      | Inr c \<Rightarrow> if cl_Subject c = [] then Inl (OtherError ''token has no subject'') else Inr (cl_Subject c))"

definition hashPassword :: "('r, 's) api \<Rightarrow> string \<Rightarrow> go_error + string" where
  "hashPassword a pw = bcrypt_generate a pw"

definition checkPassword :: "('r, 's) api \<Rightarrow> string \<Rightarrow> string \<Rightarrow> bool" where
  "checkPassword a hash pw = bcrypt_compare a hash pw"

section \<open>Authentication\<close>

definition requireAuth :: "('r, 's) api \<Rightarrow> ('r, 's) handler \<Rightarrow> ('r, 's) handler" where
  "requireAuth a next r =
     (\<lambda>(w, g).
        case cut_space (hr_Header r ''Authorization'') of
          None \<Rightarrow> (writeError 401 ''missing bearer token'' w, g)
        | Some (scheme, token) \<Rightarrow>
            if scheme \<noteq> ''Bearer'' \<or> token = []
            then (writeError 401 ''missing bearer token'' w, g)
            else (case verify a token of
                    Inl err \<Rightarrow> (writeError 401 ''invalid or expired token'' w, g)
                  | Inr u \<Rightarrow> next (r\<lparr>hr_user := Some u\<rparr>) (w, g)))"

definition userID :: "http_request \<Rightarrow> string" where
  "userID r = (case hr_user r of Some u \<Rightarrow> u | None \<Rightarrow> [])"

section \<open>Errors\<close>

definition walletError :: "grpc_status \<Rightarrow> writer \<times> ('r, 's) gateway \<Rightarrow> writer \<times> ('r, 's) gateway" where
  "walletError s =
     (\<lambda>(w, g). let code = httpStatusFor (st_code s) in
        if 500 \<le> code
        then (writeError code ''wallet service unavailable'' w, log_line ''wallet call failed'' g)
        else (writeError code (st_message s) w, g))"

definition internal :: "writer \<times> ('r, 's) gateway \<Rightarrow> writer \<times> ('r, 's) gateway" where
  "internal = (\<lambda>(w, g). (writeError 500 ''internal error'' w, log_line ''internal error'' g))"

section \<open>Sign-up and login\<close>

text \<open>\<open>strings.ToLower(strings.TrimSpace(email))\<close>; letters outside ASCII are lowered by a parameter.\<close>

definition is_ascii :: "char \<Rightarrow> bool" where
  "is_ascii c \<longleftrightarrow> (of_char c :: nat) < 128"

definition lower_char :: "char \<Rightarrow> char" where
  "lower_char c =
     (let n = (of_char c :: nat) in if 65 \<le> n \<and> n \<le> 90 then char_of (n + 32) else c)"

definition strings_ToLower :: "(string \<Rightarrow> string) \<Rightarrow> string \<Rightarrow> string" where
  "strings_ToLower unicode s = (if list_all is_ascii s then map lower_char s else unicode s)"

definition normal_email :: "('r, 's) api \<Rightarrow> string \<Rightarrow> string" where
  "normal_email a email = strings_ToLower (unicode_ToLower a) (strings_TrimSpace email)"

text \<open>The statements on \<open>auth.users\<close>.\<close>

definition insert_user :: "uuid \<Rightarrow> timestamp \<Rightarrow> string \<Rightarrow> string \<Rightarrow> user_row list \<Rightarrow> go_error + user_row list" where
  "insert_user gen now email hash us =
     (if list_ex (\<lambda>x. us_id x = gen) us \<or> list_ex (\<lambda>x. us_email x = email) us
      then Inl (PgError ''23505'' ''duplicate key value violates unique constraint'')
      else Inr (us @ [\<lparr>us_id = gen, us_email = email, us_password_hash = hash, us_created_at = now\<rparr>]))"

definition find_user :: "string \<Rightarrow> user_row list \<Rightarrow> user_row option" where
  "find_user email us = find (\<lambda>x. us_email x = email) us"

definition register :: "('r, 's) api \<Rightarrow> ('r, 's) handler" where
  "register a r =
     (\<lambda>(w, g).
        case readJSON (decode_credentials a) r w of
          Inl w' \<Rightarrow> (w', g)
        | Inr (in_email, password) \<Rightarrow>
            let email = normal_email a in_email in
            if \<not> mail_ParseAddress a email \<or> CHR ''.'' \<notin> set email
            then (writeError 400 ''valid email required'' w, g)
            else if length password < 8 \<or> 72 < length password
            then (writeError 400 ''password must be 8 to 72 characters'' w, g)
            else
              (case hashPassword a password of
                 Inl err \<Rightarrow> internal (w, g)
               | Inr hash \<Rightarrow>
              (case (case db_fault a of Some e \<Rightarrow> Inl e
                     | None \<Rightarrow> insert_user (db_gen a) (api_now a) email hash (gw_users g)) of
                 Inl err \<Rightarrow>
                   if errors_As_PgError err = Some ''23505''
                   then (writeError 409 ''email already registered'' w, g)
                   else internal (w, g)
               | Inr users' \<Rightarrow>
                   (case wc_CreateWallet a (db_gen a) (gw_wallet g) of
                      (Inr wal, s') \<Rightarrow>
                        (writeJSON 201 (JObj [(''userId'', JStr (db_gen a)), (''walletId'', JStr (pw_Id wal))]) w,
                         g\<lparr>gw_users := users', gw_wallet := s'\<rparr>)
                    | (Inl s, s') \<Rightarrow>
                        (writeJSON 201 (JObj [(''userId'', JStr (db_gen a)), (''walletId'', JStr [])]) w,
                         log_line ''wallet creation deferred'' (g\<lparr>gw_users := users', gw_wallet := s'\<rparr>))))))"

text \<open>\<open>int(a.tokens.ttl.Seconds())\<close>: whole seconds, towards zero.\<close>

definition ttl_seconds :: "('r, 's) api \<Rightarrow> int" where
  "ttl_seconds a = go_div (api_ttl a) 1000000000"

definition login :: "('r, 's) api \<Rightarrow> ('r, 's) handler" where
  "login a r =
     (\<lambda>(w, g).
        case readJSON (decode_credentials a) r w of
          Inl w' \<Rightarrow> (w', g)
        | Inr (in_email, password) \<Rightarrow>
            (case QueryRow (db_fault a) (find_user (normal_email a in_email) (gw_users g)) of
               Inl err \<Rightarrow>
                 if \<not> errors_Is err ErrNoRows then internal (w, g)
                 else (writeError 401 ''invalid email or password'' w, g)
             | Inr u \<Rightarrow>
                 if \<not> checkPassword a (us_password_hash u) password
                 then (writeError 401 ''invalid email or password'' w, g)
                 else
                   (case issue a (us_id u) of
                      Inl err \<Rightarrow> internal (w, g)
                    | Inr token \<Rightarrow>
                        (writeJSON 200 (JObj [(''accessToken'', JStr token), (''expiresIn'', JNum (ttl_seconds a)),
                           (''tokenType'', JStr ''Bearer'')]) w, g))))"

section \<open>Wallet handlers\<close>

definition getMyWallet :: "('r, 's) api \<Rightarrow> ('r, 's) handler" where
  "getMyWallet a r =
     (\<lambda>(w, g).
        case wc_GetWallet a (userID r) (gw_wallet g) of
          (res, s1) \<Rightarrow>
            if status_Code res = NotFound
            then (case wc_CreateWallet a (userID r) s1 of
                    (Inr created, s2) \<Rightarrow> (writeJSON 200 (toWalletJSON created) w, g\<lparr>gw_wallet := s2\<rparr>)
                  | (Inl err, s2) \<Rightarrow> walletError err (w, g\<lparr>gw_wallet := s2\<rparr>))
            else (case res of
                    Inl err \<Rightarrow> walletError err (w, g\<lparr>gw_wallet := s1\<rparr>)
                  | Inr wal \<Rightarrow> (writeJSON 200 (toWalletJSON wal) w, g\<lparr>gw_wallet := s1\<rparr>)))"

text \<open>The end of a handler that called the wallet: the error, or the transaction as JSON.\<close>

definition answer_tx ::
    "int \<Rightarrow> (grpc_status + pb_Transaction) \<times> 's \<Rightarrow> writer \<times> ('r, 's) gateway \<Rightarrow> writer \<times> ('r, 's) gateway" where
  "answer_tx code call =
     (\<lambda>(w, g). case call of
        (Inl err, s') \<Rightarrow> walletError err (w, g\<lparr>gw_wallet := s'\<rparr>)
      | (Inr t, s') \<Rightarrow> (writeJSON code (toTransactionJSON t) w, g\<lparr>gw_wallet := s'\<rparr>))"

definition deposit :: "('r, 's) api \<Rightarrow> ('r, 's) handler" where
  "deposit a r =
     (\<lambda>(w, g).
        let key = hr_Header r ''Idempotency-Key'' in
        if key = [] then (writeError 400 ''Idempotency-Key header is required'' w, g)
        else (case readJSON (decode_amount a) r w of
                Inl w' \<Rightarrow> (w', g)
              | Inr amount \<Rightarrow> answer_tx 201 (wc_Deposit a (userID r) amount key (gw_wallet g)) (w, g)))"

definition transfer :: "('r, 's) api \<Rightarrow> ('r, 's) handler" where
  "transfer a r =
     (\<lambda>(w, g).
        let key = hr_Header r ''Idempotency-Key'' in
        if key = [] then (writeError 400 ''Idempotency-Key header is required'' w, g)
        else (case readJSON (decode_transfer a) r w of
                Inl w' \<Rightarrow> (w', g)
              | Inr (to, amount) \<Rightarrow>
                  answer_tx 201 (wc_Transfer a (userID r) to amount key (gw_wallet g)) (w, g)))"

text \<open>\<open>r.PathValue("id")\<close> of the pattern \<open>/transfers/{id}\<close>.\<close>

definition path_id :: "http_request \<Rightarrow> string" where
  "path_id r = (case hr_Path r of [p, i] \<Rightarrow> i | _ \<Rightarrow> [])"

definition getTransfer :: "('r, 's) api \<Rightarrow> ('r, 's) handler" where
  "getTransfer a r =
     (\<lambda>(w, g). answer_tx 200 (wc_GetTransaction a (userID r) (path_id r) (gw_wallet g)) (w, g))"

section \<open>Routes\<close>

datatype route = RRegister | RLogin | RMyWallet | RDeposit | RTransfer | RGetTransfer | RNotFound

text \<open>
  The patterns of the mux on a clean path, split into its segments.  A \<open>GET\<close> pattern also
  matches \<open>HEAD\<close>; the pattern \<open>/\<close> takes everything else.
\<close>

definition match_route :: "string \<Rightarrow> string list \<Rightarrow> route" where
  "match_route meth path =
     (let isget = (meth = ''GET'' \<or> meth = ''HEAD'') in
      if meth = ''POST'' \<and> path = [''auth'', ''register''] then RRegister
      else if meth = ''POST'' \<and> path = [''auth'', ''login''] then RLogin
      else if isget \<and> path = [''wallets'', ''me''] then RMyWallet
      else if meth = ''POST'' \<and> path = [''wallets'', ''me'', ''deposits''] then RDeposit
      else if meth = ''POST'' \<and> path = [''transfers''] then RTransfer
      else if isget \<and> length path = 2 \<and> path ! 0 = ''transfers'' \<and> path ! 1 \<noteq> [] then RGetTransfer
      else RNotFound)"

fun route_pattern :: "route \<Rightarrow> string" where
  "route_pattern RRegister = ''POST /auth/register''"
| "route_pattern RLogin = ''POST /auth/login''"
| "route_pattern RMyWallet = ''GET /wallets/me''"
| "route_pattern RDeposit = ''POST /wallets/me/deposits''"
| "route_pattern RTransfer = ''POST /transfers''"
| "route_pattern RGetTransfer = ''GET /transfers/{id}''"
| "route_pattern RNotFound = ''/''"

record limits =
  lm_trustProxy :: bool
  lm_auth :: int
  lm_user :: int

fun route_handler :: "limits \<Rightarrow> ('r, 's) api \<Rightarrow> route \<Rightarrow> ('r, 's) handler" where
  "route_handler lm a RRegister = limit a ''auth'' (lm_auth lm) (clientIP (lm_trustProxy lm)) (register a)"
| "route_handler lm a RLogin = limit a ''auth'' (lm_auth lm) (clientIP (lm_trustProxy lm)) (login a)"
| "route_handler lm a RMyWallet = requireAuth a (limit a ''user'' (lm_user lm) userID (getMyWallet a))"
| "route_handler lm a RDeposit = requireAuth a (limit a ''user'' (lm_user lm) userID (deposit a))"
| "route_handler lm a RTransfer = requireAuth a (limit a ''user'' (lm_user lm) userID (transfer a))"
| "route_handler lm a RGetTransfer = requireAuth a (limit a ''user'' (lm_user lm) userID (getTransfer a))"
| "route_handler lm a RNotFound = (\<lambda>r (w, g). (writeError 404 ''not found'' w, g))"

definition serve :: "limits \<Rightarrow> ('r, 's) api \<Rightarrow> string \<Rightarrow> http_request \<Rightarrow> ('r, 's) gateway \<Rightarrow> writer \<times> ('r, 's) gateway" where
  "serve lm a rnd r g =
     (let rt = match_route (hr_Method r) (hr_Path r)
      in observe rnd (route_pattern rt) (route_handler lm a rt) r (new_writer, g))"

end
