(* ===== verification/GatewayProofs.thy ===== *)
theory GatewayProofs
  imports Gateway ServerProofs
begin

text \<open>
  How the gateway's handlers answer: a predicate kept by the middleware says that a handler
  writes exactly one status and one body, and that a 5xx body is one of two fixed texts.
  Then the client side of the wallet contract: the lemmas of locale \<open>wallet_client\<close> about the
  handlers that call the service.
\<close>

section \<open>One status, one body\<close>

definition opaque :: "json \<Rightarrow> bool" where
  "opaque b \<longleftrightarrow> b = JObj [(''error'', JStr ''internal error'')] \<or>
     b = JObj [(''error'', JStr ''wallet service unavailable'')]"

definition answered :: "writer \<Rightarrow> writer \<Rightarrow> bool" where
  "answered w w' \<longleftrightarrow> (\<exists>c b. hw_calls w' = hw_calls w @ [c] \<and> hw_body w' = hw_body w @ [b] \<and>
     (500 \<le> c \<longrightarrow> opaque b))"

definition answers :: "('r, 's) handler \<Rightarrow> bool" where
  "answers h \<longleftrightarrow> (\<forall>r w g. answered w (fst (h r (w, g))))"

named_theorems answer_rules "handlers that write one status and one body"

lemma answered_writeJSON: "(500 \<le> c \<Longrightarrow> opaque b) \<Longrightarrow> answered w (writeJSON c b w)"
  by (auto simp: answered_def)

lemma answered_writeError: "c < 500 \<Longrightarrow> answered w (writeError c m w)"
  by (auto simp: answered_def)

lemma answered_internal: "answered w (fst (internal (w, g)))"
  by (auto simp: internal_def answered_def opaque_def)

lemma answered_walletError: "answered w (fst (walletError s (w, g)))"
  by (auto simp: walletError_def Let_def answered_def opaque_def)

lemma answered_readJSON: "readJSON dec r w = Inl w' \<Longrightarrow> answered w w'"
  by (auto simp: readJSON_def intro: answered_writeError split: option.splits)

lemma answered_tx: "c < 500 \<Longrightarrow> answered w (fst (answer_tx c call (w, g)))"
  by (cases call) (auto simp: answer_tx_def answered_walletError intro: answered_writeJSON split: sum.split)

lemmas answered_intros = answered_writeJSON answered_writeError answered_internal answered_walletError
  answered_tx

lemma answers_register [answer_rules]: "answers (register a)"
  unfolding answers_def register_def
  by (auto simp: Let_def intro!: answered_intros dest: answered_readJSON split: sum.split prod.split option.split)

lemma answers_login [answer_rules]: "answers (login a)"
  unfolding answers_def login_def
  by (auto simp: Let_def intro!: answered_intros dest: answered_readJSON split: sum.split prod.split option.split)

lemma answers_getMyWallet [answer_rules]: "answers (getMyWallet a)"
  unfolding answers_def getMyWallet_def
  by (auto intro!: answered_intros dest: answered_readJSON split: sum.split prod.split)

lemma answers_deposit [answer_rules]: "answers (deposit a)"
  unfolding answers_def deposit_def
  by (auto simp: Let_def intro!: answered_intros dest: answered_readJSON split: sum.split)

lemma answers_transfer [answer_rules]: "answers (transfer a)"
  unfolding answers_def transfer_def
  by (auto simp: Let_def intro!: answered_intros dest: answered_readJSON split: sum.split prod.split)

lemma answers_getTransfer [answer_rules]: "answers (getTransfer a)"
  unfolding answers_def getTransfer_def by (auto intro!: answered_intros)

lemma answered_header: "answered (set_header k v w) w' \<longleftrightarrow> answered w w'"
  by (simp add: answered_def)

lemma answers_limit [answer_rules]:
  assumes "answers next"
  shows "answers (limit a bucket m keyFn next)"
  unfolding answers_def
proof (intro allI)
  fix r w g
  have plain: "answered w' (fst (next r' (w', g')))" for r' w' g' using assms by (simp add: answers_def)
  then have "answered w (fst (next r' (set_header k v (set_header k' v' w), g')))" for r' g' k v k' v'
    using answered_header by blast
  moreover have "answered w (writeError 429 m' (set_header k v (set_header k' v' (set_header k'' v'' w))))"
    for m' k v k' v' k'' v'' by (simp add: answered_def)
  ultimately show "answered w (fst (limit a bucket m keyFn next r (w, g)))"
    using plain by (simp add: limit_admits Let_def split: option.split)
qed

lemma answers_requireAuth [answer_rules]: "answers next \<Longrightarrow> answers (requireAuth a next)"
  unfolding answers_def requireAuth_def
  by (auto intro!: answered_intros dest: answered_readJSON split: option.split sum.split prod.split)

lemma answers_route: "answers (route_handler lm a rt)"
  by (cases rt) (simp_all add: answer_rules, auto simp: answers_def intro: answered_writeError)

section \<open>Through the middleware\<close>

text \<open>
  \<open>observe\<close>, \<open>limit\<close> and \<open>requireAuth\<close> hand the request on with the wallet, the users and what was
  written so far as they are.
\<close>

definition same_work :: "writer \<times> ('r, 's) gateway \<Rightarrow> writer \<times> ('r, 's) gateway \<Rightarrow> bool" where
  "same_work p q \<longleftrightarrow> hw_calls (fst p) = hw_calls (fst q) \<and> hw_body (fst p) = hw_body (fst q) \<and>
     gw_wallet (snd p) = gw_wallet (snd q) \<and> gw_users (snd p) = gw_users (snd q)"

lemma serve_through:
  assumes "serve lm a rnd r g = (w, g')"
  obtains w0 g1 where
    "route_handler lm a (match_route (hr_Method r) (hr_Path r)) r (w0, g) = (w, g1)"
    and "hw_calls w0 = []" and "hw_body w0 = []" and "same_work (w, g') (w, g1)"
    and "gw_redis g' = gw_redis g1" and "gw_httpRequests g' =
      inc (hr_Method r, if match_route (hr_Method r) (hr_Path r) = RNotFound then ''unmatched''
           else route_pattern (match_route (hr_Method r) (hr_Path r)),
           strconv_Itoa (recorded_status w)) (gw_httpRequests g1)"
proof -
  let ?rt = "match_route (hr_Method r) (hr_Path r)"
  let ?w0 = "set_header ''X-Request-Id''
      (if hr_Header r ''X-Request-Id'' = [] then newRequestID rnd else hr_Header r ''X-Request-Id'') new_writer"
  have label: "(if route_pattern ?rt = [] \<or> route_pattern ?rt = ''/'' then ''unmatched'' else route_pattern ?rt) =
      (if ?rt = RNotFound then ''unmatched'' else route_pattern ?rt)"
    by (cases ?rt) simp_all
  obtain w1 g1 where h: "route_handler lm a ?rt r (?w0, g) = (w1, g1)" by fastforce
  with assms have eq: "w1 = w" "g' = log_line ''request'' (g1\<lparr>gw_httpRequests :=
      inc (hr_Method r, if ?rt = RNotFound then ''unmatched'' else route_pattern ?rt,
        strconv_Itoa (recorded_status w)) (gw_httpRequests g1)\<rparr>)"
    by (auto simp: serve_def observe_def Let_def label simp del: if_split)
  from h eq show thesis by (intro that [of ?w0 g1]) (simp_all add: same_work_def)
qed

lemma serve_answered:
  assumes "serve lm a rnd r g = (w, g')"
  shows "answered new_writer w"
proof -
  from assms obtain w0 g1 where
    h: "route_handler lm a (match_route (hr_Method r) (hr_Path r)) r (w0, g) = (w, g1)"
    and "hw_calls w0 = []" "hw_body w0 = []" by (rule serve_through)
  moreover have "answered w0 (fst (route_handler lm a (match_route (hr_Method r) (hr_Path r)) r (w0, g)))"
    using answers_route [of lm a "match_route (hr_Method r) (hr_Path r)"] by (simp add: answers_def)
  ultimately show ?thesis by (simp add: answered_def)
qed

text \<open>The user a request's token names.\<close>

definition auth_user :: "('r, 's) api \<Rightarrow> http_request \<Rightarrow> string option" where
  "auth_user a r =
     (case cut_space (hr_Header r ''Authorization'') of
        Some (scheme, token) \<Rightarrow>
          if scheme = ''Bearer'' \<and> token \<noteq> [] then
            (case verify a token of Inr u \<Rightarrow> Some u | Inl e \<Rightarrow> None)
          else None
      | None \<Rightarrow> None)"

lemma requireAuth_through:
  assumes "requireAuth a next r (w, g) = (w', g')"
  obtains (refused) m where "auth_user a r = None" and "w' = writeError 401 m w" and "g' = g"
    | (passed) u where "auth_user a r = Some u" and "next (r\<lparr>hr_user := Some u\<rparr>) (w, g) = (w', g')"
  using assms that
  by (auto simp: requireAuth_def auth_user_def split: option.splits sum.splits prod.splits if_splits)

lemma limit_through:
  assumes "limit a bucket m keyFn next r (w, g) = (w', g')"
  obtains (refused) w1 where "w' = writeError 429 ''rate limit exceeded'' w1" and "same_work (w1, g') (w, g)"
    | (passed) w1 g1 where "same_work (w1, g1) (w, g)" and "next r (w1, g1) = (w', g')"
proof -
  let ?key = "rate_key bucket (keyFn r) (go_div (unix_seconds (api_now a)) 60)"
  obtain res redis' where ex: "redis_exec a ?key (gw_redis g) = (res, redis')" by fastforce
  show thesis
  proof (cases res)
    case (Inl e)
    with assms ex have
      "next r (w, log_line ''rate limiter unavailable, allowing request'' (g\<lparr>gw_redis := redis'\<rparr>)) = (w', g')"
      by (simp add: limit_def)
    then show thesis by (rule passed [rotated]) (simp add: same_work_def)
  next
    case (Inr n)
    let ?w1 = "set_header ''X-RateLimit-Remaining'' (strconv_Itoa (max 0 (m - n)))
        (set_header ''X-RateLimit-Limit'' (strconv_Itoa m) w)"
    show thesis
    proof (cases "m < n")
      case True
      with assms ex Inr show thesis by (intro refused) (auto simp: limit_def Let_def same_work_def)
    next
      case False
      with assms ex Inr have "next r (?w1, g\<lparr>gw_redis := redis'\<rparr>) = (w', g')" by (simp add: limit_def Let_def)
      then show thesis by (rule passed [rotated]) (simp add: same_work_def)
    qed
  qed
qed

text \<open>A protected handler either did not run, or ran for the user of the token.\<close>

lemma protected_through:
  assumes "requireAuth a (limit a bucket m userID h) r (w, g) = (w', g')"
  obtains (unauthenticated) msg where "auth_user a r = None" and "w' = writeError 401 msg w" and "g' = g"
    | (limited) u w1 where "auth_user a r = Some u" and "w' = writeError 429 ''rate limit exceeded'' w1"
        and "same_work (w1, g') (w, g)"
    | (ran) u w1 g1 where "auth_user a r = Some u" and "same_work (w1, g1) (w, g)"
        and "h (r\<lparr>hr_user := Some u\<rparr>) (w1, g1) = (w', g')"
  using assms
proof (cases rule: requireAuth_through)
  case (refused m)
  then show thesis by (rule unauthenticated)
next
  case (passed u)
  from passed(2) show thesis
    by (cases rule: limit_through) (use limited ran passed(1) in blast)+
qed

lemma userID_auth [simp]: "userID (r\<lparr>hr_user := Some u\<rparr>) = u"
  by (simp add: userID_def)

lemma httpStatusFor_error: "400 \<le> httpStatusFor c"
  by (cases c) simp_all

lemma httpStatusFor_no_success [simp]: "c < 400 \<Longrightarrow> httpStatusFor k \<noteq> c"
  using httpStatusFor_error [of k] by auto

text \<open>A transfer that was answered 201 was made by the wallet service, for the user of the token.\<close>

lemma served_transfer:
  assumes "match_route (hr_Method r) (hr_Path r) = RTransfer" and "serve lm a rnd r g = (w, g')"
    and "sent_status w = 201"
  obtains u to amount t where "auth_user a r = Some u" and "hr_Header r ''Idempotency-Key'' \<noteq> []"
    and "decode_transfer a (take 10240 (hr_Body r)) = Some (to, amount)"
    and "wc_Transfer a u to amount (hr_Header r ''Idempotency-Key'') (gw_wallet g) = (Inr t, gw_wallet g')"
    and "hw_body w = [toTransactionJSON t]"
proof -
  from assms(2) obtain w0 g1 where
    h: "requireAuth a (limit a ''user'' (lm_user lm) userID (transfer a)) r (w0, g) = (w, g1)"
    and w0: "hw_calls w0 = []" "hw_body w0 = []" "same_work (w, g') (w, g1)"
    by (rule serve_through) (simp add: assms(1))
  from h show thesis
  proof (cases rule: protected_through)
    case (unauthenticated msg)
    with assms(3) w0 show thesis by (simp add: sent_status_def)
  next
    case (limited u w1)
    with assms(3) w0 show thesis by (simp add: sent_status_def same_work_def)
  next
    case (ran u w1 g2)
    then have "hw_calls w1 = []" "hw_body w1 = []" "gw_wallet g2 = gw_wallet g" using w0 by (simp_all add: same_work_def)
    with ran assms(3) w0(3) show thesis
      by (auto simp: transfer_def readJSON_def answer_tx_def walletError_def sent_status_def Let_def same_work_def
          split: if_splits option.splits sum.splits prod.splits elim!: that)
  qed
qed

text \<open>A wallet that was answered 200 was read or created by the wallet service.\<close>

lemma served_wallet:
  assumes "match_route (hr_Method r) (hr_Path r) = RMyWallet" and "serve lm a rnd r g = (w, g')"
    and "sent_status w = 200"
  obtains u wal where "auth_user a r = Some u" and "hw_body w = [toWalletJSON wal]"
    and "wc_GetWallet a u (gw_wallet g) = (Inr wal, gw_wallet g') \<or>
      (\<exists>s e. wc_GetWallet a u (gw_wallet g) = (Inl e, s) \<and> wc_CreateWallet a u s = (Inr wal, gw_wallet g'))"
proof -
  from assms(2) obtain w0 g1 where
    h: "requireAuth a (limit a ''user'' (lm_user lm) userID (getMyWallet a)) r (w0, g) = (w, g1)"
    and w0: "hw_calls w0 = []" "hw_body w0 = []" "same_work (w, g') (w, g1)"
    by (rule serve_through) (simp add: assms(1))
  from h show thesis
  proof (cases rule: protected_through)
    case (unauthenticated msg)
    with assms(3) w0 show thesis by (simp add: sent_status_def)
  next
    case (limited u w1)
    with assms(3) w0 show thesis by (simp add: sent_status_def same_work_def)
  next
    case (ran u w1 g2)
    then have "hw_calls w1 = []" "hw_body w1 = []" "gw_wallet g2 = gw_wallet g" using w0 by (simp_all add: same_work_def)
    with ran assms(3) w0(3) show thesis
      by (auto simp: getMyWallet_def status_Code_def walletError_def sent_status_def Let_def same_work_def
          split: if_splits sum.splits prod.splits elim!: that)
  qed
qed

section \<open>The gateway as a client of the wallet service\<close>

lemma grpc_call_Inr:
  assumes "grpc_call net h s = (Inr x, s')"
  shows "h s = (Ret x, s')"
  using assms by (auto simp: grpc_call_def split: network.splits prod.splits outcome.splits)

lemma grpc_call_Inl:
  assumes "grpc_call net h s = (Inl e, s')"
  shows "s' = s \<or> (\<exists>out. h s = (out, s'))"
  using assms by (auto simp: grpc_call_def split: network.splits prod.splits outcome.splits) (metis prod.collapse)

text \<open>An \<open>api\<close> value whose wallet client calls the operations of the contract over some network.\<close>

definition calls_service ::
    "(string \<Rightarrow> 's \<Rightarrow> (grpc_status, pb_Wallet) outcome \<times> 's) \<Rightarrow>
     (string \<Rightarrow> 's \<Rightarrow> (grpc_status, pb_Wallet) outcome \<times> 's) \<Rightarrow>
     (string \<Rightarrow> string \<Rightarrow> int \<Rightarrow> string \<Rightarrow> 's \<Rightarrow> (grpc_status, pb_Transaction) outcome \<times> 's) \<Rightarrow> ('r, 's) api \<Rightarrow> bool" where
  "calls_service create get send a \<longleftrightarrow>
     (\<exists>net. wc_CreateWallet a = (\<lambda>u. grpc_call (net ''CreateWallet'') (create u)) \<and>
        wc_GetWallet a = (\<lambda>u. grpc_call (net ''GetWallet'') (get u)) \<and>
        wc_Transfer a = (\<lambda>u to amount key. grpc_call (net ''Transfer'') (send u to amount key)))"

lemma calls_serviceE:
  assumes "calls_service create get send a"
  obtains net where "wc_CreateWallet a = (\<lambda>u. grpc_call (net ''CreateWallet'') (create u))"
    and "wc_GetWallet a = (\<lambda>u. grpc_call (net ''GetWallet'') (get u))"
    and "wc_Transfer a = (\<lambda>u to amount key. grpc_call (net ''Transfer'') (send u to amount key))"
  using assms by (auto simp: calls_service_def)

lemma wallet_api_calls:
  "calls_service (srv_CreateWallet parse c) (srv_GetWallet parse c) (srv_Transfer parse m c) (wallet_api parse m c net a)"
  unfolding calls_service_def by (rule exI [of _ net]) (simp add: wallet_api_def)

context wallet_client
begin

text \<open>The wallet a \<open>GET /wallets/me\<close> shows is the user's.\<close>

lemma shown_wallet:
  assumes "calls_service (create c) (get c) (send c) a" and "good (gw_wallet g)"
    and "match_route (hr_Method r) (hr_Path r) = RMyWallet" and "serve lm a rnd r g = (w, g')"
    and "sent_status w = 200"
  shows "\<exists>u wal. auth_user a r = Some u \<and> hw_body w = [toWalletJSON wal] \<and>
    owner u (pw_Id wal) (gw_wallet g') \<and> later (gw_wallet g) (gw_wallet g')"
proof -
  from assms(1) obtain net where
    net: "wc_CreateWallet a = (\<lambda>u. grpc_call (net ''CreateWallet'') (create c u))"
      "wc_GetWallet a = (\<lambda>u. grpc_call (net ''GetWallet'') (get c u))" by (rule calls_serviceE)
  from assms(3-5) obtain u wal where u: "auth_user a r = Some u" "hw_body w = [toWalletJSON wal]"
    and how: "wc_GetWallet a u (gw_wallet g) = (Inr wal, gw_wallet g') \<or>
      (\<exists>s e. wc_GetWallet a u (gw_wallet g) = (Inl e, s) \<and> wc_CreateWallet a u s = (Inr wal, gw_wallet g'))"
    by (rule served_wallet)
  from how have "owner u (pw_Id wal) (gw_wallet g') \<and> later (gw_wallet g) (gw_wallet g')"
  proof (elim disjE exE conjE)
    assume "wc_GetWallet a u (gw_wallet g) = (Inr wal, gw_wallet g')"
    then have "get c u (gw_wallet g) = (Ret wal, gw_wallet g')" using net by (auto dest: grpc_call_Inr)
    with assms(2) show ?thesis by (blast intro: get_owner get_later)
  next
    fix s e
    assume "wc_GetWallet a u (gw_wallet g) = (Inl e, s)" and mk: "wc_CreateWallet a u s = (Inr wal, gw_wallet g')"
    then have "s = gw_wallet g \<or> (\<exists>out. get c u (gw_wallet g) = (out, s))" using net by (auto dest: grpc_call_Inl)
    then have s: "later (gw_wallet g) s" using assms(2) later_refl get_later by blast
    have "create c u s = (Ret wal, gw_wallet g')" using mk net by (auto dest: grpc_call_Inr)
    with s assms(2) show ?thesis by (meson create_owner create_later later_good later_trans)
  qed
  with u show ?thesis by blast
qed

lemma shown_wallets_agree:
  assumes a: "calls_service (create c) (get c) (send c) a" and a': "calls_service (create c') (get c') (send c') a'"
    and good: "good (gw_wallet g)"
    and first: "match_route (hr_Method r) (hr_Path r) = RMyWallet" "serve lm a rnd r g = (w, g1)" "sent_status w = 200"
    and mid: "later (gw_wallet g1) (gw_wallet g2)"
    and second: "match_route (hr_Method r') (hr_Path r') = RMyWallet" "serve lm' a' rnd' r' g2 = (w', g3)"
      "sent_status w' = 200"
    and user: "auth_user a r = auth_user a' r'"
  shows "\<exists>x y. hw_body w = [toWalletJSON x] \<and> hw_body w' = [toWalletJSON y] \<and> pw_Id x = pw_Id y"
proof -
  from shown_wallet [OF a good first] obtain u x where x: "auth_user a r = Some u" "hw_body w = [toWalletJSON x]"
    "owner u (pw_Id x) (gw_wallet g1)" "later (gw_wallet g) (gw_wallet g1)" by blast
  from x(4) good have g1: "good (gw_wallet g1)" by (rule later_good)
  from mid g1 have "good (gw_wallet g2)" by (rule later_good)
  from shown_wallet [OF a' this second] x(1) user obtain y where y: "hw_body w' = [toWalletJSON y]"
    "owner u (pw_Id y) (gw_wallet g3)" "later (gw_wallet g2) (gw_wallet g3)" by auto
  from owner_stable [OF g1 later_trans [OF mid y(3)] x(3) y(2)] x(2) y(1) show ?thesis by metis
qed

text \<open>Two transfers accepted for one key show the same transaction.\<close>

lemma shown_transfers_agree:
  assumes a: "calls_service (create c) (get c) (send c) a" "usual c"
    and a': "calls_service (create c') (get c') (send c') a'" "usual c'"
    and good: "good (gw_wallet g)"
    and first: "match_route (hr_Method r) (hr_Path r) = RTransfer" "serve lm a rnd r g = (w, g1)" "sent_status w = 201"
    and mid: "later (gw_wallet g1) (gw_wallet g2)"
    and second: "match_route (hr_Method r') (hr_Path r') = RTransfer" "serve lm' a' rnd' r' g2 = (w', g3)"
      "sent_status w' = 201"
    and user: "auth_user a r = auth_user a' r'" and key: "hr_Header r ''Idempotency-Key'' = hr_Header r' ''Idempotency-Key''"
    and body: "decode_transfer a (take 10240 (hr_Body r)) = decode_transfer a' (take 10240 (hr_Body r'))"
  shows "hw_body w = hw_body w'"
proof -
  from a(1) obtain net where
    net: "wc_Transfer a = (\<lambda>u to amount key. grpc_call (net ''Transfer'') (send c u to amount key))"
    by (rule calls_serviceE)
  from a'(1) obtain net' where
    net': "wc_Transfer a' = (\<lambda>u to amount key. grpc_call (net' ''Transfer'') (send c' u to amount key))"
    by (rule calls_serviceE)
  from first obtain u to amount t where
    x: "auth_user a r = Some u" "decode_transfer a (take 10240 (hr_Body r)) = Some (to, amount)"
    "wc_Transfer a u to amount (hr_Header r ''Idempotency-Key'') (gw_wallet g) = (Inr t, gw_wallet g1)"
    "hw_body w = [toTransactionJSON t]" by (rule served_transfer)
  from second obtain u' to' amount' t' where
    y: "auth_user a' r' = Some u'" "decode_transfer a' (take 10240 (hr_Body r')) = Some (to', amount')"
    "wc_Transfer a' u' to' amount' (hr_Header r' ''Idempotency-Key'') (gw_wallet g2) = (Inr t', gw_wallet g3)"
    "hw_body w' = [toTransactionJSON t']" by (rule served_transfer)
  from x y user body have same: "u' = u" "to' = to" "amount' = amount" by simp_all
  from x(3) net have "send c u to amount (hr_Header r ''Idempotency-Key'') (gw_wallet g) = (Ret t, gw_wallet g1)"
    by (auto dest: grpc_call_Inr)
  moreover from y(3) net' same key have
    "send c' u to amount (hr_Header r ''Idempotency-Key'') (gw_wallet g2) = (Ret t', gw_wallet g3)"
    by (auto dest: grpc_call_Inr)
  ultimately have "t' = t" using send_replays [OF good a(2) a'(2) _ mid] by blast
  with x(4) y(4) show ?thesis by simp
qed

end

section \<open>Handlers and the counters\<close>

lemma keeps_redis_internal: "gw_redis (snd (internal (w, g))) = gw_redis g"
  by (simp add: internal_def)

lemma keeps_redis_walletError: "gw_redis (snd (walletError s (w, g))) = gw_redis g"
  by (simp add: walletError_def Let_def)

lemma keeps_redis_tx: "gw_redis (snd (answer_tx c call (w, g))) = gw_redis g"
  by (cases call) (auto simp: answer_tx_def keeps_redis_walletError split: sum.split)

lemmas redis_simps = keeps_redis_internal keeps_redis_walletError keeps_redis_tx

lemma handlers_keep_redis:
  "keeps_redis (register a)" "keeps_redis (login a)" "keeps_redis (getMyWallet a)" "keeps_redis (deposit a)"
  "keeps_redis (transfer a)" "keeps_redis (getTransfer a)"
  by (auto simp: keeps_redis_def register_def login_def getMyWallet_def deposit_def transfer_def getTransfer_def
      Let_def redis_simps split: sum.split prod.split option.split)

section \<open>The gateway in front of the service\<close>

lemma wallet_api_auth [simp]: "auth_user (wallet_api parse m c net a) r = auth_user a r"
proof -
  have "verify (wallet_api parse m c net a) = verify a" by (simp add: fun_eq_iff verify_def wallet_api_def)
  then show ?thesis by (simp add: auth_user_def split: option.split prod.split)
qed

lemma wallet_api_decode [simp]: "decode_transfer (wallet_api parse m c net a) = decode_transfer a"
  by (simp add: wallet_api_def)

text \<open>A committed transfer, seen on the balances.\<close>

lemma srv_Transfer_committed:
  assumes doc: "doc_call c" and good: "server_good s" and run: "srv_Transfer parse m c u to amount key s = (Ret t, s')"
  obtains uid wid h d0 r x where "parse u = Some uid" and "parse to = Some wid"
    and "store_steps (sv_db s) d0" and "wallet_inv d0" and "Transfer_fn uid wid amount key h d0 = Inr (r, sv_db s')"
    and "select_tx_by_key uid key (sv_db s') = Some x" and "res_Tx r = txColumns x" and "t = tx_toProto (txColumns x)"
proof -
  from run obtain s1 where s1: "rpc_Transfer parse m (ce_retry c) u to amount key s = (Ret t, s1)" "sv_db s1 = sv_db s'"
    by (auto simp: srv_Transfer_def dest!: metricsInterceptor_eq)
  from s1 obtain uid wid r n where ids: "parse u = Some uid" "parse to = Some wid"
    and call: "withRetries m (ce_retry c) (Transfer_fn uid wid amount key) (sv_db s) = (Ret r, n, sv_db s')"
    and t: "t = tx_toProto (res_Tx r)"
    by (auto simp: Transfer_def elim!: rpc_Transfer_Ret)
  have inv: "wallet_inv (sv_db s)" using good by (simp add: server_good_def)
  have B: "BeginFunc_doc store_steps (re_begin (ce_retry c) i)" for i
    using doc by (simp add: doc_call_def doc_env_def)
  from trf.call_records [OF B inv call] obtain x where
    x: "select_tx_by_key uid key (sv_db s') = Some x" "res_Tx r = txColumns x" by blast
  from trf.call_committed [OF B inv call] obtain h d0 where
    d0: "store_steps (sv_db s) d0" "Transfer_fn uid wid amount key h d0 = Inr (r, sv_db s')" by blast
  have "wallet_inv d0" using d0(1) inv by (rule store_steps_inv)
  with ids d0 x t that show thesis by simp
qed

lemma srv_Transfer_Ret:
  assumes "doc_call c" and "server_good s" and "srv_Transfer parse m c u to amount key s = (Ret t, s')"
  shows "\<exists>uid wid d0 x. parse u = Some uid \<and> parse to = Some wid \<and> store_steps (sv_db s) d0 \<and>
    select_tx_by_key uid key (sv_db s') = Some x \<and> t = tx_toProto (txColumns x) \<and>
    (transfer_replays uid wid amount key d0 x \<and> sv_db s' = d0 \<or>
     (\<exists>f. select_wallet_by_user uid d0 = Some f \<and> select_tx_by_key uid key d0 = None \<and>
        bank_transfer (wr_id f) wid amount (balances d0) = Some (balances (sv_db s'))))"
proof -
  obtain uid wid h d0 r x where ids: "parse u = Some uid" "parse to = Some wid"
    and d0: "store_steps (sv_db s) d0" "wallet_inv d0" "Transfer_fn uid wid amount key h d0 = Inr (r, sv_db s')"
    and x: "select_tx_by_key uid key (sv_db s') = Some x" and t: "t = tx_toProto (txColumns x)"
    using assms by (rule srv_Transfer_committed)
  have ok: "schema_ok d0" using d0(2) by (simp add: wallet_inv_def)
  from ok d0(3) have "transfer_replays uid wid amount key d0 x \<and> sv_db s' = d0 \<or>
     (\<exists>f. select_wallet_by_user uid d0 = Some f \<and> select_tx_by_key uid key d0 = None \<and>
        bank_transfer (wr_id f) wid amount (balances d0) = Some (balances (sv_db s')))"
  proof (cases rule: Transfer_fn_Inr)
    case (replay y)
    with x show ?thesis by (auto simp: transfer_replays_def)
  next
    case (moved f y)
    with post_transfer_bank [OF ok moved(1)] show ?thesis by (auto simp: transfer_moves_def)
  qed
  with ids t x d0(1) show ?thesis by auto
qed

text \<open>The transaction of an answered transfer is the transfer that was asked for.\<close>

lemma srv_Transfer_row:
  assumes "doc_call c" and "server_good s" and "srv_Transfer parse m c u to amount key s = (Ret t, s')"
  obtains uid wid f x where "parse u = Some uid" and "parse to = Some wid" and "wallet_inv (sv_db s')"
    and "select_tx_by_key uid key (sv_db s') = Some x" and "t = tx_toProto (txColumns x)"
    and "tr_from_wallet_id x = Some f" and "tr_to_wallet_id x = wid" and "tr_amount_cents x = amount"
proof -
  obtain uid wid h d0 r x where ids: "parse u = Some uid" "parse to = Some wid"
    and d0: "wallet_inv d0" "Transfer_fn uid wid amount key h d0 = Inr (r, sv_db s')"
    and x: "select_tx_by_key uid key (sv_db s') = Some x" "res_Tx r = txColumns x" and t: "t = tx_toProto (txColumns x)"
    using assms by (rule srv_Transfer_committed)
  have inv: "wallet_inv (sv_db s')" by (rule store_step_inv [OF store_step.transfer [OF d0(2)] d0(1)])
  have ok: "schema_ok d0" using d0(1) by (simp add: wallet_inv_def)
  from ok d0(2) have "t_Kind (res_Tx r) = ''TRANSFER'' \<and> t_ToWalletID (res_Tx r) = wid \<and> t_AmountCents (res_Tx r) = amount"
    by (cases rule: Transfer_fn_Inr)
      (auto simp: transfer_replays_def transfer_moves_def txColumns_def transfer_row_def dest: select_wallet_by_id_SomeD)
  then have row: "tr_kind x = ''TRANSFER''" "tr_to_wallet_id x = wid" "tr_amount_cents x = amount"
    by (simp_all add: x(2) txColumns_def)
  have "x \<in> set (transactions (sv_db s'))" using x(1) by (auto simp: select_tx_by_key_def dest: find_SomeD)
  then have "kind_matches x" using inv by (simp add: wallet_inv_def books_ok_def list_all_iff)
  with row(1) obtain f where "tr_from_wallet_id x = Some f" by (auto simp: kind_matches_def)
  with ids inv x(1) t row that show thesis by blast
qed

text \<open>A request that carries a token in its header.\<close>

lemma auth_user_bearer:
  assumes "hr_Header r ''Authorization'' = ''Bearer '' @ token" and "token \<noteq> []"
  shows "auth_user a r = (case verify a token of Inr u \<Rightarrow> Some u | Inl e \<Rightarrow> None)"
  using assms by (simp add: auth_user_def)

lemma register_201:
  assumes "register a r (w, g) = (w', g')" and "hw_calls w' = hw_calls w @ [201]"
  obtains email password hash where "decode_credentials a (take 10240 (hr_Body r)) = Some (email, password)"
    and "bcrypt_generate a password = Inr hash"
    and "gw_users g' = gw_users g @ [\<lparr>us_id = db_gen a, us_email = normal_email a email,
           us_password_hash = hash, us_created_at = api_now a\<rparr>]"
    and "\<forall>x\<in>set (gw_users g). us_email x \<noteq> normal_email a email"
proof -
  from assms obtain email password where
    d: "decode_credentials a (take 10240 (hr_Body r)) = Some (email, password)"
    by (auto simp: register_def readJSON_def split: option.splits)
  from assms d obtain hash where b: "bcrypt_generate a password = Inr hash"
    by (auto simp: register_def readJSON_def Let_def hashPassword_def internal_def split: if_splits sum.splits)
  from assms d b obtain us where
    us: "insert_user (db_gen a) (api_now a) (normal_email a email) hash (gw_users g) = Inr us" "gw_users g' = us"
    by (auto simp: register_def readJSON_def Let_def hashPassword_def internal_def
        split: if_splits sum.splits option.splits prod.splits)
  then show thesis
    by (intro that [OF d b]) (auto simp: insert_user_def list_ex_iff split: if_splits)
qed

text \<open>The routes of a signed-in user.\<close>

definition protected_route :: "route \<Rightarrow> bool" where
  "protected_route rt \<longleftrightarrow> rt \<in> {RMyWallet, RDeposit, RTransfer, RGetTransfer}"

end
