(* ===== verification/GatewayDemo.thy ===== *)
theory GatewayDemo
  imports GatewayProofs ServerClaims
begin

text \<open>
  A concrete gateway in front of the example's wallet service: what the parameters may be, and
  two requests through the whole stack.
\<close>

section \<open>Parameters\<close>

text \<open>What JWT and bcrypt promise.\<close>

definition jwt_doc :: "('r, 's) api \<Rightarrow> bool" where
  "jwt_doc a \<longleftrightarrow>
     (\<forall>secret c token. jwt_sign a secret c = Inr token \<longrightarrow>
        token \<noteq> [] \<and> (\<forall>now. unix_seconds now < cl_ExpiresAt c \<longrightarrow> jwt_parse a secret now token = Inr c))"

definition bcrypt_doc :: "('r, 's) api \<Rightarrow> bool" where
  "bcrypt_doc a \<longleftrightarrow> (\<forall>pw hash. bcrypt_generate a pw = Inr hash \<longrightarrow> bcrypt_compare a hash pw)"

definition demo_claims :: claims where
  "demo_claims = \<lparr>cl_Subject = ''ann'', cl_IssuedAt = 60, cl_ExpiresAt = 960\<rparr>"

definition demo_api :: "(string \<Rightarrow> int, server_state) api" where
  "demo_api = \<lparr>api_secret = ''s'', api_ttl = 900000000000, api_now = 60000000000,
     jwt_sign = (\<lambda>secret c. if c = demo_claims then Inr ''tok'' else Inl (OtherError ''no'')),
     jwt_parse = (\<lambda>secret now token.
        if token = ''tok'' \<and> unix_seconds now < 960 then Inr demo_claims else Inl (OtherError ''no'')),
     bcrypt_generate = (\<lambda>pw. Inr (CHR ''h'' # pw)), bcrypt_compare = (\<lambda>hash pw. hash = CHR ''h'' # pw),
     mail_ParseAddress = (\<lambda>e. CHR ''@'' \<in> set e), unicode_ToLower = (\<lambda>s. s),
     decode_credentials = (\<lambda>b. Some (b, ''password'')), decode_amount = (\<lambda>b. strconv_Atoi b),
     decode_transfer = (\<lambda>b. Some (b, 300)),
     redis_exec = (\<lambda>k s. (Inr (s k + 1), s(k := s k + 1))), db_fault = None, db_gen = ''ann'',
     wc_CreateWallet = (\<lambda>u s. (Inl (status_Error Unavailable []), s)),
     wc_GetWallet = (\<lambda>u s. (Inl (status_Error Unavailable []), s)),
     wc_Deposit = (\<lambda>u n k s. (Inl (status_Error Unavailable []), s)),
     wc_Transfer = (\<lambda>u t n k s. (Inl (status_Error Unavailable []), s)),
     wc_GetTransaction = (\<lambda>u i s. (Inl (status_Error Unavailable []), s))\<rparr>"

lemma demo_api_docs: "jwt_doc demo_api" "bcrypt_doc demo_api" "TxPipeline_doc (redis_exec demo_api) (\<lambda>k s. s k)"
  by (simp_all add: jwt_doc_def bcrypt_doc_def TxPipeline_doc_def demo_api_def demo_claims_def)

definition demo_call :: call_env where
  "demo_call = \<lparr>ce_fault = (\<lambda>_. None), ce_gen = ''wc'', ce_now = 50, ce_retry = quiet_env\<rparr>"

lemma demo_call_doc: "doc_call demo_call"
  by (simp add: doc_call_def doc_env_def demo_call_def run_tx_doc store_steps_def)

text \<open>The stack: the gateway's client calls the service, no message is lost.\<close>

definition demo_stack :: "(string \<Rightarrow> int, server_state) api" where
  "demo_stack = wallet_api Some 5 demo_call (\<lambda>_. Delivered) demo_api"

definition demo_gateway :: "(string \<Rightarrow> int, server_state) gateway" where
  "demo_gateway = \<lparr>gw_redis = (\<lambda>_. 0), gw_users = [], gw_wallet = demo_server,
     gw_rateLimited = (\<lambda>_. 0), gw_httpRequests = (\<lambda>_. 0), gw_log = []\<rparr>"

definition demo_limits :: limits where
  "demo_limits = \<lparr>lm_trustProxy = False, lm_auth = 10, lm_user = 60\<rparr>"

definition demo_headers :: "string \<Rightarrow> string" where
  "demo_headers k =
     (if k = ''Authorization'' then ''Bearer tok'' else if k = ''Idempotency-Key'' then ''k9'' else [])"

definition demo_post :: http_request where
  "demo_post = \<lparr>hr_Method = ''POST'', hr_Path = [''transfers''], hr_Header = demo_headers,
     hr_RemoteAddr = ''10.0.0.1:4000'', hr_Body = ''wb'', hr_user = None\<rparr>"

definition demo_get :: http_request where
  "demo_get = \<lparr>hr_Method = ''GET'', hr_Path = [''wallets'', ''me''], hr_Header = demo_headers,
     hr_RemoteAddr = ''10.0.0.1:4000'', hr_Body = [], hr_user = None\<rparr>"

lemma demo_requests [simp]:
  "hr_Method demo_post = ''POST''" "hr_Path demo_post = [''transfers'']" "hr_Header demo_post = demo_headers"
  "hr_Body demo_post = ''wb''" "hr_RemoteAddr demo_post = ''10.0.0.1:4000''"
  "hr_Method demo_get = ''GET''" "hr_Path demo_get = [''wallets'', ''me'']" "hr_Header demo_get = demo_headers"
  by (simp_all add: demo_post_def demo_get_def)

lemma demo_stack_simps [simp]:
  "wc_Transfer demo_stack = (\<lambda>u to amount key. grpc_call Delivered (srv_Transfer Some 5 demo_call u to amount key))"
  "wc_GetWallet demo_stack = (\<lambda>u. grpc_call Delivered (srv_GetWallet Some demo_call u))"
  "wc_CreateWallet demo_stack = (\<lambda>u. grpc_call Delivered (srv_CreateWallet Some demo_call u))"
  "decode_transfer demo_stack b = Some (b, 300)" "api_now demo_stack = 60000000000"
  "redis_exec demo_stack k s = (Inr (s k + 1), s(k := s k + 1))"
  by (simp_all add: demo_stack_def wallet_api_def demo_api_def)

lemma demo_routes [simp]:
  "match_route ''POST'' [''transfers''] = RTransfer" "match_route ''GET'' [''wallets'', ''me''] = RMyWallet"
  by (simp_all add: match_route_def Let_def)

lemma demo_user: "auth_user demo_stack demo_post = Some ''ann''" "auth_user demo_stack demo_get = Some ''ann''"
  by (simp_all add: auth_user_def verify_def demo_headers_def demo_stack_def wallet_api_def demo_api_def
      demo_claims_def unix_seconds_def)

section \<open>Through the stack\<close>

text \<open>A protected request of a user within the limit reaches its handler.\<close>

lemma requireAuth_user:
  assumes "auth_user a r = Some u"
  shows "requireAuth a h r p = h (r\<lparr>hr_user := Some u\<rparr>) p"
  using assms
  by (cases p) (auto simp: requireAuth_def auth_user_def split: option.splits sum.splits prod.splits if_splits)

lemma limit_admitted:
  assumes "redis_exec a (rate_key bucket (keyFn r) (go_div (unix_seconds (api_now a)) 60)) (gw_redis g) = (Inr n, redis')"
    and "n \<le> m"
  shows "\<exists>w1. hw_calls w1 = hw_calls w \<and> hw_body w1 = hw_body w \<and>
    limit a bucket m keyFn h r (w, g) = h r (w1, g\<lparr>gw_redis := redis'\<rparr>)"
proof (intro exI conjI)
  show "limit a bucket m keyFn h r (w, g) =
      h r (set_header ''X-RateLimit-Remaining'' (strconv_Itoa (max 0 (m - n)))
        (set_header ''X-RateLimit-Limit'' (strconv_Itoa m) w), g\<lparr>gw_redis := redis'\<rparr>)"
    using assms by (simp add: limit_def Let_def)
qed simp_all

lemma serve_transfer_201:
  assumes rt: "match_route (hr_Method r) (hr_Path r) = RTransfer" and u: "auth_user a r = Some u"
    and key: "hr_Header r ''Idempotency-Key'' \<noteq> []"
    and dec: "decode_transfer a (take 10240 (hr_Body r)) = Some (to, amount)"
    and redis: "redis_exec a (rate_key ''user'' u (go_div (unix_seconds (api_now a)) 60)) (gw_redis g) = (Inr n, redis')"
      "n \<le> lm_user lm"
    and call: "wc_Transfer a u to amount (hr_Header r ''Idempotency-Key'') (gw_wallet g) = (Inr t, s')"
  shows "\<exists>w g'. serve lm a rnd r g = (w, g') \<and> sent_status w = 201 \<and> gw_wallet g' = s' \<and> gw_redis g' = redis'"
proof -
  obtain w g' where s: "serve lm a rnd r g = (w, g')" by fastforce
  then obtain w0 g1 where
    h: "requireAuth a (limit a ''user'' (lm_user lm) userID (transfer a)) r (w0, g) = (w, g1)"
    and w0: "hw_calls w0 = []" "same_work (w, g') (w, g1)" "gw_redis g' = gw_redis g1"
    by (rule serve_through) (simp add: rt)
  let ?r = "r\<lparr>hr_user := Some u\<rparr>"
  obtain w1 where w1: "hw_calls w1 = hw_calls w0"
    "limit a ''user'' (lm_user lm) userID (transfer a) ?r (w0, g) = transfer a ?r (w1, g\<lparr>gw_redis := redis'\<rparr>)"
    using limit_admitted [of a "''user''" userID ?r g n redis' "lm_user lm" w0 "transfer a"] redis by auto
  have "transfer a ?r (w1, g\<lparr>gw_redis := redis'\<rparr>) =
      (writeJSON 201 (toTransactionJSON t) w1, g\<lparr>gw_redis := redis', gw_wallet := s'\<rparr>)"
    using key dec call by (simp add: transfer_def Let_def readJSON_def answer_tx_def)
  with h w1 have "w = writeJSON 201 (toTransactionJSON t) w1" "g1 = g\<lparr>gw_redis := redis', gw_wallet := s'\<rparr>"
    by (simp_all add: requireAuth_user [OF u])
  with s w0 w1 show ?thesis by (simp add: sent_status_def same_work_def)
qed

text \<open>Two transfers with the same key, the second of which is a replay.\<close>

lemma demo_srv_transfers:
  "\<exists>t s1 s2. srv_Transfer Some 5 demo_call ''ann'' ''wb'' 300 ''k9'' demo_server = (Ret t, s1) \<and>
     srv_Transfer Some 5 demo_call ''ann'' ''wb'' 300 ''k9'' s1 = (Ret t, s2)"
proof -
  obtain d1 where call: "Transfer 5 quiet_env ''ann'' ''wb'' 300 ''k9'' demo_db = (Ret demo_transfer_result, 0, d1)"
    using demo_transfer_call ..
  have "Transfer 5 quiet_env ''ann'' ''wb'' 300 ''k9'' d1 =
      (Ret \<lparr>res_Tx = res_Tx demo_transfer_result, res_Replayed = True\<rparr>, 0, d1)"
    using demo_transfer_again [OF call] .
  with call show ?thesis
    by (simp add: srv_Transfer_def demo_call_def metricsInterceptor_def rpc_Transfer_def parseUUID_def validateMoney_def
        finish_money_def demo_server_def recordResult_def outcome_code_def)
qed

definition demo_served ::
    "(string \<Rightarrow> int, server_state) gateway \<Rightarrow> http_request \<Rightarrow> writer \<times> (string \<Rightarrow> int, server_state) gateway" where
  "demo_served g r = serve demo_limits demo_stack ''12345678'' r g"

lemma demo_posts:
  "\<exists>w1 g1 w2 g2. demo_served demo_gateway demo_post = (w1, g1) \<and> sent_status w1 = 201 \<and>
     demo_served g1 demo_post = (w2, g2) \<and> sent_status w2 = 201"
proof -
  obtain t s1 s2 where "srv_Transfer Some 5 demo_call ''ann'' ''wb'' 300 ''k9'' demo_server = (Ret t, s1)"
    "srv_Transfer Some 5 demo_call ''ann'' ''wb'' 300 ''k9'' s1 = (Ret t, s2)"
    using demo_srv_transfers by blast
  then have calls: "grpc_call Delivered (srv_Transfer Some 5 demo_call ''ann'' ''wb'' 300 ''k9'') demo_server = (Inr t, s1)"
    "grpc_call Delivered (srv_Transfer Some 5 demo_call ''ann'' ''wb'' 300 ''k9'') s1 = (Inr t, s2)"
    by (simp_all only: grpc_call_def network.case prod.case outcome.case)
  let ?k = "rate_key ''user'' ''ann'' (go_div (unix_seconds (api_now demo_stack)) 60)"
  have facts: "match_route (hr_Method demo_post) (hr_Path demo_post) = RTransfer"
    "hr_Header demo_post ''Idempotency-Key'' = ''k9''" "lm_user demo_limits = 60"
    by (simp_all add: demo_headers_def demo_limits_def)
  have "\<exists>w1 g1. serve demo_limits demo_stack ''12345678'' demo_post demo_gateway = (w1, g1) \<and> sent_status w1 = 201 \<and>
      gw_wallet g1 = s1 \<and> gw_redis g1 = (gw_redis demo_gateway)(?k := gw_redis demo_gateway ?k + 1)"
    by (rule serve_transfer_201 [OF facts(1) demo_user(1), where n = "gw_redis demo_gateway ?k + 1" and t = t])
      (simp_all add: facts demo_headers_def demo_gateway_def, rule calls(1))
  then obtain w1 g1 where one: "serve demo_limits demo_stack ''12345678'' demo_post demo_gateway = (w1, g1)"
    "sent_status w1 = 201" "gw_wallet g1 = s1" "gw_redis g1 ?k = 1" by (auto simp: demo_gateway_def)
  have "\<exists>w2 g2. serve demo_limits demo_stack ''12345678'' demo_post g1 = (w2, g2) \<and> sent_status w2 = 201 \<and>
      gw_wallet g2 = s2 \<and> gw_redis g2 = (gw_redis g1)(?k := gw_redis g1 ?k + 1)"
    using one(4)
    by (intro serve_transfer_201 [OF facts(1) demo_user(1), where n = "gw_redis g1 ?k + 1" and t = t])
      (simp_all add: facts demo_headers_def one(3), rule calls(2))
  with one show ?thesis unfolding demo_served_def by blast
qed

text \<open>
  A sign-up and a login with the same address in other letters.
\<close>

definition demo_register :: http_request where
  "demo_register = demo_post\<lparr>hr_Path := [''auth'', ''register''], hr_Body := ''Ann@x.io''\<rparr>"

definition demo_login :: http_request where
  "demo_login = demo_post\<lparr>hr_Path := [''auth'', ''login''], hr_Body := ''ann@X.io''\<rparr>"

lemma demo_emails: "normal_email demo_api ''Ann@x.io'' = ''ann@x.io''" "normal_email demo_api ''ann@X.io'' = ''ann@x.io''"
proof -
  have trim: "strings_TrimSpace ''Ann@x.io'' = ''Ann@x.io''" "strings_TrimSpace ''ann@X.io'' = ''ann@X.io''"
    by (simp_all add: TrimSpace_plain printable_def)
  have lower: "char_of (97::nat) = CHR ''a''" "char_of (120::nat) = CHR ''x''" by code_simp+
  show "normal_email demo_api ''Ann@x.io'' = ''ann@x.io''" "normal_email demo_api ''ann@X.io'' = ''ann@x.io''"
    unfolding normal_email_def trim strings_ToLower_def by (simp_all add: is_ascii_def lower_char_def lower)
qed

lemma demo_api_simps:
  "db_gen demo_api = ''ann''" "db_fault demo_api = None" "api_now demo_api = 60000000000"
  "api_ttl demo_api = 900000000000" "decode_credentials demo_api b = Some (b, ''password'')"
  "mail_ParseAddress demo_api e = (CHR ''@'' \<in> set e)" "bcrypt_generate demo_api pw = Inr (CHR ''h'' # pw)"
  "wc_CreateWallet demo_api u s = (Inl (status_Error Unavailable []), s)"
  by (simp_all add: demo_api_def)

text \<open>The example's user asks twice; between the two answers the counters of the minute expire.\<close>

lemma demo_srv_wallet:
  assumes "sv_db s = demo_db"
  shows "\<exists>x s'. srv_GetWallet Some demo_call ''ann'' s = (Ret x, s') \<and> sv_db s' = demo_db"
proof -
  have "select_wallet_by_user ''ann'' demo_db \<noteq> None" unfolding demo_db_def by code_simp
  with assms show ?thesis
    by (auto simp: srv_GetWallet_def demo_call_def metricsInterceptor_def rpc_GetWallet_def parseUUID_def
        GetWalletByUser_def scanWallet_def QueryRow_def outcome_code_def)
qed

lemma serve_wallet_200:
  assumes rt: "match_route (hr_Method r) (hr_Path r) = RMyWallet" and u: "auth_user a r = Some u"
    and redis: "redis_exec a (rate_key ''user'' u (go_div (unix_seconds (api_now a)) 60)) (gw_redis g) = (Inr n, redis')"
      "n \<le> lm_user lm"
    and call: "wc_GetWallet a u (gw_wallet g) = (Inr x, s')"
  shows "\<exists>w g'. serve lm a rnd r g = (w, g') \<and> sent_status w = 200 \<and> gw_wallet g' = s'"
proof -
  obtain w g' where s: "serve lm a rnd r g = (w, g')" by fastforce
  then obtain w0 g1 where
    h: "requireAuth a (limit a ''user'' (lm_user lm) userID (getMyWallet a)) r (w0, g) = (w, g1)"
    and w0: "hw_calls w0 = []" "same_work (w, g') (w, g1)"
    by (rule serve_through) (simp add: rt)
  let ?r = "r\<lparr>hr_user := Some u\<rparr>"
  obtain w1 where w1: "hw_calls w1 = hw_calls w0"
    "limit a ''user'' (lm_user lm) userID (getMyWallet a) ?r (w0, g) = getMyWallet a ?r (w1, g\<lparr>gw_redis := redis'\<rparr>)"
    using limit_admitted [of a "''user''" userID ?r g n redis' "lm_user lm" w0 "getMyWallet a"] redis by auto
  with h have "w = writeJSON 200 (toWalletJSON x) w1" "gw_wallet g1 = s'"
    using call by (auto simp: requireAuth_user [OF u] getMyWallet_def status_Code_def)
  with s w0 w1 show ?thesis by (simp add: sent_status_def same_work_def)
qed

lemma demo_wallet_200:
  assumes "sv_db s = demo_db"
  shows "\<exists>w g1. demo_served (demo_gateway\<lparr>gw_wallet := s\<rparr>) demo_get = (w, g1) \<and> sent_status w = 200 \<and>
    sv_db (gw_wallet g1) = demo_db"
proof -
  let ?g = "demo_gateway\<lparr>gw_wallet := s\<rparr>"
  let ?k = "rate_key ''user'' ''ann'' (go_div (unix_seconds (api_now demo_stack)) 60)"
  obtain x s' where x: "srv_GetWallet Some demo_call ''ann'' s = (Ret x, s')" "sv_db s' = demo_db"
    using demo_srv_wallet [OF assms] by blast
  have rt: "match_route (hr_Method demo_get) (hr_Path demo_get) = RMyWallet" by simp
  have redis: "redis_exec demo_stack ?k (gw_redis ?g) = (Inr 1, (gw_redis ?g)(?k := 1))"
    by (simp add: demo_gateway_def)
  have call: "wc_GetWallet demo_stack ''ann'' (gw_wallet ?g) = (Inr x, s')" using x by (simp add: grpc_call_def)
  from serve_wallet_200 [OF rt demo_user(2) redis _ call, of demo_limits "''12345678''"] x(2) show ?thesis
    by (auto simp: demo_served_def demo_limits_def)
qed

end
