(* ===== verification/GatewayClaims.thy ===== *)
theory GatewayClaims
  imports GatewayDemo
begin

text \<open>The properties of the gateway, most of them through the whole stack.\<close>

section \<open>Money\<close>

text \<open>
  C10: A \<open>POST /transfers\<close> that is answered 201 moved the money of the user the bearer token
  names, and of nobody else: on the tables as the other requests left them, either the key was
  used for the same transfer before and nothing changed, or exactly the amount of the body went
  from the caller's wallet to the wallet of the body; the answer shows the transaction recorded
  under the caller's key.
\<close>

theorem http_transfer_moves_callers_money:
  assumes "doc_call c" and "server_good (gw_wallet g)"
    and "match_route (hr_Method r) (hr_Path r) = RTransfer"
    and "serve lm (wallet_api parse m c net a) rnd r g = (w, g')" and "sent_status w = 201"
  shows "\<exists>u to amount uid wid d0 x. auth_user a r = Some u \<and>
    decode_transfer a (take 10240 (hr_Body r)) = Some (to, amount) \<and> parse u = Some uid \<and> parse to = Some wid \<and>
    store_steps (sv_db (gw_wallet g)) d0 \<and>
    select_tx_by_key uid (hr_Header r ''Idempotency-Key'') (sv_db (gw_wallet g')) = Some x \<and>
    hw_body w = [toTransactionJSON (tx_toProto (txColumns x))] \<and>
    (transfer_replays uid wid amount (hr_Header r ''Idempotency-Key'') d0 x \<and> sv_db (gw_wallet g') = d0 \<or>
     (\<exists>f. select_wallet_by_user uid d0 = Some f \<and>
        select_tx_by_key uid (hr_Header r ''Idempotency-Key'') d0 = None \<and>
        bank_transfer (wr_id f) wid amount (balances d0) = Some (balances (sv_db (gw_wallet g')))))"
proof -
  from assms(3-5) obtain u to amount t where
    x: "auth_user a r = Some u" "decode_transfer a (take 10240 (hr_Body r)) = Some (to, amount)"
    "wc_Transfer (wallet_api parse m c net a) u to amount (hr_Header r ''Idempotency-Key'') (gw_wallet g) =
      (Inr t, gw_wallet g')" "hw_body w = [toTransactionJSON t]"
    by (rule served_transfer) simp
  from x(3) have "srv_Transfer parse m c u to amount (hr_Header r ''Idempotency-Key'') (gw_wallet g) = (Ret t, gw_wallet g')"
    by (auto simp: wallet_api_def dest: grpc_call_Inr)
  from srv_Transfer_Ret [OF assms(1,2) this] x(1,2,4) show ?thesis by (elim exE conjE) (intro exI conjI; simp)
qed

theorem http_transfer_moves_callers_money_witness:
  "\<exists>w g' x. serve demo_limits demo_stack ''12345678'' demo_post demo_gateway = (w, g') \<and>
     select_tx_by_key ''ann'' ''k9'' (sv_db (gw_wallet g')) = Some x \<and>
     hw_body w = [toTransactionJSON (tx_toProto (txColumns x))]"
proof -
  obtain w g' where run: "demo_served demo_gateway demo_post = (w, g')" "sent_status w = 201"
    using demo_posts by blast
  have good: "server_good (gw_wallet demo_gateway)"
    by (simp add: demo_gateway_def server_good_def demo_server_def demo_db_inv)
  have user: "auth_user demo_api demo_post = Some ''ann''" using demo_user(1) by (simp add: demo_stack_def)
  from http_transfer_moves_callers_money [OF demo_call_doc good _ run(1) [unfolded demo_served_def demo_stack_def] run(2)]
  show ?thesis using run(1) by (auto simp: user demo_served_def demo_headers_def)
qed

text \<open>
  C11: Idempotency through the whole stack: two \<open>POST /transfers\<close> of the same user with the same
  key and the same transfer in the body, both answered 201 -- by any pods, at any times, with
  anything happening to the service in between, lost answers of earlier attempts included --
  show the same transaction.
\<close>

theorem http_transfer_idempotent:
  assumes "doc_call c" and "doc_call c'" and "server_good (gw_wallet g)"
    and "match_route (hr_Method r) (hr_Path r) = RTransfer"
    and "serve lm (wallet_api parse m c net a) rnd r g = (w, g1)" and "sent_status w = 201"
    and "server_later (gw_wallet g1) (gw_wallet g2)"
    and "match_route (hr_Method r') (hr_Path r') = RTransfer"
    and "serve lm' (wallet_api parse m c' net' a') rnd' r' g2 = (w', g3)" and "sent_status w' = 201"
    and "auth_user a r = auth_user a' r'" and "hr_Header r ''Idempotency-Key'' = hr_Header r' ''Idempotency-Key''"
    and "decode_transfer a (take 10240 (hr_Body r)) = decode_transfer a' (take 10240 (hr_Body r'))"
  shows "hw_body w = hw_body w'"
  using assms(11-13)
  by (intro wc.shown_transfers_agree [OF wallet_api_calls assms(1) wallet_api_calls assms(2-10)]) simp_all

theorem http_transfer_idempotent_witness:
  "\<exists>w g1 w' g3. serve demo_limits demo_stack ''12345678'' demo_post demo_gateway = (w, g1) \<and>
     serve demo_limits demo_stack ''12345678'' demo_post g1 = (w', g3) \<and> hw_body w = hw_body w'"
proof -
  obtain w g1 w' g3 where
    a: "demo_served demo_gateway demo_post = (w, g1)" "sent_status w = 201" and
    b: "demo_served g1 demo_post = (w', g3)" "sent_status w' = 201"
    using demo_posts by blast
  have good: "server_good (gw_wallet demo_gateway)"
    by (simp add: demo_gateway_def server_good_def demo_server_def demo_db_inv)
  from http_transfer_idempotent [OF demo_call_doc demo_call_doc good _ a(1) [unfolded demo_served_def demo_stack_def] a(2)
      wc.later_refl _ b(1) [unfolded demo_served_def demo_stack_def] b(2) refl refl refl]
  show ?thesis using a(1) b(1) by (auto simp: demo_served_def)
qed

section \<open>Authentication\<close>

text \<open>
  C12: Without a valid bearer token -- no header, another scheme, an empty, expired or forged
  token, a token without a subject -- no request to a wallet route has any effect: the answer
  is 401 with an error text, the wallet service is not called, the users and the rate
  counters are untouched.
\<close>

theorem unauthenticated_no_effect:
  assumes "protected_route (match_route (hr_Method r) (hr_Path r))" and "auth_user a r = None"
    and "serve lm a rnd r g = (w, g')"
  shows "hw_calls w = [401] \<and> (\<exists>msg. hw_body w = [JObj [(''error'', JStr msg)]]) \<and>
    gw_wallet g' = gw_wallet g \<and> gw_users g' = gw_users g \<and> gw_redis g' = gw_redis g"
proof -
  let ?rt = "match_route (hr_Method r) (hr_Path r)"
  from assms(3) obtain w0 g1 where h: "route_handler lm a ?rt r (w0, g) = (w, g1)"
    and w0: "hw_calls w0 = []" "hw_body w0 = []" "same_work (w, g') (w, g1)" "gw_redis g' = gw_redis g1"
    by (rule serve_through)
  from assms(1) h obtain h' where "requireAuth a h' r (w0, g) = (w, g1)"
    by (auto simp: protected_route_def)
  then show ?thesis
    by (cases rule: requireAuth_through) (use w0 assms(2) in \<open>auto simp: same_work_def\<close>)
qed

theorem unauthenticated_no_effect_witness:
  "hw_calls (fst (demo_served demo_gateway (demo_post\<lparr>hr_Header := (\<lambda>k. ''Bearer forged'')\<rparr>))) = [401]"
proof -
  let ?r = "demo_post\<lparr>hr_Header := (\<lambda>k. ''Bearer forged'')\<rparr>"
  obtain w g' where run: "demo_served demo_gateway ?r = (w, g')" by fastforce
  have "auth_user demo_stack ?r = None"
    by (simp add: auth_user_def verify_def demo_stack_def wallet_api_def demo_api_def)
  from unauthenticated_no_effect [OF _ this run [unfolded demo_served_def]] run show ?thesis
    by (simp add: protected_route_def)
qed

text \<open>
  C34: Sign-up and login round trip: after a 201 from \<open>register\<close>, a login with the same password
  and any spelling of the e-mail that normalises to the same address -- whoever else signed up
  since -- is answered 200 with a token, and until it expires every request that carries it
  is a request of the registered user.
\<close>

theorem register_then_login:
  assumes "bcrypt_doc a" and "jwt_doc a2" and "jwt_sign a3 = jwt_sign a2" and "jwt_parse a3 = jwt_parse a2"
    and "bcrypt_compare a2 = bcrypt_compare a" and "api_secret a3 = api_secret a2"
    and "register a r (w, g) = (w1, g1)" and "hw_calls w1 = hw_calls w @ [201]"
    and "gw_users g2 = gw_users g1 @ others"
    and "decode_credentials a (take 10240 (hr_Body r)) = Some (email, password)"
    and "decode_credentials a2 (take 10240 (hr_Body r2)) = Some (email2, password)"
    and "normal_email a2 email2 = normal_email a email" and "db_fault a2 = None" and "db_gen a \<noteq> []"
    and "issue a2 (db_gen a) = Inr token"
    and "unix_seconds (api_now a3) < unix_seconds (api_now a2 + api_ttl a2)"
    and "hr_Header r3 ''Authorization'' = ''Bearer '' @ token"
  shows "login a2 r2 (w2, g2) =
      (writeJSON 200 (JObj [(''accessToken'', JStr token), (''expiresIn'', JNum (ttl_seconds a2)),
         (''tokenType'', JStr ''Bearer'')]) w2, g2) \<and>
    auth_user a3 r3 = Some (db_gen a)"
proof
  from assms(7,8) obtain hash where b: "bcrypt_generate a password = Inr hash"
    and us: "gw_users g1 = gw_users g @ [\<lparr>us_id = db_gen a, us_email = normal_email a email,
           us_password_hash = hash, us_created_at = api_now a\<rparr>]"
    and new: "\<forall>x\<in>set (gw_users g). us_email x \<noteq> normal_email a email"
    by (rule register_201) (use assms(10) in auto)
  have "find (\<lambda>x. us_email x = normal_email a email) (gw_users g) = None"
    using new by (auto simp: find_None_iff)
  then have found: "find_user (normal_email a2 email2) (gw_users g2) = Some
      \<lparr>us_id = db_gen a, us_email = normal_email a email, us_password_hash = hash, us_created_at = api_now a\<rparr>"
    by (simp add: find_user_def assms(9,12) us find_append)
  have "bcrypt_compare a2 hash password" using assms(1,5) b by (simp add: bcrypt_doc_def)
  then show "login a2 r2 (w2, g2) =
      (writeJSON 200 (JObj [(''accessToken'', JStr token), (''expiresIn'', JNum (ttl_seconds a2)),
         (''tokenType'', JStr ''Bearer'')]) w2, g2)"
    using assms(11,13,15) found
    by (simp add: login_def readJSON_def QueryRow_def checkPassword_def)
  from assms(2,15) have "token \<noteq> []" and "jwt_parse a2 (api_secret a2) (api_now a3) token =
      Inr \<lparr>cl_Subject = db_gen a, cl_IssuedAt = unix_seconds (api_now a2),
        cl_ExpiresAt = unix_seconds (api_now a2 + api_ttl a2)\<rparr>"
    using assms(16) by (auto simp: issue_def jwt_doc_def)
  then show "auth_user a3 r3 = Some (db_gen a)"
    using assms(4,6,14,17) by (simp add: auth_user_bearer verify_def)
qed

theorem register_then_login_witness:
  "fst (login demo_api demo_login (new_writer, snd (register demo_api demo_register (new_writer, demo_gateway)))) =
     writeJSON 200 (JObj [(''accessToken'', JStr ''tok''), (''expiresIn'', JNum 900), (''tokenType'', JStr ''Bearer'')])
       new_writer \<and>
   auth_user demo_api demo_post = Some ''ann''"
proof -
  obtain w1 g1 where reg: "register demo_api demo_register (new_writer, demo_gateway) = (w1, g1)" by fastforce
  note api = demo_api_simps
  have bodies: "hr_Body demo_register = ''Ann@x.io''" "hr_Body demo_login = ''ann@X.io''"
    by (simp_all add: demo_register_def demo_login_def)
  have "hw_calls (fst (register demo_api demo_register (new_writer, demo_gateway))) = [201]"
    by (simp add: register_def readJSON_def bodies api demo_emails Let_def hashPassword_def insert_user_def
        demo_gateway_def)
  then have ok: "hw_calls w1 = hw_calls new_writer @ [201]" by (simp add: reg)
  have iss: "issue demo_api (db_gen demo_api) = Inr ''tok''"
    by (simp add: issue_def demo_api_def demo_claims_def unix_seconds_def)
  have ttl: "ttl_seconds demo_api = 900" by (simp add: ttl_seconds_def api go_div_def)
  have exp: "unix_seconds (api_now demo_api) < unix_seconds (api_now demo_api + api_ttl demo_api)"
    by (simp add: api unix_seconds_def)
  note all = register_then_login [OF demo_api_docs(2,1) refl refl refl refl reg ok, of g1 "[]" _ _ demo_login _
      "''tok''" demo_post new_writer, OF _ _ _ _ api(2) _ iss exp]
  have "login demo_api demo_login (new_writer, g1) = (writeJSON 200 (JObj [(''accessToken'', JStr ''tok''),
      (''expiresIn'', JNum (ttl_seconds demo_api)), (''tokenType'', JStr ''Bearer'')]) new_writer, g1) \<and>
      auth_user demo_api demo_post = Some (db_gen demo_api)"
    by (rule all [of "''Ann@x.io''" "''password''" "''ann@X.io''"])
      (simp_all add: api bodies demo_emails demo_headers_def)
  then show ?thesis by (simp add: reg ttl api)
qed

section \<open>Wallets\<close>

text \<open>
  The wallet \<open>GET /wallets/me\<close> shows never changes its identity: two answers 200 for the same
  user, with anything in between -- a failed creation at sign-up, a creation by another pod,
  lost answers -- have the same wallet id, although each of them may be the request that
  created the wallet.
\<close>

theorem http_wallet_stable:
  assumes "server_good (gw_wallet g)"
    and "match_route (hr_Method r) (hr_Path r) = RMyWallet"
    and "serve lm (wallet_api parse m c net a) rnd r g = (w, g1)" and "sent_status w = 200"
    and "server_later (gw_wallet g1) (gw_wallet g2)"
    and "match_route (hr_Method r') (hr_Path r') = RMyWallet"
    and "serve lm' (wallet_api parse m c' net' a') rnd' r' g2 = (w', g3)" and "sent_status w' = 200"
    and "auth_user a r = auth_user a' r'"
  shows "\<exists>x y. hw_body w = [toWalletJSON x] \<and> hw_body w' = [toWalletJSON y] \<and> pw_Id x = pw_Id y"
  using assms(9)
  by (intro wc.shown_wallets_agree [OF wallet_api_calls wallet_api_calls assms(1-8)]) simp

theorem http_wallet_stable_witness:
  "\<exists>w g1 w' g3 x y. demo_served demo_gateway demo_get = (w, g1) \<and>
     demo_served (demo_gateway\<lparr>gw_wallet := gw_wallet g1\<rparr>) demo_get = (w', g3) \<and>
     hw_body w = [toWalletJSON x] \<and> hw_body w' = [toWalletJSON y] \<and> pw_Id x = pw_Id y"
proof -
  have start: "demo_gateway\<lparr>gw_wallet := demo_server\<rparr> = demo_gateway" "sv_db demo_server = demo_db"
    by (simp_all add: demo_gateway_def demo_server_def)
  from demo_wallet_200 [OF start(2)] obtain w g1 where
    a: "demo_served demo_gateway demo_get = (w, g1)" "sent_status w = 200" "sv_db (gw_wallet g1) = demo_db"
    unfolding start(1) by blast
  from demo_wallet_200 [OF a(3)] obtain w' g3 where
    b: "demo_served (demo_gateway\<lparr>gw_wallet := gw_wallet g1\<rparr>) demo_get = (w', g3)" "sent_status w' = 200" by blast
  have good: "server_good (gw_wallet demo_gateway)"
    by (simp add: demo_gateway_def server_good_def demo_server_def demo_db_inv)
  have rt: "match_route (hr_Method demo_get) (hr_Path demo_get) = RMyWallet" by simp
  have later: "server_later (gw_wallet g1) (gw_wallet (demo_gateway\<lparr>gw_wallet := gw_wallet g1\<rparr>))"
    by (simp add: wc.later_refl)
  from http_wallet_stable [OF good rt a(1) [unfolded demo_served_def demo_stack_def] a(2) later rt
      b(1) [unfolded demo_served_def demo_stack_def] b(2) refl] a(1) b(1)
  show ?thesis by blast
qed

section \<open>Answers\<close>



section \<open>Rate limit\<close>



end
