(* ===== verification/GoDuration.thy ===== *)
theory GoDuration
  imports GoText
begin

text \<open>
  \<open>time.ParseDuration\<close> of Go's standard library, as \<open>platform.EnvDuration\<close> uses it.  Sums are those
  of \<open>uint64\<close>, with the wrap-around written out.  For a fraction the library computes
  \<open>uint64(float64(f) * (float64(unit) / scale))\<close>; that floating-point expression is the
  parameter \<open>frac\<close>.
\<close>

section \<open>The parser\<close>

definition unitMap :: "(string \<times> int) list" where
  "unitMap = [(''ns'', 1), (''us'', 1000), (bytes [194, 181, 115], 1000), (bytes [206, 188, 115], 1000),
     (''ms'', 1000000), (''s'', 1000000000), (''m'', 60000000000), (''h'', 3600000000000)]"

text \<open>\<open>leadingInt\<close>: the digits in front, with the overflow checks after every digit.\<close>

fun leadingInt :: "int \<Rightarrow> string \<Rightarrow> (int \<times> string) option" where
  "leadingInt x [] = Some (x, [])"
| "leadingInt x (c # s) =
     (if \<not> is_digit c then Some (x, c # s)
      else if 2 ^ 63 div 10 < x then None
      else let y = x * 10 + digit_value c in if 2 ^ 63 < y then None else leadingInt y s)"

text \<open>\<open>leadingFraction\<close>: further digits are dropped once the value would overflow.\<close>

fun leadingFraction :: "bool \<Rightarrow> int \<Rightarrow> int \<Rightarrow> string \<Rightarrow> int \<times> int \<times> string" where
  "leadingFraction overflow x scale [] = (x, scale, [])"
| "leadingFraction overflow x scale (c # s) =
     (if \<not> is_digit c then (x, scale, c # s)
      else if overflow \<or> (2 ^ 63 - 1) div 10 < x then leadingFraction True x scale s
      else let y = x * 10 + digit_value c in
           if 2 ^ 63 < y then leadingFraction True x scale s
           else leadingFraction False y (scale * 10) s)"

definition unit_char :: "char \<Rightarrow> bool" where
  "unit_char c \<longleftrightarrow> c \<noteq> CHR ''.'' \<and> \<not> is_digit c"

text \<open>One round of the loop: a number with its unit, and the rest of the text.\<close>

definition parse_unit :: "(int \<Rightarrow> int \<Rightarrow> int \<Rightarrow> int) \<Rightarrow> string \<Rightarrow> (int \<times> string) option" where
  "parse_unit frac s =
     (if s = [] \<or> unit_char (hd s) then None
      else case leadingInt 0 s of
        None \<Rightarrow> None
      | Some (v, s1) \<Rightarrow>
          let pre = (length s \<noteq> length s1);
              (f, scale, s2, post) =
                (if s1 \<noteq> [] \<and> hd s1 = CHR ''.''
                 then (case leadingFraction False 0 1 (tl s1) of
                         (f, scale, r) \<Rightarrow> (f, scale, r, length (tl s1) \<noteq> length r))
                 else (0, 1, s1, False))
          in if \<not> pre \<and> \<not> post then None
             else let u = takeWhile unit_char s2; rest = dropWhile unit_char s2
             in if u = [] then None
                else case map_of unitMap u of
                  None \<Rightarrow> None
                | Some unit \<Rightarrow>
                    if 2 ^ 63 div unit < v then None
                    else let v1 = v * unit + (if 0 < f then frac f scale unit else 0)
                         in if 2 ^ 63 < v1 then None else Some (v1, rest))"

lemma leadingInt_length: "leadingInt x s = Some (y, r) \<Longrightarrow> length r \<le> length s"
  by (induction x s rule: leadingInt.induct) (auto simp: Let_def split: if_splits)

lemma leadingFraction_length: "leadingFraction b x sc s = (y, sc', r) \<Longrightarrow> length r \<le> length s"
  by (induction b x sc s rule: leadingFraction.induct) (auto simp: Let_def split: if_splits)

lemma dropWhile_shorter: "takeWhile P xs \<noteq> [] \<Longrightarrow> length (dropWhile P xs) < length xs"
  by (cases xs) (auto simp: less_Suc_eq_le length_dropWhile_le split: if_splits)

lemma parse_unit_length:
  assumes "parse_unit frac s = Some (v, rest)"
  shows "length rest < length s"
proof -
  from assms obtain x s1 where s1: "leadingInt 0 s = Some (x, s1)"
    by (auto simp: parse_unit_def split: if_splits option.splits)
  obtain f scale r where fr: "leadingFraction False 0 1 (tl s1) = (f, scale, r)"
    by (cases "leadingFraction False 0 1 (tl s1)")
  define s2 where "s2 = (if s1 \<noteq> [] \<and> hd s1 = CHR ''.'' then r else s1)"
  have "length s2 \<le> length s"
    using leadingInt_length [OF s1] leadingFraction_length [OF fr] by (auto simp: s2_def)
  moreover have "takeWhile unit_char s2 \<noteq> [] \<and> rest = dropWhile unit_char s2"
    using assms s1 fr by (auto simp: parse_unit_def Let_def s2_def split: if_splits option.splits)
  ultimately show ?thesis using dropWhile_shorter [of unit_char s2] by simp
qed

function parse_units :: "(int \<Rightarrow> int \<Rightarrow> int \<Rightarrow> int) \<Rightarrow> int \<Rightarrow> string \<Rightarrow> int option" where
  "parse_units frac d s =
     (if s = [] then Some d
      else case parse_unit frac s of
        None \<Rightarrow> None
      | Some (v, rest) \<Rightarrow>
          let d1 = (d + v) mod 2 ^ 64 in if 2 ^ 63 < d1 then None else parse_units frac d1 rest)"
  by pat_completeness auto
termination
  by (relation "measure (\<lambda>(frac, d, s). length s)") (auto simp: parse_unit_length)

declare parse_units.simps [simp del]

definition ParseDuration :: "(int \<Rightarrow> int \<Rightarrow> int \<Rightarrow> int) \<Rightarrow> string \<Rightarrow> duration option" where
  "ParseDuration frac s =
     (let neg = (s \<noteq> [] \<and> hd s = CHR ''-'');
          s1 = (if s \<noteq> [] \<and> (hd s = CHR ''-'' \<or> hd s = CHR ''+'') then tl s else s)
      in if s1 = ''0'' then Some 0
         else if s1 = [] then None
         else case parse_units frac 0 s1 of
           None \<Rightarrow> None
         | Some d \<Rightarrow>
             if neg then Some (wrap64 (- wrap64 d))
             else if 2 ^ 63 - 1 < d then None else Some d)"

section \<open>Whole numbers of a unit\<close>

lemma digit_value_range: "is_digit c \<Longrightarrow> 0 \<le> digit_value c \<and> digit_value c \<le> 9"
  by (simp add: is_digit_def)

lemma foldl_digits_ge: "list_all is_digit ds \<Longrightarrow> 0 \<le> x \<Longrightarrow> x \<le> foldl (\<lambda>n c. n * 10 + digit_value c) x ds"
proof (induction ds arbitrary: x)
  case (Cons c ds)
  then have "0 \<le> digit_value c" by (simp add: digit_value_range)
  then have "x \<le> x * 10 + digit_value c" "0 \<le> x * 10 + digit_value c" using Cons.prems(2) by simp_all
  from Cons.IH [OF _ this(2)] this(1) Cons.prems(1) show ?case by simp
qed simp

lemma leadingInt_digits:
  assumes "list_all is_digit ds" and "0 \<le> x" and "foldl (\<lambda>n c. n * 10 + digit_value c) x ds \<le> 2 ^ 63"
    and "u \<noteq> []" and "\<not> is_digit (hd u)"
  shows "leadingInt x (ds @ u) = Some (foldl (\<lambda>n c. n * 10 + digit_value c) x ds, u)"
  using assms(1-3)
proof (induction ds arbitrary: x)
  case Nil
  with assms(4,5) show ?case by (cases u) simp_all
next
  case (Cons c ds)
  let ?y = "x * 10 + digit_value c"
  have c: "0 \<le> digit_value c" using Cons.prems(1) by (simp add: digit_value_range)
  have y: "0 \<le> ?y" using c Cons.prems(2) by simp
  have le: "?y \<le> 2 ^ 63" using foldl_digits_ge [of ds ?y] Cons.prems(1,3) y by simp
  have "\<not> 2 ^ 63 div 10 < x" using le c by simp
  with Cons le y show ?case by (simp add: Let_def)
qed

lemma unit_char_code: "unit_char c \<longleftrightarrow> (of_char c :: nat) \<noteq> 46 \<and> \<not> (48 \<le> (of_char c :: nat) \<and> (of_char c :: nat) \<le> 57)"
proof -
  have "c = CHR ''.'' \<longleftrightarrow> (of_char c :: nat) = of_char (CHR ''.'')" using of_char_eq_iff by metis
  then show ?thesis by (auto simp: unit_char_def is_digit_def digit_value_def)
qed

lemma unitMap_chars: "(u, unit) \<in> set unitMap \<Longrightarrow> u \<noteq> [] \<and> list_all unit_char u \<and> 0 < unit"
  by (auto simp: unitMap_def bytes_def unit_char_code)

lemma unitMap_map_of: "(u, unit) \<in> set unitMap \<Longrightarrow> map_of unitMap u = Some unit"
proof (rule map_of_is_SomeI)
  show "distinct (map fst unitMap)" unfolding unitMap_def bytes_def by simp
qed

lemma parse_unit_whole:
  assumes "0 \<le> n" and "(u, unit) \<in> set unitMap" and "n * unit \<le> 2 ^ 63"
  shows "parse_unit frac (dec_text n @ u) = Some (n * unit, [])"
proof -
  note u = unitMap_chars [OF assms(2)] unitMap_map_of [OF assms(2)]
  have digits: "list_all is_digit (dec_text n)" "digits_value (dec_text n) = n"
    using dec_text_value [OF assms(1)] by simp_all
  have le: "n \<le> 2 ^ 63 div unit" using assms(3) u by (simp add: zdiv_mono1 [of "n * unit" "2 ^ 63" unit, simplified])
  have "n \<le> n * unit" using assms(1) u by (simp add: mult_le_cancel_left1)
  then have "n \<le> 2 ^ 63" using assms(3) by simp
  moreover have "unit_char (hd u)" using u by (cases u) auto
  ultimately have int: "leadingInt 0 (dec_text n @ u) = Some (n, u)"
    using leadingInt_digits [of "dec_text n" 0 u] digits u by (simp add: digits_value_def unit_char_def)
  have "is_digit (hd (dec_text n))" using digits(1) by (cases "dec_text n") simp_all
  then have start: "\<not> unit_char (hd (dec_text n @ u))" by (simp add: unit_char_def)
  have parts: "takeWhile unit_char u = u" "dropWhile unit_char u = []" "hd u \<noteq> CHR ''.''"
    using u \<open>unit_char (hd u)\<close> by (simp_all add: list_all_iff unit_char_def)
  show ?thesis
    using u start le assms(3) by (simp add: parse_unit_def int Let_def parts)
qed

lemma ParseDuration_whole:
  assumes "0 \<le> n" and "(u, unit) \<in> set unitMap" and "n * unit < 2 ^ 63"
  shows "ParseDuration frac (strconv_Itoa n @ u) = Some (n * unit)"
proof -
  note u = unitMap_chars [OF assms(2)]
  have txt0: "strconv_Itoa n = dec_text n" using assms(1) by (simp add: strconv_Itoa_def)
  have "is_digit (hd (dec_text n))" using dec_text_value [OF assms(1)] by (cases "dec_text n") simp_all
  then have sign: "hd (dec_text n) \<noteq> CHR ''-''" "hd (dec_text n) \<noteq> CHR ''+''"
    by (auto simp: is_digit_def digit_value_def)
  have "length u \<noteq> 0" "length (dec_text n) \<noteq> 0" using u by simp_all
  then have "dec_text n @ u \<noteq> ''0''" by (metis One_nat_def Suc_eq_plus1 add_eq_0_iff_both_eq_0 add_is_1 length_append
        length_Cons list.size(3))
  moreover have "0 \<le> n * unit" using assms(1) u by simp
  ultimately show ?thesis
    using sign assms(3) parse_unit_whole [OF assms(1,2), of frac]
    by (simp add: txt0 ParseDuration_def Let_def parse_units.simps [of frac 0] parse_units.simps [of frac _ "[]"])
qed

text \<open>A parsed duration is an \<open>int64\<close>.\<close>

lemma parse_units_range: "0 \<le> d \<Longrightarrow> d \<le> 2 ^ 63 \<Longrightarrow> parse_units frac d s = Some n \<Longrightarrow> 0 \<le> n \<and> n \<le> 2 ^ 63"
proof (induction frac d s rule: parse_units.induct)
  case (1 frac d s)
  then show ?case
    by (auto simp: parse_units.simps [of frac d s] Let_def split: if_splits option.splits prod.splits)
qed

lemma ParseDuration_range: "ParseDuration frac s = Some d \<Longrightarrow> in_int64 d"
  using wrap64_range
  by (auto simp: ParseDuration_def Let_def in_int64_alt dest!: parse_units_range [rotated 2] split: if_splits option.splits)

end
