(* ===== verification/Platform.thy ===== *)
theory Platform
  imports Http GoDuration "HOL-Library.AList"
begin

text \<open>
  \<open>internal/platform\<close>: configuration from the environment (\<open>config.go\<close>), the ops server
  (\<open>ops.go\<close>) and graceful shutdown (\<open>shutdown.go\<close>), with the clean-up sequences at the end of the
  two \<open>main\<close> functions.  A function that may end the process returns \<open>Exits code\<close>; the text it
  prints on standard error is left out.
\<close>

section \<open>Configuration\<close>

datatype 'a run = Returns 'a | Exits int

text \<open>\<open>os.Getenv\<close>: the value of a variable, the empty text when it is not set.\<close>

type_synonym environ = "string \<Rightarrow> string"

definition MustEnv :: "environ \<Rightarrow> string \<Rightarrow> string run" where
  "MustEnv env key = (if env key = [] then Exits 1 else Returns (env key))"

definition EnvOr :: "environ \<Rightarrow> string \<Rightarrow> string \<Rightarrow> string" where
  "EnvOr env key def = (if env key \<noteq> [] then env key else def)"

definition EnvInt :: "environ \<Rightarrow> string \<Rightarrow> int \<Rightarrow> int run" where
  "EnvInt env key def =
     (if env key = [] then Returns def
      else case strconv_Atoi (env key) of None \<Rightarrow> Exits 1 | Some n \<Rightarrow> Returns n)"

definition EnvDuration :: "(int \<Rightarrow> int \<Rightarrow> int \<Rightarrow> int) \<Rightarrow> environ \<Rightarrow> string \<Rightarrow> duration \<Rightarrow> duration run" where
  "EnvDuration frac env key def =
     (if env key = [] then Returns def
      else case ParseDuration frac (env key) of None \<Rightarrow> Exits 1 | Some d \<Rightarrow> Returns d)"

section \<open>The ops server\<close>

text \<open>
  A check looks at the state \<open>'w\<close> of the dependencies.  The Go map of checks is an association
  list with distinct names; \<open>range\<close> visits it in any order, the parameter \<open>order\<close> below.
\<close>

record 'w Ops =
  op_checks :: "(string \<times> ('w \<Rightarrow> go_error option)) list"
  op_draining :: bool
  op_server :: "string option"

definition NewOps :: "'w Ops" where
  "NewOps = \<lparr>op_checks = [], op_draining = False, op_server = None\<rparr>"

definition AddCheck :: "string \<Rightarrow> ('w \<Rightarrow> go_error option) \<Rightarrow> 'w Ops \<Rightarrow> 'w Ops" where
  "AddCheck name check o' = o'\<lparr>op_checks := AList.update name check (op_checks o')\<rparr>"

definition SetDraining :: "'w Ops \<Rightarrow> 'w Ops" where
  "SetDraining o' = o'\<lparr>op_draining := True\<rparr>"

text \<open>\<open>Start\<close>: the address the server listens on; its routes are \<open>ops_route\<close>.\<close>

definition Start :: "environ \<Rightarrow> 'w Ops \<Rightarrow> 'w Ops" where
  "Start env o' = o'\<lparr>op_server := Some (CHR '':'' # EnvOr env ''OPS_PORT'' ''9090'')\<rparr>"

text \<open>One turn of the loop over the checks.\<close>

definition run_check ::
    "'w \<Rightarrow> string \<times> ('w \<Rightarrow> go_error option) \<Rightarrow> bool \<times> (string \<times> string) list \<Rightarrow> bool \<times> (string \<times> string) list" where
  "run_check world =
     (\<lambda>(name, check) (ok, results).
        case check world of
          Some err \<Rightarrow> (False, AList.update name (''fail: '' @ error_text err) results)
        | None \<Rightarrow> (ok, AList.update name ''ok'' results))"

text \<open>\<open>encoding/json\<close> writes the keys of a map in order.\<close>

definition readyz ::
    "((string \<times> ('w \<Rightarrow> go_error option)) list \<Rightarrow> (string \<times> ('w \<Rightarrow> go_error option)) list) \<Rightarrow>
     'w Ops \<Rightarrow> 'w \<Rightarrow> writer \<Rightarrow> writer" where
  "readyz order o' world w =
     (if op_draining o' then writeJSON 503 (JObj [(''status'', JStr ''draining'')]) w
      else case fold (run_check world) (order (op_checks o')) (True, []) of
        (ok, results) \<Rightarrow>
          writeJSON (if ok then 200 else 503)
            (JObj [(''checks'', JObj (map (\<lambda>(n, t). (n, JStr t)) (sort_key fst results))),
                   (''status'', JStr (if ok then ''ok'' else ''not_ready''))]) w)"

datatype ops_route = Healthz | Readyz | Metrics | NoMethod | NoRoute

text \<open>The mux of \<open>Start\<close>: \<open>GET\<close> patterns (which also match \<open>HEAD\<close>) on three paths.\<close>

definition ops_route :: "string \<Rightarrow> string list \<Rightarrow> ops_route" where
  "ops_route meth path =
     (if path \<in> {[''healthz''], [''readyz''], [''metrics'']}
      then if meth \<noteq> ''GET'' \<and> meth \<noteq> ''HEAD'' then NoMethod
           else if path = [''healthz''] then Healthz else if path = [''readyz''] then Readyz else Metrics
      else NoRoute)"

definition healthz :: "writer \<Rightarrow> writer" where
  "healthz w = writeJSON 200 (JObj [(''status'', JStr ''ok'')]) w"

section \<open>Graceful shutdown\<close>

text \<open>
  \<open>BeginShutdown\<close>, for a signal at time \<open>t\<close>: when the forced exit fires and when the function
  returns.  A timer or a sleep of a negative duration is over at once.
\<close>

definition BeginShutdown ::
    "(int \<Rightarrow> int \<Rightarrow> int \<Rightarrow> int) \<Rightarrow> environ \<Rightarrow> timestamp \<Rightarrow> 'w Ops \<Rightarrow> (timestamp \<times> timestamp) run \<times> 'w Ops" where
  "BeginShutdown frac env t o' =
     (case EnvDuration frac env ''SHUTDOWN_DELAY'' 5000000000 of
        Exits c \<Rightarrow> (Exits c, o')
      | Returns delay \<Rightarrow>
          (case EnvDuration frac env ''SHUTDOWN_TIMEOUT'' 20000000000 of
             Exits c \<Rightarrow> (Exits c, o')
           | Returns timeout \<Rightarrow>
               (Returns (t + max 0 (wrap64 (delay + timeout)), t + max 0 delay), SetDraining o')))"

text \<open>
  The clean-up of a \<open>main\<close>: calls that take their time, calls that also end when the context
  does, and \<open>context.WithTimeout\<close>.
\<close>

datatype cleanup = Call string | CallCtx string | WithTimeout duration

definition gateway_cleanup :: "cleanup list" where
  "gateway_cleanup = [WithTimeout 15000000000, CallCtx ''server.Shutdown'', Call ''walletConn.Close'',
     Call ''rdb.Close'', Call ''pool.Close'', CallCtx ''ops.Shutdown'']"

definition wallet_cleanup :: "cleanup list" where
  "wallet_cleanup = [Call ''grpcServer.GracefulStop'', Call ''relay.Stop'', Call ''writer.Close'', Call ''pool.Close'',
     WithTimeout 5000000000, CallCtx ''ops.Shutdown'']"

text \<open>
  Running it with the forced exit at \<open>force\<close>: \<open>dur\<close> says how long each call takes when left alone
  (\<open>None\<close>: for ever), \<open>ctx\<close> is the deadline of the context.  The result is the calls that
  finished, the exit code and the time of the exit.
\<close>

definition until :: "timestamp \<Rightarrow> timestamp option \<Rightarrow> duration option \<Rightarrow> timestamp option" where
  "until now ctx d =
     (case (d, ctx) of
        (None, None) \<Rightarrow> None
      | (Some x, None) \<Rightarrow> Some (now + max 0 x)
      | (None, Some c) \<Rightarrow> Some (max now c)
      | (Some x, Some c) \<Rightarrow> Some (max now (min (now + max 0 x) c)))"

fun run_cleanup ::
    "(string \<Rightarrow> duration option) \<Rightarrow> timestamp \<Rightarrow> timestamp option \<Rightarrow> cleanup list \<Rightarrow> timestamp \<Rightarrow>
     string list \<times> int \<times> timestamp" where
  "run_cleanup dur force ctx [] now = ([], 0, now)"
| "run_cleanup dur force ctx (WithTimeout d # cs) now = run_cleanup dur force (Some (now + d)) cs now"
| "run_cleanup dur force ctx (Call n # cs) now =
     (case until now None (dur n) of
        None \<Rightarrow> ([], 1, force)
      | Some t \<Rightarrow> if force \<le> t then ([], 1, force)
                 else case run_cleanup dur force ctx cs t of (ns, r) \<Rightarrow> (n # ns, r))"
| "run_cleanup dur force ctx (CallCtx n # cs) now =
     (case until now ctx (dur n) of
        None \<Rightarrow> ([], 1, force)
      | Some t \<Rightarrow> if force \<le> t then ([], 1, force)
                 else case run_cleanup dur force ctx cs t of (ns, r) \<Rightarrow> (n # ns, r))"

definition stop_process ::
    "(int \<Rightarrow> int \<Rightarrow> int \<Rightarrow> int) \<Rightarrow> environ \<Rightarrow> (string \<Rightarrow> duration option) \<Rightarrow> cleanup list \<Rightarrow> timestamp \<Rightarrow> 'w Ops \<Rightarrow>
     (string list \<times> int \<times> timestamp) \<times> 'w Ops" where
  "stop_process frac env dur cs t o' =
     (case BeginShutdown frac env t o' of
        (Exits c, o1) \<Rightarrow> (([], c, t), o1)
      | (Returns (force, now), o1) \<Rightarrow>
          (if force \<le> now then ([], 1, force) else run_cleanup dur force None cs now, o1))"

section \<open>Starting the services\<close>

text \<open>
  The settings the two \<open>main\<close> functions read, in their order; the first one that is missing or
  malformed ends the process.  The parsers of the third-party URLs are the parameters \<open>pool_ok\<close>,
  \<open>redis_ok\<close> and \<open>grpc_ok\<close>.
\<close>

definition and_then :: "'a run \<Rightarrow> ('a \<Rightarrow> 'b run) \<Rightarrow> 'b run" where
  "and_then m f = (case m of Exits c \<Rightarrow> Exits c | Returns x \<Rightarrow> f x)"

definition exit_unless :: "bool \<Rightarrow> 'b run \<Rightarrow> 'b run" where
  "exit_unless b m = (if b then m else Exits 1)"

text \<open>\<open>strings.Split(s, ",")\<close>.\<close>

fun split_comma :: "string \<Rightarrow> string list" where
  "split_comma [] = [[]]"
| "split_comma (c # s) =
     (if c = CHR '','' then [] # split_comma s
      else (case split_comma s of [] \<Rightarrow> [[c]] | p # ps \<Rightarrow> (c # p) # ps))"

record wallet_settings =
  ws_dsn :: string
  ws_brokers :: "string list"
  ws_grpcPort :: string
  ws_poll :: duration
  ws_batchSize :: int
  ws_retention :: duration
  ws_maxRetries :: int

definition wallet_main ::
    "(int \<Rightarrow> int \<Rightarrow> int \<Rightarrow> int) \<Rightarrow> (string \<Rightarrow> bool) \<Rightarrow> ('w \<Rightarrow> go_error option) \<Rightarrow> environ \<Rightarrow> (wallet_settings \<times> 'w Ops) run" where
  "wallet_main frac pool_ok ping env =
     and_then (MustEnv env ''DATABASE_URL'') (\<lambda>dsn.
     and_then (MustEnv env ''KAFKA_BROKERS'') (\<lambda>brokers.
     exit_unless (pool_ok dsn) (
     let ops = Start env (AddCheck ''postgres'' ping NewOps) in
     and_then (EnvDuration frac env ''OUTBOX_POLL_INTERVAL'' 200000000) (\<lambda>poll.
     and_then (EnvInt env ''OUTBOX_BATCH_SIZE'' 100) (\<lambda>batchSize.
     and_then (EnvDuration frac env ''OUTBOX_RETENTION'' (7 * 24 * 3600000000000)) (\<lambda>retention.
     and_then (EnvInt env ''OPTIMISTIC_LOCK_RETRIES'' 10) (\<lambda>maxRetries.
     Returns (\<lparr>ws_dsn = dsn, ws_brokers = split_comma brokers, ws_grpcPort = EnvOr env ''GRPC_PORT'' ''50051'',
       ws_poll = poll, ws_batchSize = batchSize, ws_retention = retention, ws_maxRetries = maxRetries\<rparr>, ops))))))))"

record gateway_settings =
  gs_dsn :: string
  gs_redisURL :: string
  gs_walletAddr :: string
  gs_jwtSecret :: string
  gs_port :: string
  gs_ttl :: duration
  gs_callTimeout :: duration
  gs_trustProxy :: bool
  gs_authLimit :: int
  gs_userLimit :: int

definition gateway_main ::
    "(int \<Rightarrow> int \<Rightarrow> int \<Rightarrow> int) \<Rightarrow> (string \<Rightarrow> bool) \<Rightarrow> (string \<Rightarrow> bool) \<Rightarrow> (string \<Rightarrow> bool) \<Rightarrow> ('w \<Rightarrow> go_error option) \<Rightarrow>
     environ \<Rightarrow> (gateway_settings \<times> 'w Ops) run" where
  "gateway_main frac pool_ok redis_ok grpc_ok ping env =
     and_then (MustEnv env ''DATABASE_URL'') (\<lambda>dsn.
     and_then (MustEnv env ''REDIS_URL'') (\<lambda>redisURL.
     and_then (MustEnv env ''WALLET_GRPC_ADDR'') (\<lambda>walletAddr.
     and_then (MustEnv env ''JWT_SECRET'') (\<lambda>jwtSecret.
     exit_unless (pool_ok dsn) (exit_unless (redis_ok redisURL) (exit_unless (grpc_ok walletAddr) (
     let ops = Start env (AddCheck ''postgres'' ping NewOps) in
     and_then (EnvDuration frac env ''JWT_TTL'' (15 * 60000000000)) (\<lambda>ttl.
     and_then (EnvDuration frac env ''WALLET_CALL_TIMEOUT'' 3000000000) (\<lambda>callTimeout.
     and_then (EnvInt env ''RATE_LIMIT_AUTH_PER_MINUTE'' 10) (\<lambda>authLimit.
     and_then (EnvInt env ''RATE_LIMIT_PER_MINUTE'' 60) (\<lambda>userLimit.
     Returns (\<lparr>gs_dsn = dsn, gs_redisURL = redisURL, gs_walletAddr = walletAddr, gs_jwtSecret = jwtSecret,
       gs_port = EnvOr env ''PORT'' ''8080'', gs_ttl = ttl, gs_callTimeout = callTimeout,
       gs_trustProxy = (EnvOr env ''TRUST_PROXY'' ''false'' = ''true''), gs_authLimit = authLimit,
       gs_userLimit = userLimit\<rparr>, ops))))))))))))"

end
