(* ===== verification/PlatformClaims.thy ===== *)
theory PlatformClaims
  imports Platform "HOL-Library.Sublist" "HOL-Library.Multiset"
begin

text \<open>The properties of \<open>internal/platform\<close> and of the shutdown sequences.\<close>

section \<open>Checks\<close>

definition ops_ok :: "'w Ops \<Rightarrow> bool" where
  "ops_ok o' \<longleftrightarrow> distinct (map fst (op_checks o'))"

lemma ops_ok_operations:
  "ops_ok NewOps" "ops_ok o' \<Longrightarrow> ops_ok (AddCheck n c o')" "ops_ok o' \<Longrightarrow> ops_ok (SetDraining o')"
  "ops_ok o' \<Longrightarrow> ops_ok (Start env o')"
  by (simp_all add: ops_ok_def NewOps_def AddCheck_def SetDraining_def Start_def distinct_update)

definition check_text :: "'w \<Rightarrow> string \<times> ('w \<Rightarrow> go_error option) \<Rightarrow> string \<times> string" where
  "check_text world = (\<lambda>(n, c). (n, case c world of None \<Rightarrow> ''ok'' | Some e \<Rightarrow> ''fail: '' @ error_text e))"

lemma fst_check_text [simp]: "fst (check_text world x) = fst x"
  by (cases x) (simp add: check_text_def)

lemma update_new: "k \<notin> fst ` set xs \<Longrightarrow> AList.update k v xs = xs @ [(k, v)]"
  by (induction xs) auto

lemma run_checks:
  "distinct (map fst cs) \<Longrightarrow> fst ` set cs \<inter> fst ` set results = {} \<Longrightarrow>
   fold (run_check world) cs (ok, results) =
     (ok \<and> (\<forall>x\<in>set cs. snd x world = None), results @ map (check_text world) cs)"
proof (induction cs arbitrary: ok results)
  case (Cons x cs)
  obtain n c where x: "x = (n, c)" by (cases x)
  have new: "n \<notin> fst ` set results" using Cons.prems x by auto
  have step: "run_check world x (ok, results) = (ok \<and> c world = None, results @ [check_text world x])"
    by (cases "c world") (simp_all add: run_check_def check_text_def x update_new [OF new])
  have "fold (run_check world) cs (ok \<and> c world = None, results @ [check_text world x]) =
      ((ok \<and> c world = None) \<and> (\<forall>x\<in>set cs. snd x world = None), (results @ [check_text world x]) @ map (check_text world) cs)"
    using Cons.prems x by (intro Cons.IH) auto
  with step x show ?case by (simp add: conj_assoc)
qed simp

lemma check_texts_sorted:
  assumes "mset cs = mset cs'" and "distinct (map fst cs)"
  shows "sort_key fst (map (check_text world) cs) = sort_key fst (map (check_text world) cs')"
proof (rule sort_key_eq_sort_key)
  show "mset (map (check_text world) cs) = mset (map (check_text world) cs')" using assms(1) by simp
  show "inj_on fst (set (map (check_text world) cs))"
    using assms(2) unfolding inj_on_def distinct_map by (metis (no_types, lifting) fst_check_text image_iff set_map)
qed

section \<open>Clean-up\<close>

definition call_names :: "cleanup list \<Rightarrow> string list" where
  "call_names cs = concat (map (\<lambda>c. case c of Call n \<Rightarrow> [n] | CallCtx n \<Rightarrow> [n] | WithTimeout d \<Rightarrow> []) cs)"

lemma call_names_simps [simp]:
  "call_names [] = []" "call_names (Call n # cs) = n # call_names cs" "call_names (CallCtx n # cs) = n # call_names cs"
  "call_names (WithTimeout d # cs) = call_names cs"
  by (simp_all add: call_names_def)

lemma until_later: "until now ctx d = Some t \<Longrightarrow> now \<le> t"
  by (auto simp: until_def split: option.splits)

lemma run_cleanup_spec:
  "now < force \<Longrightarrow> run_cleanup dur force ctx cs now = (ns, code, t) \<Longrightarrow>
     now \<le> t \<and> t \<le> force \<and> code \<in> {0, 1} \<and> prefix ns (call_names cs) \<and> (code = 0 \<longleftrightarrow> ns = call_names cs) \<and>
     (code = 0 \<longrightarrow> t < force)"
proof (induction dur force ctx cs now arbitrary: ns rule: run_cleanup.induct)
  case (3 dur force ctx n cs now)
  then show ?case by (fastforce dest: until_later split: option.splits if_splits prod.splits)
next
  case (4 dur force ctx n cs now)
  then show ?case by (fastforce dest: until_later split: option.splits if_splits prod.splits)
qed auto

definition demo_env :: environ where
  "demo_env k = (if k = ''N'' then strconv_Itoa (-7) else strconv_Itoa 15 @ ''m'')"

section \<open>Properties\<close>

text \<open>
  Configuration round trip: an \<open>int\<close> written in decimal, and a whole number of any unit
  \<open>time.ParseDuration\<close> knows (from \<open>ns\<close> to \<open>h\<close>, both spellings of the micro sign) that fits an
  \<open>int64\<close> of nanoseconds, are read back as exactly that value.
\<close>

theorem env_values_read_back:
  assumes "in_int64 k" and "env key = strconv_Itoa k"
    and "0 \<le> n" and "(u, unit) \<in> set unitMap" and "n * unit < 2 ^ 63" and "env key' = strconv_Itoa n @ u"
  shows "EnvInt env key def = Returns k \<and> EnvDuration frac env key' def' = Returns (n * unit)"
proof -
  have "strconv_Itoa k \<noteq> []" "strconv_Itoa n \<noteq> []" by (simp_all add: strconv_Itoa_def)
  with assms show ?thesis by (simp add: EnvInt_def EnvDuration_def Atoi_Itoa ParseDuration_whole)
qed

theorem env_values_read_back_witness:
  "EnvInt demo_env ''N'' 3 = Returns (-7) \<and> EnvDuration (\<lambda>_ _ _. 0) demo_env ''D'' 3 = Returns (15 * 60000000000)"
  by (rule env_values_read_back [where u = "''m''"]) (simp_all add: in_int64_alt unitMap_def demo_env_def)

text \<open>
  \<open>/readyz\<close> is 200 exactly when the process is not draining and every registered check
  passes, otherwise 503; its body lists every check with its own result.  The order in which
  Go visits the map of checks does not show.
\<close>

theorem readyz_answer:
  assumes "ops_ok o'" and "\<And>cs. mset (order cs) = mset cs"
  shows "readyz order o' world w =
    (if op_draining o' then writeJSON 503 (JObj [(''status'', JStr ''draining'')]) w
     else let ok = (\<forall>(n, c)\<in>set (op_checks o'). c world = None)
          in writeJSON (if ok then 200 else 503)
               (JObj [(''checks'', JObj (map (\<lambda>(n, t). (n, JStr t))
                          (sort_key fst (map (check_text world) (op_checks o'))))),
                      (''status'', JStr (if ok then ''ok'' else ''not_ready''))]) w)"
proof -
  let ?cs = "op_checks o'"
  have m: "mset (order ?cs) = mset ?cs" by (rule assms(2))
  then have s: "set (order ?cs) = set ?cs" by (rule mset_eq_setD)
  have "mset (map fst (order ?cs)) = mset (map fst ?cs)" using m by simp
  then have d: "distinct (map fst (order ?cs))" using assms(1) mset_eq_imp_distinct_iff unfolding ops_ok_def by blast
  from run_checks [OF d, of "[]" world True] check_texts_sorted [OF m d, of world]
  show ?thesis by (simp add: readyz_def s Let_def case_prod_unfold)
qed

theorem readyz_answer_witness:
  "hw_calls (readyz rev (AddCheck ''redis'' (\<lambda>up. None) (AddCheck ''postgres'' (\<lambda>up. if up then None
       else Some ContextDeadlineExceeded) NewOps)) True new_writer) = [200]"
proof -
  let ?o = "AddCheck ''redis'' (\<lambda>up. None) (AddCheck ''postgres'' (\<lambda>up. if up then None
       else Some ContextDeadlineExceeded) NewOps)"
  have "ops_ok ?o" by (intro ops_ok_operations)
  from readyz_answer [OF this, of rev] show ?thesis
    by (simp add: Let_def) (simp add: AddCheck_def NewOps_def)
qed

text \<open>
  C40: Shutdown ends: after a signal with valid settings the pod is marked as draining and the
  process has exited at the latest \<open>SHUTDOWN_DELAY + SHUTDOWN_TIMEOUT\<close> later, whatever the
  clean-up calls do, even if one of them never returns; the calls run in the order of the
  code, and the exit code is 0 exactly when all of them finished.
\<close>

theorem shutdown_ends:
  assumes "EnvDuration frac env ''SHUTDOWN_DELAY'' 5000000000 = Returns delay"
    and "EnvDuration frac env ''SHUTDOWN_TIMEOUT'' 20000000000 = Returns timeout"
    and "stop_process frac env dur cs t o' = ((ns, code, t'), o1)" and "call_names cs \<noteq> []"
  shows "op_draining o1 \<and> t \<le> t' \<and> t' \<le> t + max 0 (wrap64 (delay + timeout)) \<and>
    prefix ns (call_names cs) \<and> code \<in> {0, 1} \<and> (code = 0 \<longleftrightarrow> ns = call_names cs)"
proof -
  let ?force = "t + max 0 (wrap64 (delay + timeout))" and ?now = "t + max 0 delay"
  have o1: "o1 = SetDraining o'"
    and run: "(ns, code, t') = (if ?force \<le> ?now then ([], 1, ?force) else run_cleanup dur ?force None cs ?now)"
    using assms(1-3) by (auto simp: stop_process_def BeginShutdown_def)
  show ?thesis
  proof (cases "?force \<le> ?now")
    case True
    with run o1 assms(4) show ?thesis by (auto simp: SetDraining_def)
  next
    case False
    then have lt: "?now < ?force" by linarith
    from run False have "run_cleanup dur ?force None cs ?now = (ns, code, t')" by simp
    from run_cleanup_spec [OF lt this] have "t \<le> t'" by linarith
    with run_cleanup_spec [OF lt \<open>run_cleanup dur ?force None cs ?now = (ns, code, t')\<close>] o1 show ?thesis
      by (auto simp: SetDraining_def)
  qed
qed

theorem shutdown_ends_witness:
  "\<exists>ns code t' o1. stop_process (\<lambda>_ _ _. 0) (\<lambda>_. []) (\<lambda>_. None) wallet_cleanup 7 NewOps = ((ns, code, t'), o1) \<and>
     op_draining (o1 :: unit Ops) \<and> t' \<le> 25000000007"
proof -
  obtain ns code t' and o1 :: "unit Ops" where
    run: "stop_process (\<lambda>_ _ _. 0) (\<lambda>_. []) (\<lambda>_. None) wallet_cleanup 7 NewOps = ((ns, code, t'), o1)"
    by (metis prod.collapse)
  have env: "EnvDuration (\<lambda>_ _ _. 0) (\<lambda>_. []) k d = Returns d" for k d by (simp add: EnvDuration_def)
  have "wrap64 25000000000 = 25000000000" by (simp add: wrap64_id in_int64_alt)
  with shutdown_ends [OF env env run] run show ?thesis by (auto simp: wallet_cleanup_def)
qed

text \<open>
  With the default settings the gateway always stops cleanly: however long the requests in
  flight and the ops server take -- even for ever -- all five clean-up calls are made and the
  exit code is 0, provided that closing the three connections takes less than five seconds.
\<close>

theorem gateway_stops_cleanly:
  assumes "env ''SHUTDOWN_DELAY'' = []" and "env ''SHUTDOWN_TIMEOUT'' = []"
    and "dur ''walletConn.Close'' = Some a" and "dur ''rdb.Close'' = Some b" and "dur ''pool.Close'' = Some c"
    and "0 \<le> a" and "0 \<le> b" and "0 \<le> c" and "a + b + c < 5000000000"
  shows "\<exists>t' o1. stop_process frac env dur gateway_cleanup t o' =
    (([''server.Shutdown'', ''walletConn.Close'', ''rdb.Close'', ''pool.Close'', ''ops.Shutdown''], 0, t'), o1)"
proof -
  let ?force = "t + 25000000000" and ?now = "t + 5000000000"
  obtain t1 where t1: "until ?now (Some (?now + 15000000000)) (dur ''server.Shutdown'') = Some t1"
    "?now \<le> t1" "t1 \<le> ?now + 15000000000"
    by (cases "dur ''server.Shutdown''") (auto simp: until_def)
  let ?t4 = "t1 + a + b + c"
  obtain t5 where t5: "until ?t4 (Some (?now + 15000000000)) (dur ''ops.Shutdown'') = Some t5"
    "t5 \<le> max ?t4 (?now + 15000000000)"
    by (cases "dur ''ops.Shutdown''") (auto simp: until_def)
  have close: "until x None (Some d) = Some (x + d)" if "0 \<le> d" for x d :: int using that by (simp add: until_def)
  have "run_cleanup dur ?force None gateway_cleanup ?now =
      ([''server.Shutdown'', ''walletConn.Close'', ''rdb.Close'', ''pool.Close'', ''ops.Shutdown''], 0, t5)"
    using t1 t5 assms(6-9) by (simp add: gateway_cleanup_def assms(3-5) close)
  then show ?thesis
    using assms(1,2) by (simp add: stop_process_def BeginShutdown_def EnvDuration_def wrap64_id in_int64_alt)
qed

theorem gateway_stops_cleanly_witness:
  "\<exists>t' o1. stop_process (\<lambda>_ _ _. 0) (\<lambda>_. []) (\<lambda>n. if n = ''server.Shutdown'' then None else Some 1) gateway_cleanup 0
     (NewOps :: unit Ops) =
     (([''server.Shutdown'', ''walletConn.Close'', ''rdb.Close'', ''pool.Close'', ''ops.Shutdown''], 0, t'), o1)"
  by (rule gateway_stops_cleanly [where a = 1 and b = 1 and c = 1]) simp_all

text \<open>
  A malformed \<open>SHUTDOWN_DELAY\<close>, such as a number without a unit, is noticed only when the signal
  arrives: the process exits at once with code 1, without draining and without any clean-up.
\<close>

theorem bad_delay_skips_cleanup:
  assumes "env ''SHUTDOWN_DELAY'' = strconv_Itoa n" and "1 \<le> n" and "n < 10"
  shows "stop_process frac env dur cs t o' = (([], 1, t), o')"
proof -
  have text0: "strconv_Itoa n = [digit_char n]" using assms by (simp add: strconv_Itoa_def dec_text.simps [of n])
  have dig: "is_digit (digit_char n)" "digit_value (digit_char n) = n"
    using digit_char_value [of n] assms(2,3) by simp_all
  then have "digit_char n \<noteq> CHR ''-''" "digit_char n \<noteq> CHR ''+''" "digit_char n \<noteq> CHR ''0''" "\<not> unit_char (digit_char n)"
    using assms(2) by (auto simp: is_digit_def digit_value_def unit_char_def)
  then have "ParseDuration frac [digit_char n] = None"
    using assms(2,3) dig
    by (simp add: ParseDuration_def parse_units.simps [of frac 0] parse_unit_def Let_def)
  then show ?thesis using assms(1) by (simp add: stop_process_def BeginShutdown_def EnvDuration_def text0)
qed

text \<open>
  With the required variables only, the wallet service starts with its documented defaults: ten
  attempts per request, far below the forty at which the back-off overflows, and a positive
  batch size.
\<close>

lemma wallet_main_defaults:
  assumes "env ''DATABASE_URL'' \<noteq> []" and "env ''KAFKA_BROKERS'' \<noteq> []" and "pool_ok (env ''DATABASE_URL'')"
    and "\<And>k. k \<notin> {''DATABASE_URL'', ''KAFKA_BROKERS''} \<Longrightarrow> env k = []"
  shows "\<exists>ws ops. wallet_main frac pool_ok ping env = Returns (ws, ops) \<and> ws_maxRetries ws = 10 \<and>
    ws_batchSize ws = 100 \<and> ws_poll ws = 200000000 \<and> ws_retention ws = 604800000000000 \<and> ops_ok ops \<and>
    map fst (op_checks ops) = [''postgres''] \<and> op_server ops = Some '':9090''"
  using assms
  by (simp add: wallet_main_def and_then_def exit_unless_def MustEnv_def EnvInt_def EnvDuration_def EnvOr_def Let_def
      Start_def AddCheck_def NewOps_def ops_ok_def)

end
