(* ===== verification/EventFields.thy ===== *)
theory EventFields
  imports OutboxProofs
begin

text \<open>
  What a consumer reads in the message of a wallet transaction: its topic and the fields of its
  JSON object.  The ledger, fraud and notification services share these facts.
\<close>

section \<open>Consumers\<close>

text \<open>A Kafka value as a JSON parser sees it: absent, not JSON, or a JSON value.\<close>

datatype raw = NoValue | NotJson | JsonValue json

text \<open>A step that may throw, and the code after it.\<close>

definition and_do :: "'e + 'a \<Rightarrow> ('a \<Rightarrow> 'e + 'b) \<Rightarrow> 'e + 'b" where
  "and_do x f = (case x of Inl e \<Rightarrow> Inl e | Inr a \<Rightarrow> f a)"

lemma and_do_simps [simp]: "and_do (Inl e) f = Inl e" "and_do (Inr a) f = f a"
  by (simp_all add: and_do_def)

section \<open>What they read in an event of the wallet\<close>

definition is_object :: "json \<Rightarrow> bool" where
  "is_object v \<longleftrightarrow> (case v of JObj kvs \<Rightarrow> True | _ \<Rightarrow> False)"

definition tx_type :: "tx_row \<Rightarrow> string" where
  "tx_type t = (if tr_from_wallet_id t = None then ''DepositCompleted'' else ''TransferCompleted'')"

text \<open>The fields every event has.\<close>

lemma event_fields:
  assumes "tx_event d t = Some m"
  shows "is_object (km_value m)"
    and "json_get (km_value m) ''eventId'' = Some (JStr (tr_id t))"
    and "json_get (km_value m) ''type'' = Some (JStr (tx_type t))"
    and "json_get (km_value m) ''transactionId'' = Some (JStr (tr_id t))"
    and "json_get (km_value m) ''amountCents'' = Some (JNum (tr_amount_cents t))"
    and "json_get (km_value m) ''occurredAt'' = Some (JStr (format_RFC3339Nano (tr_created_at t)))"
  using assms
  by (auto simp: tx_event_def deposit_event_def depositEvent_json_def transfer_event_def
      transferEvent_json_def txColumns_def tx_type_def is_object_def split: option.splits)

text \<open>The fields of a deposit.\<close>

lemma deposit_fields:
  assumes "tx_event d t = Some m" and "tr_from_wallet_id t = None"
  shows "km_topic m = topicDeposits"
    and "json_get (km_value m) ''walletId'' = Some (JStr (tr_to_wallet_id t))"
    and "json_get (km_value m) ''userId'' = Some (JStr (tr_user_id t))"
  using assms
  by (auto simp: tx_event_def deposit_event_def depositEvent_json_def walletColumns_def
      split: option.splits dest: select_wallet_by_id_SomeD)

text \<open>The fields of a transfer, with the wallets on its two sides.\<close>

lemma transfer_fields:
  assumes "tx_event d t = Some m" and "tr_from_wallet_id t = Some f"
  obtains v w where "v \<in> set (wallets d)" and "w \<in> set (wallets d)" and "wr_id v = f"
    and "wr_id w = tr_to_wallet_id t" and "km_topic m = topicTransfers"
    and "json_get (km_value m) ''fromWalletId'' = Some (JStr f)"
    and "json_get (km_value m) ''toWalletId'' = Some (JStr (tr_to_wallet_id t))"
    and "json_get (km_value m) ''fromUserId'' = Some (JStr (wr_user_id v))"
    and "json_get (km_value m) ''toUserId'' = Some (JStr (wr_user_id w))"
    and "json_get (km_value m) ''currency'' = Some (JStr (wr_currency v))"
proof -
  from assms obtain v w where w: "select_wallet_by_id (tr_to_wallet_id t) d = Some w"
    and v: "select_wallet_by_id f d = Some v"
    and m: "m = \<lparr>km_topic = topicTransfers, km_key = wr_id v,
      km_value = transfer_event (tr_amount_cents t) (walletColumns v) (walletColumns w) (txColumns t)\<rparr>"
    by (auto simp: tx_event_def split: option.splits)
  from select_wallet_by_id_SomeD [OF w] select_wallet_by_id_SomeD [OF v] show thesis
    by (intro that [of v w])
      (simp_all add: m transfer_event_def transferEvent_json_def walletColumns_def)
qed

end
