(* ===== verification/Ledger.thy ===== *)
theory Ledger
  imports EventFields GoText
begin

text \<open>
  The ledger service (\<open>services/ledger\<close>, Java): \<open>LedgerListener\<close> turns an event into journal lines,
  \<open>JournalService\<close> records them once per event, and \<open>KafkaErrorConfig\<close> says what happens to a
  message whose handling fails.  The tables and triggers are those of
  \<open>db/migrations/V3__ledger.sql\<close>.  Parameters: \<open>as_long\<close> is Jackson's \<open>JsonNode.asLong\<close> on an
  integer (\<open>None\<close>: it throws), \<open>pg_uuid\<close> is PostgreSQL's cast of a text to \<open>uuid\<close>.
\<close>

section \<open>Messages\<close>

datatype ledger_error = InvalidEventException string | JacksonException | DataAccessException go_error

text \<open>\<open>String.isBlank\<close>: only characters that \<open>Character.isWhitespace\<close> accepts, in UTF-8.\<close>

definition java_spaces :: "string list" where
  "java_spaces = map bytes ([[9], [10], [11], [12], [13], [28], [29], [30], [31], [32], [225, 154, 128],
     [226, 128, 168], [226, 128, 169], [226, 129, 159], [227, 128, 128]] @
     map (\<lambda>n. [226, 128, n]) ([128..<135] @ [136..<139]))"

definition isBlank :: "string \<Rightarrow> bool" where
  "isBlank s \<longleftrightarrow> trim_prefixes java_spaces s = []"

definition parse_event :: "raw \<Rightarrow> ledger_error + json" where
  "parse_event value =
     (case value of
        NoValue \<Rightarrow> Inl (InvalidEventException ''message has no value'')
      | NotJson \<Rightarrow> Inl (InvalidEventException ''message is not valid JSON'')
      | JsonValue node \<Rightarrow>
          (case node of
             JObj kvs \<Rightarrow> Inr node
           | _ \<Rightarrow> Inl (InvalidEventException ''message is not a JSON object'')))"

definition missing_field :: "string \<Rightarrow> ledger_error" where
  "missing_field field =
     InvalidEventException (''event is missing field '' @ [CHR 0x22] @ field @ [CHR 0x22])"

definition require :: "json \<Rightarrow> string \<Rightarrow> ledger_error + string" where
  "require event field =
     (case json_get event field of
        Some (JStr s) \<Rightarrow>
          if isBlank s then Inl (missing_field field) else Inr s
      | _ \<Rightarrow> Inl (missing_field field))"

definition amount :: "(int \<Rightarrow> int option) \<Rightarrow> json \<Rightarrow> ledger_error + int" where
  "amount as_long event =
     (case json_get event ''amountCents'' of
        Some (JNum n) \<Rightarrow>
          (case as_long n of
             None \<Rightarrow> Inl JacksonException
           | Some k \<Rightarrow>
               if k \<le> 0 then Inl (InvalidEventException ''amountCents must be a positive integer'') else Inr k)
      | _ \<Rightarrow> Inl (InvalidEventException ''amountCents must be a positive integer''))"

record Line =
  ln_account :: string
  ln_direction :: string
  ln_amountCents :: int

definition EXTERNAL_CASH :: string where "EXTERNAL_CASH = ''external:cash''"

definition linesFor :: "(int \<Rightarrow> int option) \<Rightarrow> string \<Rightarrow> json \<Rightarrow> ledger_error + Line list" where
  "linesFor as_long topic event =
     and_do (amount as_long event) (\<lambda>amt.
       if topic = ''transfers.completed'' then
         and_do (require event ''fromWalletId'') (\<lambda>f.
         and_do (require event ''toWalletId'') (\<lambda>t.
         Inr [\<lparr>ln_account = ''wallet:'' @ f, ln_direction = ''DEBIT'', ln_amountCents = amt\<rparr>,
              \<lparr>ln_account = ''wallet:'' @ t, ln_direction = ''CREDIT'', ln_amountCents = amt\<rparr>]))
       else if topic = ''wallet.deposited'' then
         and_do (require event ''walletId'') (\<lambda>w.
         Inr [\<lparr>ln_account = EXTERNAL_CASH, ln_direction = ''DEBIT'', ln_amountCents = amt\<rparr>,
              \<lparr>ln_account = ''wallet:'' @ w, ln_direction = ''CREDIT'', ln_amountCents = amt\<rparr>])
       else Inl (InvalidEventException (''unexpected topic '' @ topic)))"

section \<open>The journal\<close>

record journal_entry =
  je_id :: uuid
  je_event_id :: string
  je_event_type :: string
  je_reference_id :: uuid
  je_created_at :: timestamp

record journal_line =
  jl_id :: int
  jl_entry_id :: uuid
  jl_account :: string
  jl_direction :: string
  jl_amount_cents :: int

record ledger_db =
  journal_entries :: "journal_entry list"
  journal_lines :: "journal_line list"

text \<open>What the database draws for one transaction: the entry's id, the time, the line ids.\<close>

record ledger_handle =
  lh_entry_id :: uuid
  lh_now :: timestamp
  lh_nextval :: "nat \<Rightarrow> int"

text \<open>A \<open>text\<close> column cannot hold the character NUL.\<close>

definition storable :: "string \<Rightarrow> bool" where
  "storable s \<longleftrightarrow> CHR 0x00 \<notin> set s"

text \<open>\<open>INSERT ... ON CONFLICT (event_id) DO NOTHING RETURNING id\<close>.\<close>

definition insert_entry ::
    "(string \<Rightarrow> uuid option) \<Rightarrow> ledger_handle \<Rightarrow> string \<Rightarrow> string \<Rightarrow> string \<Rightarrow> ledger_db \<Rightarrow>
     go_error + uuid option \<times> ledger_db" where
  "insert_entry pg_uuid h eventId eventType referenceId L =
     (if \<not> (storable eventId \<and> storable eventType \<and> storable referenceId)
      then Inl (PgError ''22021'' ''invalid byte sequence'')
      else case pg_uuid referenceId of
        None \<Rightarrow> Inl (PgError ''22P02'' ''invalid input syntax for type uuid'')
      | Some ref \<Rightarrow>
          if list_ex (\<lambda>e. je_event_id e = eventId) (journal_entries L) then Inr (None, L)
          else if list_ex (\<lambda>e. je_id e = lh_entry_id h) (journal_entries L)
          then Inl (PgError ''23505'' ''duplicate key value violates unique constraint'')
          else Inr (Some (lh_entry_id h),
            L\<lparr>journal_entries := journal_entries L @
              [\<lparr>je_id = lh_entry_id h, je_event_id = eventId, je_event_type = eventType,
                je_reference_id = ref, je_created_at = lh_now h\<rparr>]\<rparr>))"

definition insert_line :: "int \<Rightarrow> uuid \<Rightarrow> Line \<Rightarrow> ledger_db \<Rightarrow> go_error + ledger_db" where
  "insert_line n entry line L =
     (if \<not> storable (ln_account line)
      then Inl (PgError ''22021'' ''invalid byte sequence'')
      else if ln_direction line \<notin> {''DEBIT'', ''CREDIT''} \<or> ln_amountCents line \<le> 0
      then Inl (PgError ''23514'' ''violates check constraint'')
      else if list_ex (\<lambda>l. jl_id l = n) (journal_lines L)
      then Inl (PgError ''23505'' ''duplicate key value violates unique constraint'')
      else if \<not> list_ex (\<lambda>e. je_id e = entry) (journal_entries L)
      then Inl (PgError ''23503'' ''violates foreign key constraint'')
      else Inr (L\<lparr>journal_lines := journal_lines L @
        [\<lparr>jl_id = n, jl_entry_id = entry, jl_account = ln_account line, jl_direction = ln_direction line,
          jl_amount_cents = ln_amountCents line\<rparr>]\<rparr>))"

fun insert_lines :: "ledger_handle \<Rightarrow> nat \<Rightarrow> uuid \<Rightarrow> Line list \<Rightarrow> ledger_db \<Rightarrow> go_error + ledger_db" where
  "insert_lines h i entry [] L = Inr L"
| "insert_lines h i entry (line # lines) L =
     and_do (insert_line (lh_nextval h i) entry line L) (insert_lines h (Suc i) entry lines)"

text \<open>\<open>ledger.check_entry_balanced()\<close>, run at the commit for every line inserted.\<close>

definition entry_diff :: "uuid \<Rightarrow> ledger_db \<Rightarrow> int" where
  "entry_diff entry L =
     (\<Sum>l\<leftarrow>filter (\<lambda>l. jl_entry_id l = entry) (journal_lines L).
        if jl_direction l = ''DEBIT'' then jl_amount_cents l else - jl_amount_cents l)"

text \<open>The view \<open>ledger.account_balances\<close>.\<close>

definition account_balance :: "string \<Rightarrow> ledger_db \<Rightarrow> int" where
  "account_balance account L =
     (\<Sum>l\<leftarrow>filter (\<lambda>l. jl_account l = account) (journal_lines L).
        if jl_direction l = ''CREDIT'' then jl_amount_cents l else - jl_amount_cents l)"

section \<open>Recording an event\<close>

text \<open>
  How the transaction of \<open>@Transactional\<close> ends: a fault before the commit rolls back, and an error
  may be reported for a transaction that did commit.
\<close>

datatype commit_end = CommitOk | RolledBack go_error | InDoubt go_error

text \<open>\<open>lv_dlq\<close>: the dead-letter topic acknowledges a message sent to it.\<close>

record ledger_env =
  lv_handle :: ledger_handle
  lv_commit :: commit_end
  lv_dlq :: bool

record ledger_state =
  lg_db :: ledger_db
  lg_duplicates :: nat
  lg_posted :: "string \<Rightarrow> nat"

text \<open>The body of \<open>post\<close>: false for a duplicate.\<close>

definition post_body ::
    "(string \<Rightarrow> uuid option) \<Rightarrow> ledger_handle \<Rightarrow> string \<Rightarrow> string \<Rightarrow> string \<Rightarrow> Line list \<Rightarrow> ledger_db \<Rightarrow>
     go_error + uuid option \<times> ledger_db" where
  "post_body pg_uuid h eventId eventType referenceId lines L =
     and_do (insert_entry pg_uuid h eventId eventType referenceId L) (\<lambda>(entry, L1).
       case entry of
         None \<Rightarrow> Inr (None, L1)
       | Some i \<Rightarrow> and_do (insert_lines h 0 i lines L1) (\<lambda>L2. Inr (Some i, L2)))"

definition count_post :: "string \<Rightarrow> uuid option \<Rightarrow> ledger_state \<Rightarrow> ledger_state" where
  "count_post eventType entry s =
     (case entry of
        None \<Rightarrow> s\<lparr>lg_duplicates := lg_duplicates s + 1\<rparr>
      | Some i \<Rightarrow> s\<lparr>lg_posted := (lg_posted s)(eventType := lg_posted s eventType + 1)\<rparr>)"

definition post ::
    "(string \<Rightarrow> uuid option) \<Rightarrow> ledger_env \<Rightarrow> string \<Rightarrow> string \<Rightarrow> string \<Rightarrow> Line list \<Rightarrow> ledger_state \<Rightarrow>
     (go_error + bool) \<times> ledger_state" where
  "post pg_uuid env eventId eventType referenceId lines s =
     (case post_body pg_uuid (lv_handle env) eventId eventType referenceId lines (lg_db s) of
        Inl e \<Rightarrow> (Inl e, s)
      | Inr (entry, L') \<Rightarrow>
          let s1 = count_post eventType entry s in
          (case (entry, lv_commit env) of
             (Some i, c) \<Rightarrow>
               if lines \<noteq> [] \<and> entry_diff i L' \<noteq> 0
               then (Inl (PgError ''P0001'' ''journal entry is unbalanced''), s1)
               else (case c of
                       CommitOk \<Rightarrow> (Inr True, s1\<lparr>lg_db := L'\<rparr>)
                     | RolledBack e \<Rightarrow> (Inl e, s1)
                     | InDoubt e \<Rightarrow> (Inl e, s1\<lparr>lg_db := L'\<rparr>))
           | (None, CommitOk) \<Rightarrow> (Inr False, s1)
           | (None, RolledBack e) \<Rightarrow> (Inl e, s1)
           | (None, InDoubt e) \<Rightarrow> (Inl e, s1)))"

definition onEvent ::
    "(int \<Rightarrow> int option) \<Rightarrow> (string \<Rightarrow> uuid option) \<Rightarrow> ledger_env \<Rightarrow> string \<Rightarrow> raw \<Rightarrow> ledger_state \<Rightarrow>
     (ledger_error + bool) \<times> ledger_state" where
  "onEvent as_long pg_uuid env topic value s =
     (case and_do (parse_event value) (\<lambda>event.
           and_do (require event ''eventId'') (\<lambda>eventId.
           and_do (require event ''type'') (\<lambda>typ.
           and_do (require event ''transactionId'') (\<lambda>transactionId.
           and_do (linesFor as_long topic event) (\<lambda>lines. Inr (eventId, typ, transactionId, lines)))))) of
        Inl err \<Rightarrow> (Inl err, s)
      | Inr (eventId, typ, transactionId, lines) \<Rightarrow>
          (case post pg_uuid env eventId typ transactionId lines s of
             (Inl e, s') \<Rightarrow> (Inl (DataAccessException e), s')
           | (Inr posted, s') \<Rightarrow> (Inr posted, s')))"

text \<open>
  \<open>KafkaErrorConfig\<close>: a handled message is committed, an \<open>InvalidEventException\<close> goes to the
  dead-letter topic at once (and is delivered again when that fails), anything else is delivered
  again, without end.
\<close>

datatype verdict = Handled | DeadLetter | Redeliver

fun kafkaErrorHandler :: "ledger_error + bool \<Rightarrow> verdict" where
  "kafkaErrorHandler (Inr posted) = Handled"
| "kafkaErrorHandler (Inl (InvalidEventException m)) = DeadLetter"
| "kafkaErrorHandler (Inl e) = Redeliver"

section \<open>The wallet, Kafka and the ledger together\<close>

record system =
  sy_relay :: relay_state
  sy_ledger :: ledger_state
  sy_done :: "kmsg list"
  sy_dlq :: "kmsg list"

definition deliver ::
    "(int \<Rightarrow> int option) \<Rightarrow> (string \<Rightarrow> uuid option) \<Rightarrow> ledger_env \<Rightarrow> kmsg \<Rightarrow> system \<Rightarrow> system" where
  "deliver as_long pg_uuid env m sys =
     (case onEvent as_long pg_uuid env (km_topic m) (JsonValue (km_value m)) (sy_ledger sys) of
        (res, s') \<Rightarrow>
          (case kafkaErrorHandler res of
             Handled \<Rightarrow> sys\<lparr>sy_ledger := s', sy_done := sy_done sys @ [m]\<rparr>
           | DeadLetter \<Rightarrow>
               if lv_dlq env
               then sys\<lparr>sy_ledger := s', sy_done := sy_done sys @ [m], sy_dlq := sy_dlq sys @ [m]\<rparr>
               else sys\<lparr>sy_ledger := s'\<rparr>
           | Redeliver \<Rightarrow> sys\<lparr>sy_ledger := s'\<rparr>))"

text \<open>Columns hold values of their types: \<open>uuid\<close> columns UUID texts, \<open>bigint\<close> columns \<open>int64\<close> values.\<close>

definition uuid_text :: "(string \<Rightarrow> uuid option) \<Rightarrow> string \<Rightarrow> bool" where
  "uuid_text pg_uuid s \<longleftrightarrow> pg_uuid s = Some s \<and> \<not> isBlank s \<and> storable s"

definition typed_columns :: "(string \<Rightarrow> uuid option) \<Rightarrow> db \<Rightarrow> bool" where
  "typed_columns pg_uuid d \<longleftrightarrow>
     (\<forall>t\<in>set (transactions d). uuid_text pg_uuid (tr_id t) \<and> uuid_text pg_uuid (tr_user_id t) \<and>
        in_int64 (tr_amount_cents t)) \<and>
     (\<forall>w\<in>set (wallets d). uuid_text pg_uuid (wr_id w) \<and> uuid_text pg_uuid (wr_user_id w))"

text \<open>Any message Kafka holds may be delivered at any time, any number of times, in any order.\<close>

inductive system_step ::
    "(int \<Rightarrow> int option) \<Rightarrow> (string \<Rightarrow> uuid option) \<Rightarrow> system \<Rightarrow> system \<Rightarrow> bool"
  for as_long pg_uuid where
  produce: "pipeline_step (sy_relay sys) r \<Longrightarrow> typed_columns pg_uuid (rs_db r) \<Longrightarrow>
     system_step as_long pg_uuid sys (sys\<lparr>sy_relay := r\<rparr>)"
| consume: "m \<in> set (rs_log (sy_relay sys)) \<Longrightarrow>
     system_step as_long pg_uuid sys (deliver as_long pg_uuid env m sys)"

definition empty_ledger :: ledger_state where
  "empty_ledger = \<lparr>lg_db = \<lparr>journal_entries = [], journal_lines = []\<rparr>, lg_duplicates = 0, lg_posted = (\<lambda>_. 0)\<rparr>"

definition init_system :: system where
  "init_system = \<lparr>sy_relay = init_relay_state, sy_ledger = empty_ledger, sy_done = [], sy_dlq = []\<rparr>"

definition system_run :: "(int \<Rightarrow> int option) \<Rightarrow> (string \<Rightarrow> uuid option) \<Rightarrow> system \<Rightarrow> bool" where
  "system_run as_long pg_uuid sys \<longleftrightarrow> (system_step as_long pg_uuid)\<^sup>*\<^sup>* init_system sys"

end
