(* ===== verification/Redelivery.thy ===== *)
theory Redelivery
  imports Main "HOL-Library.Sublist"
begin

text \<open>
  The contract of a consumer that deduplicates: one message is delivered any number of times, each
  delivery meeting its own failures (\<open>'e\<close>).  The consumer leaves a mark with the first effects of
  the message and does nothing once the mark is there.  The ledger keeps this contract with its
  unique event id, the notification service with its Redis key.
\<close>

locale redelivery =
  fixes step :: "'e \<Rightarrow> 's \<Rightarrow> 's" and meets :: "'e \<Rightarrow> bool"
    and marked :: "'s \<Rightarrow> bool" and view :: "'s \<Rightarrow> 'v list" and effects :: "'v list"
  assumes once: "meets e \<Longrightarrow> marked s \<Longrightarrow> marked (step e s) \<and> view (step e s) = view s"
    and first: "meets e \<Longrightarrow> \<exists>vs. view (step e s) = view s @ vs \<and> prefix vs effects \<and> (vs \<noteq> [] \<longrightarrow> marked (step e s))"
begin

lemma after_mark:
  assumes "\<forall>e\<in>set es. meets e" and "marked s"
  shows "marked (fold step es s) \<and> view (fold step es s) = view s"
  using assms
proof (induction es arbitrary: s)
  case (Cons e es)
  then have "marked (step e s)" "view (step e s) = view s" using once by simp_all
  with Cons show ?case by simp
qed simp

lemma at_most_once:
  assumes "\<forall>e\<in>set es. meets e"
  shows "\<exists>vs. view (fold step es s) = view s @ vs \<and> prefix vs effects"
  using assms
proof (induction es arbitrary: s)
  case (Cons e es)
  then obtain vs where vs: "view (step e s) = view s @ vs" "prefix vs effects" "vs \<noteq> [] \<Longrightarrow> marked (step e s)"
    using first [of e s] by auto
  show ?case
  proof (cases "vs = []")
    case True
    moreover have "\<exists>vs. view (fold step es (step e s)) = view (step e s) @ vs \<and> prefix vs effects"
      by (rule Cons.IH) (use Cons.prems in simp)
    ultimately show ?thesis using vs(1) by simp
  next
    case False
    with Cons.prems vs after_mark [of es "step e s"] show ?thesis by auto
  qed
qed simp

end

end
