(* ===== verification/LedgerProofs.thy ===== *)
theory LedgerProofs
  imports Ledger Redelivery
begin

text \<open>
  The ledger against the wallet: what one delivery does to the journal, the invariant of the
  journal under any messages, and the refinement of the journal to the list of the wallet
  transactions it has recorded.
\<close>

section \<open>What the journal says\<close>

type_synonym movement = "string \<times> string \<times> int"

definition line_view :: "journal_line \<Rightarrow> movement" where
  "line_view l = (jl_account l, jl_direction l, jl_amount_cents l)"

definition Line_view :: "Line \<Rightarrow> movement" where
  "Line_view l = (ln_account l, ln_direction l, ln_amountCents l)"

definition signed :: "movement \<Rightarrow> int" where
  "signed x = (case x of (a, dir, n) \<Rightarrow> if dir = ''CREDIT'' then n else - n)"

definition views_balance :: "string \<Rightarrow> movement list \<Rightarrow> int" where
  "views_balance a xs = (\<Sum>x\<leftarrow>xs. if fst x = a then signed x else 0)"

lemma views_balance_simps [simp]:
  "views_balance a [] = 0"
  "views_balance a (x # xs) = (if fst x = a then signed x else 0) + views_balance a xs"
  "views_balance a (xs @ ys) = views_balance a xs + views_balance a ys"
  by (simp_all add: views_balance_def)

lemma account_balance_view: "account_balance a L = views_balance a (map line_view (journal_lines L))"
proof -
  have "(\<Sum>l\<leftarrow>filter (\<lambda>l. jl_account l = a) ls. if jl_direction l = ''CREDIT'' then jl_amount_cents l
      else - jl_amount_cents l) = views_balance a (map line_view ls)" for ls
    by (induction ls) (simp_all add: line_view_def signed_def)
  then show ?thesis by (simp add: account_balance_def)
qed

section \<open>The journal under any messages\<close>

text \<open>
  Every event is recorded once, ids are keys, every line has its entry, a direction and a
  positive amount, and every entry is balanced.
\<close>

definition journal_ok :: "ledger_db \<Rightarrow> bool" where
  "journal_ok L \<longleftrightarrow>
     distinct (map je_event_id (journal_entries L)) \<and> distinct (map je_id (journal_entries L)) \<and>
     distinct (map jl_id (journal_lines L)) \<and>
     (\<forall>l\<in>set (journal_lines L). jl_entry_id l \<in> je_id ` set (journal_entries L) \<and>
        jl_direction l \<in> {''DEBIT'', ''CREDIT''} \<and> 0 < jl_amount_cents l) \<and>
     (\<forall>e\<in>set (journal_entries L). entry_diff (je_id e) L = 0)"

lemma no_lines_yet:
  assumes "journal_ok L" and "i \<notin> je_id ` set (journal_entries L)"
  shows "filter (\<lambda>l. jl_entry_id l = i) (journal_lines L) = []"
proof -
  have "jl_entry_id l \<noteq> i" if "l \<in> set (journal_lines L)" for l
    using assms that by (metis journal_ok_def)
  then show ?thesis by (simp add: filter_empty_conv)
qed

definition as_rows :: "(nat \<Rightarrow> int) \<Rightarrow> nat \<Rightarrow> uuid \<Rightarrow> Line list \<Rightarrow> journal_line list" where
  "as_rows ids i entry ls =
     map (\<lambda>(k, x). \<lparr>jl_id = ids k, jl_entry_id = entry, jl_account = ln_account x,
       jl_direction = ln_direction x, jl_amount_cents = ln_amountCents x\<rparr>) (zip [i..<i + length ls] ls)"

lemma as_rows_simps [simp]:
  "as_rows ids i entry [] = []"
  "as_rows ids i entry (x # xs) =
     \<lparr>jl_id = ids i, jl_entry_id = entry, jl_account = ln_account x, jl_direction = ln_direction x,
      jl_amount_cents = ln_amountCents x\<rparr> # as_rows ids (Suc i) entry xs"
  by (simp_all add: as_rows_def upt_conv_Cons del: upt_Suc)

lemma as_rows_views [simp]: "map line_view (as_rows ids i entry ls) = map Line_view ls"
  by (induction ls arbitrary: i) (simp_all add: line_view_def Line_view_def)

lemma as_rows_entry: "l \<in> set (as_rows ids i entry ls) \<Longrightarrow> jl_entry_id l = entry"
  by (induction ls arbitrary: i) auto

definition lines_ok :: "ledger_db \<Rightarrow> bool" where
  "lines_ok L \<longleftrightarrow> distinct (map jl_id (journal_lines L)) \<and>
     (\<forall>l\<in>set (journal_lines L). jl_entry_id l \<in> je_id ` set (journal_entries L) \<and>
        jl_direction l \<in> {''DEBIT'', ''CREDIT''} \<and> 0 < jl_amount_cents l)"

lemma insert_line_Inr:
  assumes "insert_line n entry line L = Inr L'"
  shows "L' = L\<lparr>journal_lines := journal_lines L @
      [\<lparr>jl_id = n, jl_entry_id = entry, jl_account = ln_account line, jl_direction = ln_direction line,
        jl_amount_cents = ln_amountCents line\<rparr>]\<rparr>" and "lines_ok L \<Longrightarrow> lines_ok L'"
  using assms by (auto simp: insert_line_def lines_ok_def list_ex_iff split: if_splits)

lemma insert_lines_Inr:
  assumes "insert_lines h i entry lines L = Inr L'"
  shows "L' = L\<lparr>journal_lines := journal_lines L @ as_rows (lh_nextval h) i entry lines\<rparr> \<and>
    (lines_ok L \<longrightarrow> lines_ok L')"
  using assms
proof (induction lines arbitrary: i L)
  case (Cons x xs)
  then obtain L1 where one: "insert_line (lh_nextval h i) entry x L = Inr L1"
    and rest: "insert_lines h (Suc i) entry xs L1 = Inr L'"
    by (auto simp: and_do_def split: sum.splits)
  from Cons.IH [OF rest] insert_line_Inr [OF one] show ?case by auto
qed simp

text \<open>The three ways a transaction of \<open>post\<close> can leave the tables.\<close>

lemma post_cases:
  assumes "post pg_uuid env eventId eventType referenceId lines s = (res, s')"
  obtains (error) e where "res = Inl e" and "lg_db s' = lg_db s"
  | (duplicate) "eventId \<in> je_event_id ` set (journal_entries (lg_db s))" and "lg_db s' = lg_db s"
      and "res = Inr False"
  | (recorded) i ref where "eventId \<notin> je_event_id ` set (journal_entries (lg_db s))"
      and "i \<notin> je_id ` set (journal_entries (lg_db s))" and "pg_uuid referenceId = Some ref"
      and "lg_db s' = \<lparr>journal_entries = journal_entries (lg_db s) @
          [\<lparr>je_id = i, je_event_id = eventId, je_event_type = eventType, je_reference_id = ref,
            je_created_at = lh_now (lv_handle env)\<rparr>],
         journal_lines = journal_lines (lg_db s) @ as_rows (lh_nextval (lv_handle env)) 0 i lines\<rparr>"
      and "lines = [] \<or> entry_diff i (lg_db s') = 0" and "lines_ok (lg_db s) \<Longrightarrow> lines_ok (lg_db s')"
      and "\<And>b. res = Inr b \<Longrightarrow> b"
proof (cases "post_body pg_uuid (lv_handle env) eventId eventType referenceId lines (lg_db s)")
  case (Inl e)
  with assms show thesis by (intro error [of e]) (simp_all add: post_def)
next
  case (Inr r)
  obtain entry L' where r: "r = (entry, L')" by fastforce
  show thesis
  proof (cases entry)
    case None
    then have "eventId \<in> je_event_id ` set (journal_entries (lg_db s))"
      using Inr r by (auto simp: post_body_def insert_entry_def and_do_def list_ex_iff split: if_splits option.splits sum.splits)
    moreover have "lg_db s' = lg_db s" "res = Inr False \<or> (\<exists>e. res = Inl e)"
      using assms Inr r None by (auto simp: post_def count_post_def Let_def split: commit_end.splits)
    ultimately show thesis using error duplicate by blast
  next
    case (Some i)
    let ?e = "\<lambda>ref. \<lparr>je_id = i, je_event_id = eventId, je_event_type = eventType, je_reference_id = ref,
            je_created_at = lh_now (lv_handle env)\<rparr>"
    from Inr r Some obtain ref L1 where i: "i = lh_entry_id (lv_handle env)" and ref: "pg_uuid referenceId = Some ref"
      and new: "\<forall>e\<in>set (journal_entries (lg_db s)). je_event_id e \<noteq> eventId"
        "\<forall>e\<in>set (journal_entries (lg_db s)). je_id e \<noteq> i"
      and L1: "L1 = (lg_db s)\<lparr>journal_entries := journal_entries (lg_db s) @ [?e ref]\<rparr>"
      and ls: "insert_lines (lv_handle env) 0 i lines L1 = Inr L'"
      by (auto simp: post_body_def insert_entry_def and_do_def list_ex_iff split: if_splits option.splits sum.splits)
    from new have fresh: "eventId \<notin> je_event_id ` set (journal_entries (lg_db s))"
      "i \<notin> je_id ` set (journal_entries (lg_db s))" by auto
    have L': "L' = L1\<lparr>journal_lines := journal_lines L1 @ as_rows (lh_nextval (lv_handle env)) 0 i lines\<rparr>"
      and keep: "lines_ok L1 \<Longrightarrow> lines_ok L'" using insert_lines_Inr [OF ls] by blast+
    have "lines_ok (lg_db s) \<Longrightarrow> lines_ok L1" by (auto simp: lines_ok_def L1)
    with keep have keep: "lines_ok (lg_db s) \<Longrightarrow> lines_ok L'" by blast
    show thesis
    proof (cases "lg_db s' = lg_db s \<and> (\<exists>e. res = Inl e)")
      case True
      with error show thesis by blast
    next
      case False
      then have out: "lg_db s' = L'" "lines = [] \<or> entry_diff i L' = 0" "\<And>b. res = Inr b \<Longrightarrow> b"
        using assms Inr r Some
        by (auto simp: post_def count_post_def Let_def split: commit_end.splits if_splits)
      show thesis
        by (rule recorded [OF fresh ref]) (use out keep in \<open>simp_all add: L' L1\<close>)
    qed
  qed
qed

lemma post_journal_ok:
  assumes ok: "journal_ok (lg_db s)"
    and run: "post pg_uuid env eventId eventType referenceId lines s = (res, s')"
  shows "journal_ok (lg_db s') \<and> prefix (journal_entries (lg_db s)) (journal_entries (lg_db s')) \<and>
    prefix (journal_lines (lg_db s)) (journal_lines (lg_db s'))"
  using run
proof (cases rule: post_cases)
  case (recorded i ref)
  let ?L = "lg_db s" and ?L' = "lg_db s'"
  have "lines_ok ?L" using ok by (simp add: journal_ok_def lines_ok_def)
  then have lok: "lines_ok ?L'" by (rule recorded(6))
  have new: "entry_diff i ?L' = 0"
    using recorded(5)
  proof
    assume "lines = []"
    then have "journal_lines ?L' = journal_lines ?L" by (simp add: recorded(4))
    with no_lines_yet [OF ok recorded(2)] show ?thesis by (simp add: entry_diff_def)
  qed
  have old: "entry_diff (je_id e) ?L' = 0" if e: "e \<in> set (journal_entries ?L)" for e
  proof -
    have "filter (\<lambda>l. jl_entry_id l = je_id e) (as_rows (lh_nextval (lv_handle env)) 0 i lines) = []"
      using e recorded(2) as_rows_entry by (auto simp: filter_empty_conv)
    then have "entry_diff (je_id e) ?L' = entry_diff (je_id e) ?L" by (simp add: entry_diff_def recorded(4))
    with ok e show ?thesis by (simp add: journal_ok_def)
  qed
  have "journal_ok ?L'"
    using ok lok new old recorded(1,2) by (auto simp: journal_ok_def lines_ok_def recorded(4))
  then show ?thesis by (simp add: recorded(4))
qed (use ok in simp_all)

text \<open>
  Redelivery of one event, whatever the database does: its lines are written at most once, all
  together.
\<close>

interpretation posted: redelivery "\<lambda>env s. snd (post pg_uuid env eventId eventType referenceId lines s)" "\<lambda>_. True"
    "\<lambda>s. eventId \<in> je_event_id ` set (journal_entries (lg_db s))" "\<lambda>s. map line_view (journal_lines (lg_db s))"
    "map Line_view lines" for pg_uuid eventId eventType referenceId lines
proof (unfold_locales, goal_cases)
  case (1 env s)
  obtain res s' where run: "post pg_uuid env eventId eventType referenceId lines s = (res, s')" by fastforce
  then show ?case by (cases rule: post_cases) (use 1 run in auto)
next
  case (2 env s)
  obtain res s' where run: "post pg_uuid env eventId eventType referenceId lines s = (res, s')" by fastforce
  then show ?case by (cases rule: post_cases) (use run in auto)
qed

lemma onEvent_cases:
  assumes "onEvent as_long pg_uuid env topic value s = (res, s')"
  obtains (invalid) err where "res = Inl err" and "s' = s"
  | (posted) eventId ty tid lines r where "post pg_uuid env eventId ty tid lines s = (r, s')"
      and "res = map_sum DataAccessException id r"
  using assms by (auto simp: onEvent_def split: sum.splits prod.splits)

lemma onEvent_journal_ok:
  assumes ok: "journal_ok (lg_db s)" and run: "onEvent as_long pg_uuid env topic value s = (res, s')"
  shows "journal_ok (lg_db s') \<and> prefix (journal_entries (lg_db s)) (journal_entries (lg_db s')) \<and>
    prefix (journal_lines (lg_db s)) (journal_lines (lg_db s'))"
  using run
proof (cases rule: onEvent_cases)
  case (posted eventId ty tid lines r)
  from post_journal_ok [OF ok posted(1)] show ?thesis .
qed (use ok in simp)

section \<open>The events of the wallet\<close>

definition tx_lines :: "tx_row \<Rightarrow> Line list" where
  "tx_lines t =
     [\<lparr>ln_account = (case tr_from_wallet_id t of None \<Rightarrow> EXTERNAL_CASH | Some f \<Rightarrow> ''wallet:'' @ f),
       ln_direction = ''DEBIT'', ln_amountCents = tr_amount_cents t\<rparr>,
      \<lparr>ln_account = ''wallet:'' @ tr_to_wallet_id t, ln_direction = ''CREDIT'',
       ln_amountCents = tr_amount_cents t\<rparr>]"

lemma java_spaces_codes: "p \<in> set java_spaces \<Longrightarrow> p \<noteq> [] \<and> \<not> printable (hd p)"
  by (auto simp: java_spaces_def bytes_def printable_def)

lemma isBlank_plain: "printable c \<Longrightarrow> \<not> isBlank (c # s)"
  unfolding isBlank_def using java_spaces_codes trim_plain [of java_spaces c s] by simp

lemma isBlank_code [code]:
  "isBlank s = (case s of [] \<Rightarrow> True | c # cs \<Rightarrow> \<not> printable c \<and> trim_prefixes java_spaces s = [])"
proof (cases s)
  case Nil
  have "find (\<lambda>p. p \<noteq> [] \<and> take (length p) [] = p) java_spaces = None" by (auto simp: find_None_iff)
  then have "trim_prefixes java_spaces [] = []" by (subst trim_prefixes.simps) simp
  with Nil show ?thesis by (simp add: isBlank_def)
next
  case (Cons c cs)
  then show ?thesis using isBlank_plain [of c cs] by (cases "printable c") (simp_all add: isBlank_def)
qed

lemma tx_type_text: "\<not> isBlank (tx_type t)" "storable (tx_type t)"
  by (simp_all add: tx_type_def isBlank_plain printable_def storable_def)

text \<open>\<open>JsonNode.asLong\<close> on an integer that fits a \<open>long\<close>.\<close>

definition asLong_doc :: "(int \<Rightarrow> int option) \<Rightarrow> bool" where
  "asLong_doc as_long \<longleftrightarrow> (\<forall>n. in_int64 n \<longrightarrow> as_long n = Some n)"

lemma require_str: "json_get event f = Some (JStr s) \<Longrightarrow> \<not> isBlank s \<Longrightarrow> require event f = Inr s"
  by (simp add: require_def)

lemma amount_int:
  "json_get event ''amountCents'' = Some (JNum n) \<Longrightarrow> asLong_doc as_long \<Longrightarrow> in_int64 n \<Longrightarrow> 0 < n \<Longrightarrow>
     amount as_long event = Inr n"
  by (simp add: amount_def asLong_doc_def)

text \<open>The columns a transaction's event is made of.\<close>

lemma tx_event_parts:
  assumes inv: "wallet_inv d" and t: "t \<in> set (transactions d)" and ty: "typed_columns pg_uuid d"
    and ev: "tx_event d t = Some m"
  shows "uuid_text pg_uuid (tr_id t)" and "in_int64 (tr_amount_cents t)" and "0 < tr_amount_cents t"
    and "uuid_text pg_uuid (tr_to_wallet_id t)"
    and "\<And>f. tr_from_wallet_id t = Some f \<Longrightarrow> uuid_text pg_uuid f"
proof -
  show "uuid_text pg_uuid (tr_id t)" "in_int64 (tr_amount_cents t)" using ty t by (simp_all add: typed_columns_def)
  have refs: "tx_checks t" "tx_refs d t" using inv t schema_okD(6) by (auto simp: wallet_inv_def)
  then show "0 < tr_amount_cents t" by (simp add: tx_checks_def)
  show "uuid_text pg_uuid (tr_to_wallet_id t)" "\<And>f. tr_from_wallet_id t = Some f \<Longrightarrow> uuid_text pg_uuid f"
    using refs(2) ty by (auto simp: tx_refs_def typed_columns_def list_ex_iff)
qed

lemma parse_event_object: "is_object v \<Longrightarrow> parse_event (JsonValue v) = Inr v"
  by (cases v) (simp_all add: is_object_def parse_event_def)

lemma linesFor_genuine:
  assumes inv: "wallet_inv d" and t: "t \<in> set (transactions d)" and ty: "typed_columns pg_uuid d"
    and ev: "tx_event d t = Some m" and long: "asLong_doc as_long"
  shows "linesFor as_long (km_topic m) (km_value m) = Inr (tx_lines t)"
proof -
  note parts = tx_event_parts [OF inv t ty ev]
  note amt = amount_int [OF event_fields(5) [OF ev] long parts(2,3)]
  have to: "\<not> isBlank (tr_to_wallet_id t)" using parts(4) by (simp add: uuid_text_def)
  show ?thesis
  proof (cases "tr_from_wallet_id t")
    case None
    from amt require_str [OF deposit_fields(2) [OF ev None] to] deposit_fields(1) [OF ev None] None
    show ?thesis by (simp add: linesFor_def topicDeposits_def tx_lines_def)
  next
    case (Some f)
    then have f: "\<not> isBlank f" using parts(5) by (simp add: uuid_text_def)
    from ev Some obtain v w where top: "km_topic m = topicTransfers"
      and get: "json_get (km_value m) ''fromWalletId'' = Some (JStr f)"
        "json_get (km_value m) ''toWalletId'' = Some (JStr (tr_to_wallet_id t))"
      by (rule transfer_fields)
    from amt require_str [OF get(1) f] require_str [OF get(2) to] top Some show ?thesis
      by (simp add: linesFor_def topicTransfers_def tx_lines_def)
  qed
qed

lemma onEvent_genuine:
  assumes inv: "wallet_inv d" and t: "t \<in> set (transactions d)" and ty: "typed_columns pg_uuid d"
    and ev: "tx_event d t = Some m" and long: "asLong_doc as_long"
  shows "onEvent as_long pg_uuid env (km_topic m) (JsonValue (km_value m)) s =
    map_prod (map_sum DataAccessException id) id (post pg_uuid env (tr_id t) (tx_type t) (tr_id t) (tx_lines t) s)"
proof -
  have "\<not> isBlank (tr_id t)" using tx_event_parts(1) [OF inv t ty ev] by (simp add: uuid_text_def)
  with event_fields [OF ev] tx_type_text(1) [of t] linesFor_genuine [OF assms] show ?thesis
    by (simp add: onEvent_def require_str parse_event_object split: prod.split sum.split)
qed

section \<open>The journal as a list of transactions\<close>

definition entry_view :: "journal_entry \<Rightarrow> string \<times> string \<times> uuid" where
  "entry_view e = (je_event_id e, je_event_type e, je_reference_id e)"

definition tx_view :: "tx_row \<Rightarrow> string \<times> string \<times> uuid" where
  "tx_view t = (tr_id t, tx_type t, tr_id t)"

text \<open>The journal holds exactly the entries of \<open>ts\<close>, in order, each with its own two lines.\<close>

definition journal_of :: "ledger_db \<Rightarrow> tx_row list \<Rightarrow> bool" where
  "journal_of L ts \<longleftrightarrow> map entry_view (journal_entries L) = map tx_view ts \<and>
     map (\<lambda>l. (jl_entry_id l, line_view l)) (journal_lines L) =
       concat (map (\<lambda>(e, t). map (\<lambda>x. (je_id e, Line_view x)) (tx_lines t)) (zip (journal_entries L) ts))"

lemma as_rows_tagged:
  "map (\<lambda>l. (jl_entry_id l, line_view l)) (as_rows ids i entry ls) = map (\<lambda>x. (entry, Line_view x)) ls"
  by (induction ls arbitrary: i) (simp_all add: line_view_def Line_view_def)

lemma journal_of_ids: "journal_of L ts \<Longrightarrow> je_event_id ` set (journal_entries L) = tr_id ` set ts"
proof -
  assume "journal_of L ts"
  then have "map fst (map entry_view (journal_entries L)) = map fst (map tx_view ts)" by (simp add: journal_of_def)
  then have "map je_event_id (journal_entries L) = map tr_id ts" by (simp add: o_def entry_view_def tx_view_def)
  then show ?thesis by (metis list.set_map)
qed

lemma journal_of_length: "journal_of L ts \<Longrightarrow> length (journal_entries L) = length ts"
  by (metis journal_of_def length_map)

lemma post_journal_of:
  assumes J: "journal_of (lg_db s) ts" and u: "uuid_text pg_uuid (tr_id t)"
    and run: "post pg_uuid env (tr_id t) (tx_type t) (tr_id t) (tx_lines t) s = (res, s')"
  obtains (same) "journal_of (lg_db s') ts" and "\<And>b. res = Inr b \<Longrightarrow> tr_id t \<in> tr_id ` set ts"
  | (new) "tr_id t \<notin> tr_id ` set ts" and "journal_of (lg_db s') (ts @ [t])"
  using run
proof (cases rule: post_cases)
  case (error e)
  with J show thesis by (intro same) simp_all
next
  case duplicate
  with J journal_of_ids [OF J] show thesis by (intro same) simp_all
next
  case (recorded i ref)
  from u recorded(3) have ref: "ref = tr_id t" by (simp add: uuid_text_def)
  have "journal_of (lg_db s') (ts @ [t])"
    using J journal_of_length [OF J]
    by (simp add: journal_of_def recorded(4) ref as_rows_tagged entry_view_def tx_view_def)
  with recorded(1) journal_of_ids [OF J] show thesis by (intro new) simp_all
qed

text \<open>The balances the journal shows are those of the recorded transactions.\<close>

lemma journal_of_views:
  assumes "journal_of L ts"
  shows "map line_view (journal_lines L) = concat (map (\<lambda>t. map Line_view (tx_lines t)) ts)"
proof -
  have len: "length (journal_entries L) = length ts" using assms by (rule journal_of_length)
  have "map snd (concat (map (\<lambda>(e, t). map (\<lambda>x. (je_id e, Line_view x)) (tx_lines t)) (zip es ts))) =
      concat (map (\<lambda>t. map Line_view (tx_lines t)) ts)" if "length es = length ts" for es ts
    using that by (induction es ts rule: list_induct2) (simp_all add: o_def)
  from this [OF len] assms have "map snd (map (\<lambda>l. (jl_entry_id l, line_view l)) (journal_lines L)) =
      concat (map (\<lambda>t. map Line_view (tx_lines t)) ts)"
    by (simp only: journal_of_def)
  then show ?thesis by (simp add: o_def)
qed

lemma wallet_account_balance:
  assumes "journal_of L ts"
  shows "account_balance (''wallet:'' @ w) L = credits w ts - debits w ts"
proof -
  have "views_balance (''wallet:'' @ w) (concat (map (\<lambda>t. map Line_view (tx_lines t)) ts)) =
      credits w ts - debits w ts"
    by (induction ts) (auto simp: credits_def debits_def tx_lines_def Line_view_def signed_def EXTERNAL_CASH_def
        split: option.split)
  with journal_of_views [OF assms] show ?thesis by (simp add: account_balance_view)
qed

lemma cash_account_balance:
  assumes "journal_of L ts"
  shows "account_balance EXTERNAL_CASH L =
    - (\<Sum>t\<leftarrow>ts. if tr_from_wallet_id t = None then tr_amount_cents t else 0)"
proof -
  have "views_balance EXTERNAL_CASH (concat (map (\<lambda>t. map Line_view (tx_lines t)) ts)) =
      - (\<Sum>t\<leftarrow>ts. if tr_from_wallet_id t = None then tr_amount_cents t else 0)"
    by (induction ts) (auto simp: tx_lines_def Line_view_def signed_def EXTERNAL_CASH_def split: option.split)
  with journal_of_views [OF assms] show ?thesis by (simp add: account_balance_view)
qed

section \<open>The invariant of the system\<close>

text \<open>A step of the wallet side only adds transactions and messages, and no event changes.\<close>

definition grows :: "relay_state \<Rightarrow> relay_state \<Rightarrow> bool" where
  "grows r r' \<longleftrightarrow> set (transactions (rs_db r)) \<subseteq> set (transactions (rs_db r')) \<and>
     set (rs_log r) \<subseteq> set (rs_log r') \<and>
     (\<forall>t m. tx_event (rs_db r) t = Some m \<longrightarrow> tx_event (rs_db r') t = Some m)"

lemma grows_same_wallets:
  assumes "wallets (rs_db r') = wallets (rs_db r)" and "transactions (rs_db r') = transactions (rs_db r)"
    and "set (rs_log r) \<subseteq> set (rs_log r')"
  shows "grows r r'"
  using assms tx_event_wallets [OF assms(1)] by (simp add: grows_def)

lemma pipeline_step_grows:
  assumes "pipeline_step r r'" and inv: "pipeline_inv r"
  shows "grows r r'"
  using assms(1)
proof cases
  case (request d')
  have "wallet_inv (rs_db r)" using inv by (simp add: pipeline_inv_def)
  with request(2) show ?thesis
    by (cases rule: move_step_cases) (auto simp: grows_def request(1) tx_event_stable)
next
  case (batch env rl res)
  from batch(3) show ?thesis by (cases rule: publishBatch_cases) (auto intro!: grows_same_wallets)
next
  case (tick rl tk)
  then show ?thesis
    by (cases tk) (auto intro!: grows_same_wallets
        simp: refreshGauges_def cleanup_tick_def Let_def delete_published_simps split: option.split)
qed

definition recorded_txs :: "system \<Rightarrow> tx_row list \<Rightarrow> bool" where
  "recorded_txs sys ts \<longleftrightarrow>
     journal_of (lg_db (sy_ledger sys)) ts \<and> distinct (map tr_id ts) \<and>
     set ts \<subseteq> set (transactions (rs_db (sy_relay sys))) \<and>
     (\<forall>m\<in>set (sy_done sys). \<exists>t\<in>set ts. tx_event (rs_db (sy_relay sys)) t = Some m)"

definition system_inv :: "(string \<Rightarrow> uuid option) \<Rightarrow> system \<Rightarrow> bool" where
  "system_inv pg_uuid sys \<longleftrightarrow> pipeline_inv (sy_relay sys) \<and> typed_columns pg_uuid (rs_db (sy_relay sys)) \<and>
     journal_ok (lg_db (sy_ledger sys)) \<and> sy_dlq sys = [] \<and> (\<exists>ts. recorded_txs sys ts)"

lemma recorded_txs_grows:
  "recorded_txs sys ts \<Longrightarrow> grows (sy_relay sys) r \<Longrightarrow> recorded_txs (sys\<lparr>sy_relay := r\<rparr>) ts"
  by (fastforce simp: recorded_txs_def grows_def)

text \<open>One delivery of a message Kafka holds: the ledger records its transaction, or had, or fails.\<close>

lemma deliver_recorded:
  assumes inv: "pipeline_inv (sy_relay sys)" "typed_columns pg_uuid (rs_db (sy_relay sys))"
    and R: "recorded_txs sys ts" and long: "asLong_doc as_long" and m: "m \<in> set (rs_log (sy_relay sys))"
  obtains ts' where "recorded_txs (deliver as_long pg_uuid env m sys) ts'"
    and "sy_dlq (deliver as_long pg_uuid env m sys) = sy_dlq sys"
    and "sy_relay (deliver as_long pg_uuid env m sys) = sy_relay sys"
proof -
  let ?d = "rs_db (sy_relay sys)" and ?s = "sy_ledger sys"
  have wi: "wallet_inv ?d" using inv(1) by (simp add: pipeline_inv_def)
  from inv(1) m obtain t where t: "t \<in> set (transactions ?d)" and ev: "tx_event ?d t = Some m"
    unfolding pipeline_inv_def events_genuine_def by blast
  obtain res s' where run: "post pg_uuid env (tr_id t) (tx_type t) (tr_id t) (tx_lines t) ?s = (res, s')"
    by fastforce
  have on: "onEvent as_long pg_uuid env (km_topic m) (JsonValue (km_value m)) ?s =
      (map_sum DataAccessException id res, s')"
    using onEvent_genuine [OF wi t inv(2) ev long, of env ?s] run by simp
  have out: "deliver as_long pg_uuid env m sys =
      (case res of Inl e \<Rightarrow> sys\<lparr>sy_ledger := s'\<rparr> | Inr b \<Rightarrow> sys\<lparr>sy_ledger := s', sy_done := sy_done sys @ [m]\<rparr>)"
    by (cases res) (simp_all add: deliver_def on)
  have keep: "sy_dlq (deliver as_long pg_uuid env m sys) = sy_dlq sys"
    "sy_relay (deliver as_long pg_uuid env m sys) = sy_relay sys"
    by (simp_all add: out split: sum.split)
  from R have J: "journal_of (lg_db ?s) ts" and sub: "set ts \<subseteq> set (transactions ?d)" by (simp_all add: recorded_txs_def)
  have u: "uuid_text pg_uuid (tr_id t)" using tx_event_parts(1) [OF wi t inv(2) ev] .
  from J u run show thesis
  proof (cases rule: post_journal_of)
    case same
    have "t \<in> set ts" if "res = Inr b" for b
    proof -
      from same(2) [OF that] obtain t' where t': "t' \<in> set ts" "tr_id t' = tr_id t" by auto
      have "distinct (map tr_id (transactions ?d))" using wi by (simp add: wallet_inv_def schema_okD)
      with t' t sub show ?thesis using key_inj by (metis subsetD)
    qed
    with same(1) R ev have "recorded_txs (deliver as_long pg_uuid env m sys) ts"
      by (cases res) (auto simp: recorded_txs_def out)
    with keep that show thesis by blast
  next
    case new
    with R ev t have "recorded_txs (deliver as_long pg_uuid env m sys) (ts @ [t])"
      by (cases res) (auto simp: recorded_txs_def out)
    with keep that show thesis by blast
  qed
qed

lemma deliver_journal_ok:
  assumes "journal_ok (lg_db (sy_ledger sys))"
  shows "journal_ok (lg_db (sy_ledger (deliver as_long pg_uuid env m sys)))"
proof -
  obtain res s' where run: "onEvent as_long pg_uuid env (km_topic m) (JsonValue (km_value m)) (sy_ledger sys) = (res, s')"
    by fastforce
  from onEvent_journal_ok [OF assms run] show ?thesis
    by (simp add: deliver_def run split: verdict.split)
qed

lemma system_step_inv:
  assumes "system_step as_long pg_uuid sys sys'" and inv: "system_inv pg_uuid sys" and long: "asLong_doc as_long"
  shows "system_inv pg_uuid sys'"
  using assms(1)
proof cases
  case (produce r)
  have "pipeline_inv (sy_relay sys)" using inv by (simp add: system_inv_def)
  with produce(2) have "pipeline_inv r" "grows (sy_relay sys) r"
    by (rule pipeline_step_inv, rule pipeline_step_grows)
  with inv produce recorded_txs_grows show ?thesis by (fastforce simp: system_inv_def)
next
  case (consume m env)
  from inv obtain ts where ts: "recorded_txs sys ts" by (auto simp: system_inv_def)
  from inv have pi: "pipeline_inv (sy_relay sys)" "typed_columns pg_uuid (rs_db (sy_relay sys))"
    by (simp_all add: system_inv_def)
  from pi ts long consume(2) obtain ts' where "recorded_txs (deliver as_long pg_uuid env m sys) ts'"
      "sy_dlq (deliver as_long pg_uuid env m sys) = sy_dlq sys"
      "sy_relay (deliver as_long pg_uuid env m sys) = sy_relay sys"
    by (rule deliver_recorded)
  with inv deliver_journal_ok show ?thesis by (auto simp: system_inv_def consume(1))
qed

lemma system_inv_init: "system_inv pg_uuid init_system"
proof -
  have "recorded_txs init_system []" "journal_ok (lg_db empty_ledger)"
    by (simp_all add: recorded_txs_def journal_of_def init_system_def empty_ledger_def journal_ok_def)
  moreover have "typed_columns pg_uuid (rs_db init_relay_state)"
    by (simp add: typed_columns_def init_relay_state_def empty_db_def)
  ultimately show ?thesis by (auto simp: system_inv_def pipeline_inv_init init_system_def)
qed

lemma system_run_inv: "system_run as_long pg_uuid sys \<Longrightarrow> asLong_doc as_long \<Longrightarrow> system_inv pg_uuid sys"
  unfolding system_run_def
  by (induction rule: rtranclp_induct) (simp_all add: system_inv_init system_step_inv)

section \<open>The journal and the books of the wallet\<close>

lemma sum_list_same_set:
  fixes f :: "'a \<Rightarrow> int"
  assumes "distinct xs" and "distinct ys" and "set xs = set ys"
  shows "sum_list (map f xs) = sum_list (map f ys)"
  using assms by (simp add: sum_list_distinct_conv_sum_set)

text \<open>When nothing is pending anywhere, every transaction is in the journal.\<close>

lemma caught_up:
  assumes R: "recorded_txs sys ts" and inv: "pipeline_inv (sy_relay sys)"
    and none: "unpublished (rs_db (sy_relay sys)) = []" and all: "set (rs_log (sy_relay sys)) \<subseteq> set (sy_done sys)"
  shows "set ts = set (transactions (rs_db (sy_relay sys)))"
proof
  let ?d = "rs_db (sy_relay sys)"
  show "set ts \<subseteq> set (transactions ?d)" using R by (simp add: recorded_txs_def)
  have ids: "distinct (map tr_id (transactions ?d))"
    using inv by (simp add: pipeline_inv_def wallet_inv_def schema_okD)
  show "set (transactions ?d) \<subseteq> set ts"
  proof
    fix t assume t: "t \<in> set (transactions ?d)"
    with inv none obtain m where m: "tx_event ?d t = Some m" "m \<in> set (rs_log (sy_relay sys))"
      unfolding pipeline_inv_def events_covered_def by auto
    with R all obtain t' where t': "t' \<in> set ts" "tx_event ?d t' = Some m" unfolding recorded_txs_def by blast
    then have "tr_id t' = tr_id t" using event_fields(2) [OF m(1)] event_fields(2) [OF t'(2)] by simp
    with t t'(1) \<open>set ts \<subseteq> set (transactions ?d)\<close> have "t' = t" using key_inj [OF ids] by blast
    with t'(1) show "t \<in> set ts" by simp
  qed
qed

lemma caught_up_sums:
  fixes f :: "tx_row \<Rightarrow> int"
  assumes "recorded_txs sys ts" and "pipeline_inv (sy_relay sys)"
    and "unpublished (rs_db (sy_relay sys)) = []" and "set (rs_log (sy_relay sys)) \<subseteq> set (sy_done sys)"
  shows "sum_list (map f ts) = sum_list (map f (transactions (rs_db (sy_relay sys))))"
proof (rule sum_list_same_set)
  show "set ts = set (transactions (rs_db (sy_relay sys)))" using assms by (rule caught_up)
  show "distinct ts" using assms(1) by (auto simp: recorded_txs_def distinct_map)
  show "distinct (transactions (rs_db (sy_relay sys)))"
    using assms(2) by (auto simp: pipeline_inv_def wallet_inv_def schema_ok_def distinct_map)
qed

section \<open>The trial balance\<close>

definition trial_balance :: "ledger_db \<Rightarrow> int" where
  "trial_balance L = (\<Sum>l\<leftarrow>journal_lines L. if jl_direction l = ''DEBIT'' then jl_amount_cents l else - jl_amount_cents l)"

lemma sum_by_key:
  fixes f :: "'a \<Rightarrow> int"
  assumes "finite K" and "\<And>x. x \<in> set xs \<Longrightarrow> k x \<in> K"
  shows "sum_list (map f xs) = (\<Sum>i\<in>K. sum_list (map f (filter (\<lambda>x. k x = i) xs)))"
  using assms(2)
proof (induction xs)
  case (Cons a xs)
  have "(\<Sum>i\<in>K. sum_list (map f (filter (\<lambda>x. k x = i) (a # xs)))) =
      (\<Sum>i\<in>K. (if k a = i then f a else 0) + sum_list (map f (filter (\<lambda>x. k x = i) xs)))"
    by (intro sum.cong) auto
  also have "\<dots> = f a + sum_list (map f xs)"
    using Cons assms(1) by (simp add: sum.distrib sum.delta')
  finally show ?case by simp
qed simp

lemma journal_ok_trial: "journal_ok L \<Longrightarrow> trial_balance L = 0"
proof -
  assume ok: "journal_ok L"
  have "trial_balance L = (\<Sum>i\<in>je_id ` set (journal_entries L). entry_diff i L)"
    unfolding trial_balance_def entry_diff_def
    by (rule sum_by_key) (use ok in \<open>simp_all add: journal_ok_def\<close>)
  also have "\<dots> = 0" using ok by (auto simp: journal_ok_def intro: sum.neutral)
  finally show ?thesis .
qed

section \<open>A delivery that meets no failure\<close>

definition fresh_draw :: "ledger_handle \<Rightarrow> ledger_db \<Rightarrow> bool" where
  "fresh_draw h L \<longleftrightarrow> lh_entry_id h \<notin> je_id ` set (journal_entries L) \<and> inj (lh_nextval h) \<and>
     (\<forall>k. lh_nextval h k \<notin> jl_id ` set (journal_lines L))"

lemma tx_lines_accepted:
  assumes "uuid_text pg_uuid (tr_id t)" and "0 < tr_amount_cents t" and "uuid_text pg_uuid (tr_to_wallet_id t)"
    and "\<And>f. tr_from_wallet_id t = Some f \<Longrightarrow> uuid_text pg_uuid f"
    and fresh: "fresh_draw h L" and new: "tr_id t \<notin> je_event_id ` set (journal_entries L)"
  shows "\<exists>L'. post_body pg_uuid h (tr_id t) (tx_type t) (tr_id t) (tx_lines t) L = Inr (Some (lh_entry_id h), L') \<and>
    entry_diff (lh_entry_id h) L' = entry_diff (lh_entry_id h) L"
proof -
  have "storable (''wallet:'' @ tr_to_wallet_id t)"
    "storable (case tr_from_wallet_id t of None \<Rightarrow> EXTERNAL_CASH | Some f \<Rightarrow> ''wallet:'' @ f)"
    using assms(3,4) by (auto simp: uuid_text_def storable_def EXTERNAL_CASH_def split: option.splits)
  moreover have "lh_nextval h (Suc 0) \<noteq> lh_nextval h 0" using fresh by (simp add: fresh_draw_def inj_eq)
  moreover have "\<not> list_ex (\<lambda>l. jl_id l = lh_nextval h k) (journal_lines L)" for k
    using fresh unfolding fresh_draw_def list_ex_iff by (metis imageI)
  moreover have "\<not> list_ex (\<lambda>e. je_id e = lh_entry_id h) (journal_entries L)"
    "\<not> list_ex (\<lambda>e. je_event_id e = tr_id t) (journal_entries L)"
    using fresh new by (auto simp: fresh_draw_def list_ex_iff image_iff)
  ultimately show ?thesis using assms(1,2) tx_type_text(2) [of t]
    by (simp add: post_body_def insert_entry_def insert_line_def tx_lines_def uuid_text_def entry_diff_def)
qed

text \<open>A genuine event whose delivery meets no failure is handled, and then it is in the journal.\<close>

lemma deliver_healthy:
  assumes inv: "system_inv pg_uuid sys" and long: "asLong_doc as_long" and m: "m \<in> set (rs_log (sy_relay sys))"
    and fresh: "fresh_draw (lv_handle env) (lg_db (sy_ledger sys))" and ok: "lv_commit env = CommitOk"
  shows "sy_done (deliver as_long pg_uuid env m sys) = sy_done sys @ [m]"
proof -
  let ?d = "rs_db (sy_relay sys)" and ?s = "sy_ledger sys" and ?h = "lv_handle env"
  from inv have pi: "pipeline_inv (sy_relay sys)" and ty: "typed_columns pg_uuid ?d" and jo: "journal_ok (lg_db ?s)"
    by (simp_all add: system_inv_def)
  have wi: "wallet_inv ?d" using pi by (simp add: pipeline_inv_def)
  from pi m obtain t where t: "t \<in> set (transactions ?d)" and ev: "tx_event ?d t = Some m"
    unfolding pipeline_inv_def events_genuine_def by blast
  note parts = tx_event_parts [OF wi t ty ev]
  have "\<not> isl (fst (post pg_uuid env (tr_id t) (tx_type t) (tr_id t) (tx_lines t) ?s))"
  proof (cases "tr_id t \<in> je_event_id ` set (journal_entries (lg_db ?s))")
    case True
    then have "list_ex (\<lambda>e. je_event_id e = tr_id t) (journal_entries (lg_db ?s))" by (auto simp: list_ex_iff)
    with parts(1) tx_type_text(2) [of t] ok show ?thesis
      by (simp add: post_def post_body_def insert_entry_def uuid_text_def Let_def)
  next
    case False
    from tx_lines_accepted [OF parts(1,3,4,5) fresh this] obtain L' where
      body: "post_body pg_uuid ?h (tr_id t) (tx_type t) (tr_id t) (tx_lines t) (lg_db ?s) = Inr (Some (lh_entry_id ?h), L')"
      and diff: "entry_diff (lh_entry_id ?h) L' = entry_diff (lh_entry_id ?h) (lg_db ?s)" by blast
    have "filter (\<lambda>l. jl_entry_id l = lh_entry_id ?h) (journal_lines (lg_db ?s)) = []"
      using fresh by (intro no_lines_yet [OF jo]) (simp add: fresh_draw_def)
    with diff have "entry_diff (lh_entry_id ?h) L' = 0" by (simp add: entry_diff_def)
    with body ok show ?thesis by (simp add: post_def Let_def)
  qed
  then obtain b s' where "post pg_uuid env (tr_id t) (tx_type t) (tr_id t) (tx_lines t) ?s = (Inr b, s')"
    by (metis prod.collapse sum.collapse(2))
  with onEvent_genuine [OF wi t ty ev long, of env ?s] show ?thesis by (simp add: deliver_def)
qed

end
