(* ===== verification/LedgerClaims.thy ===== *)
theory LedgerClaims
  imports LedgerProofs OutboxClaims
begin

text \<open>
  The properties of the ledger, alone and together with the wallet and the outbox relay, with an
  executable runner for concrete systems.
\<close>

section \<open>Concrete systems\<close>

text \<open>Instances of the parameters: identifiers made of letters, digits and dashes, and \<open>asLong\<close>.\<close>

definition word_char :: "char \<Rightarrow> bool" where
  "word_char c \<longleftrightarrow> c \<in> set ''0123456789abcdefghijklmnopqrstuvwxyz-''"

definition word_uuid :: "string \<Rightarrow> uuid option" where
  "word_uuid s = (if s \<noteq> [] \<and> list_all word_char s then Some s else None)"

definition fit_long :: "int \<Rightarrow> int option" where
  "fit_long n = (if in_int64 n then Some n else None)"

lemma fit_long_doc: "asLong_doc fit_long"
  by (simp add: asLong_doc_def fit_long_def)

lemma word_letters: "list_all (\<lambda>c. printable c \<and> c \<noteq> CHR 0x00) ''0123456789abcdefghijklmnopqrstuvwxyz-''"
  by (simp add: printable_def)

lemma word_uuid_text: "word_uuid s \<noteq> None \<Longrightarrow> uuid_text word_uuid s"
proof -
  assume s: "word_uuid s \<noteq> None"
  then obtain c cs where cs: "s = c # cs" by (cases s) (simp_all add: word_uuid_def)
  from s have all: "list_all word_char s" and id: "word_uuid s = Some s"
    by (auto simp: word_uuid_def split: if_splits)
  then have good: "printable x \<and> x \<noteq> CHR 0x00" if "x \<in> set s" for x
    using that word_letters unfolding list_all_iff word_char_def by blast
  then have "\<not> isBlank s" "storable s" unfolding cs storable_def by (auto simp: isBlank_plain)
  with id show ?thesis by (simp add: uuid_text_def)
qed

definition typed_check :: "db \<Rightarrow> bool" where
  "typed_check d \<longleftrightarrow>
     list_all (\<lambda>t. word_uuid (tr_id t) \<noteq> None \<and> word_uuid (tr_user_id t) \<noteq> None \<and> in_int64 (tr_amount_cents t))
       (transactions d) \<and>
     list_all (\<lambda>w. word_uuid (wr_id w) \<noteq> None \<and> word_uuid (wr_user_id w) \<noteq> None) (wallets d)"

lemma typed_check_columns: "typed_check d \<Longrightarrow> typed_columns word_uuid d"
  by (simp add: typed_check_def typed_columns_def list_all_iff word_uuid_text)

datatype sact = SProduce pact | SConsume nat ledger_env

fun sact_step :: "sact \<Rightarrow> system \<Rightarrow> system" where
  "sact_step (SProduce a) sys =
     (let r = pact_step a (sy_relay sys) in if typed_check (rs_db r) then sys\<lparr>sy_relay := r\<rparr> else sys)"
| "sact_step (SConsume i env) sys =
     (if i < length (rs_log (sy_relay sys)) then deliver fit_long word_uuid env (rs_log (sy_relay sys) ! i) sys else sys)"

definition system_of :: "sact list \<Rightarrow> system" where
  "system_of acts = fold sact_step acts init_system"

lemma sact_step_ok: "sact_step a sys = sys \<or> system_step fit_long word_uuid sys (sact_step a sys)"
proof (cases a)
  case (SProduce p)
  then show ?thesis using pact_step_ok [of p "sy_relay sys"]
    by (auto simp: Let_def intro: system_step.produce typed_check_columns)
next
  case (SConsume i env)
  then show ?thesis by (auto intro: system_step.consume)
qed

lemma system_of_run: "system_run fit_long word_uuid (system_of acts)"
proof -
  have "system_run fit_long word_uuid sys \<Longrightarrow> system_run fit_long word_uuid (fold sact_step acts sys)" for sys
  proof (induction acts arbitrary: sys)
    case (Cons a acts)
    have "system_run fit_long word_uuid (sact_step a sys)"
      using sact_step_ok [of a sys] Cons.prems unfolding system_run_def
      by (auto intro: rtranclp.rtrancl_into_rtrancl)
    with Cons.IH show ?case by simp
  qed simp
  then show ?thesis by (simp add: system_of_def system_run_def)
qed

text \<open>
  A deposit and a transfer, sent, and delivered out of order with a failed commit and a
  redelivery.
\<close>

definition ledger_draw :: "int \<Rightarrow> uuid \<Rightarrow> commit_end \<Rightarrow> ledger_env" where
  "ledger_draw n i c = \<lparr>lv_handle = \<lparr>lh_entry_id = i, lh_now = n, lh_nextval = (\<lambda>k. n + int k)\<rparr>,
     lv_commit = c, lv_dlq = True\<rparr>"

definition demo_system :: system where
  "demo_system = system_of
     [SProduce (PCreate ''a1'' 10 ''aa''), SProduce (PCreate ''b1'' 11 ''bb''),
      SProduce (PDeposit ''aa'' 500 ''k1'' (quiet_handle 20 ''c1'' 1)),
      SProduce (PTransfer ''aa'' ''b1'' 120 ''k2'' (quiet_handle 30 ''c2'' 2)),
      SProduce (PBatch demo_relay [] 50),
      SConsume 1 (ledger_draw 100 ''e1'' (RolledBack (OtherError ''connection lost''))),
      SConsume 1 (ledger_draw 200 ''e2'' (InDoubt (OtherError ''connection lost''))),
      SConsume 0 (ledger_draw 300 ''e3'' CommitOk),
      SConsume 1 (ledger_draw 400 ''e4'' CommitOk),
      SConsume 0 (ledger_draw 500 ''e5'' CommitOk)]"

lemma demo_system_run: "system_run fit_long word_uuid demo_system"
  unfolding demo_system_def by (rule system_of_run)

lemma demo_facts:
  "unpublished (rs_db (sy_relay demo_system)) = [] \<and>
   list_all (\<lambda>m. m \<in> set (sy_done demo_system)) (rs_log (sy_relay demo_system)) \<and>
   map (\<lambda>w. (wr_id w, wr_balance_cents w)) (wallets (rs_db (sy_relay demo_system))) = [(''a1'', 380), (''b1'', 120)]"
  by code_simp

section \<open>The ledger and the wallet\<close>

text \<open>
  C3: The ledger records every event exactly once.  Whatever requests, relays, Kafka failures,
  redeliveries, reorderings, failed commits and commits in doubt happen, the journal consists of
  exactly one entry, with its own two lines, for each of a set of distinct wallet transactions;
  every message the ledger has acknowledged has its transaction there, and no event of the wallet
  is ever sent to the dead-letter topic.
\<close>

theorem ledger_exactly_once:
  assumes "asLong_doc as_long" and "system_run as_long pg_uuid sys"
  shows "sy_dlq sys = [] \<and> (\<exists>ts. journal_of (lg_db (sy_ledger sys)) ts \<and> distinct (map tr_id ts) \<and>
    set ts \<subseteq> set (transactions (rs_db (sy_relay sys))) \<and>
    (\<forall>m\<in>set (sy_done sys). \<exists>t\<in>set ts. tx_event (rs_db (sy_relay sys)) t = Some m))"
  using system_run_inv [OF assms(2,1)] by (auto simp: system_inv_def recorded_txs_def)

theorem ledger_exactly_once_witness:
  "sy_dlq demo_system = [] \<and> (\<exists>ts. journal_of (lg_db (sy_ledger demo_system)) ts \<and> distinct (map tr_id ts) \<and>
    set ts \<subseteq> set (transactions (rs_db (sy_relay demo_system))))"
  using ledger_exactly_once [OF fit_long_doc demo_system_run] by blast

text \<open>
  C4: The books reconcile.  Once the outbox is empty and the ledger has acknowledged every message
  Kafka holds, the balance the ledger derives for each wallet from its journal is the balance the
  wallet service keeps in its table, and the external cash account is overdrawn by exactly the sum
  of the deposits.
\<close>

theorem ledger_reconciles:
  assumes "asLong_doc as_long" and "system_run as_long pg_uuid sys"
    and "unpublished (rs_db (sy_relay sys)) = []" and "set (rs_log (sy_relay sys)) \<subseteq> set (sy_done sys)"
  shows "(\<forall>w\<in>set (wallets (rs_db (sy_relay sys))).
      account_balance (''wallet:'' @ wr_id w) (lg_db (sy_ledger sys)) = wr_balance_cents w) \<and>
    account_balance EXTERNAL_CASH (lg_db (sy_ledger sys)) = - total_deposits (rs_db (sy_relay sys))"
proof -
  let ?d = "rs_db (sy_relay sys)"
  from system_run_inv [OF assms(2,1)] obtain ts where R: "recorded_txs sys ts"
    and pi: "pipeline_inv (sy_relay sys)" by (auto simp: system_inv_def)
  from R have J: "journal_of (lg_db (sy_ledger sys)) ts" by (simp add: recorded_txs_def)
  note sums = caught_up_sums [OF R pi assms(3,4)]
  have "credits w ts = credits w (transactions ?d)" "debits w ts = debits w (transactions ?d)" for w
    by (simp_all add: credits_def debits_def sums)
  moreover have "row_in_books (transactions ?d) w" if "w \<in> set (wallets ?d)" for w
    using pi that by (simp add: pipeline_inv_def wallet_inv_def books_ok_def list_all_iff)
  ultimately show ?thesis unfolding wallet_account_balance [OF J] cash_account_balance [OF J]
    by (simp add: row_in_books_def total_deposits_def sums)
qed

theorem ledger_reconciles_witness:
  "account_balance (''wallet:'' @ ''a1'') (lg_db (sy_ledger demo_system)) = 380 \<and>
   account_balance (''wallet:'' @ ''b1'') (lg_db (sy_ledger demo_system)) = 120"
proof -
  have "set (rs_log (sy_relay demo_system)) \<subseteq> set (sy_done demo_system)"
    using demo_facts by (auto simp: list_all_iff)
  with demo_facts ledger_reconciles [OF fit_long_doc demo_system_run]
  have all: "\<forall>w\<in>set (wallets (rs_db (sy_relay demo_system))).
      account_balance (''wallet:'' @ wr_id w) (lg_db (sy_ledger demo_system)) = wr_balance_cents w" by blast
  from demo_facts obtain a b where ab: "wallets (rs_db (sy_relay demo_system)) = [a, b]"
    "wr_id a = ''a1''" "wr_balance_cents a = 380" "wr_id b = ''b1''" "wr_balance_cents b = 120"
    by (auto simp: map_eq_Cons_conv)
  have "account_balance (''wallet:'' @ wr_id a) (lg_db (sy_ledger demo_system)) = wr_balance_cents a"
    "account_balance (''wallet:'' @ wr_id b) (lg_db (sy_ledger demo_system)) = wr_balance_cents b"
    using all ab(1) by simp_all
  then show ?thesis unfolding ab by blast
qed

text \<open>
  C13: The ledger catches up.  In every reachable state, a message that Kafka holds is acknowledged
  by its next delivery whose database transaction meets no failure (fresh identifiers, a commit
  that succeeds), however many deliveries failed or were in doubt before, and the entry of its
  transaction is then in the journal.
\<close>

theorem ledger_catches_up:
  assumes "asLong_doc as_long" and "system_run as_long pg_uuid sys" and "m \<in> set (rs_log (sy_relay sys))"
    and "fresh_draw (lv_handle env) (lg_db (sy_ledger sys))" and "lv_commit env = CommitOk"
  shows "m \<in> set (sy_done (deliver as_long pg_uuid env m sys)) \<and>
    (\<exists>ts t. journal_of (lg_db (sy_ledger (deliver as_long pg_uuid env m sys))) ts \<and> t \<in> set ts \<and>
       tx_event (rs_db (sy_relay sys)) t = Some m)"
proof -
  note inv = system_run_inv [OF assms(2,1)]
  have "sy_done (deliver as_long pg_uuid env m sys) = sy_done sys @ [m]"
    by (rule deliver_healthy [OF inv assms(1,3-5)])
  moreover from inv obtain ts where R: "recorded_txs sys ts" and pi: "pipeline_inv (sy_relay sys)"
    and ty: "typed_columns pg_uuid (rs_db (sy_relay sys))" by (auto simp: system_inv_def)
  obtain ts' where "recorded_txs (deliver as_long pg_uuid env m sys) ts'"
      "sy_relay (deliver as_long pg_uuid env m sys) = sy_relay sys"
    by (rule deliver_recorded [OF pi ty R assms(1,3)])
  ultimately show ?thesis unfolding recorded_txs_def by auto
qed

definition demo_catching_up :: system where
  "demo_catching_up = system_of
     [SProduce (PCreate ''a1'' 10 ''aa''), SProduce (PDeposit ''aa'' 500 ''k1'' (quiet_handle 20 ''c1'' 1)),
      SProduce (PBatch demo_relay [] 50),
      SConsume 0 (ledger_draw 100 ''e1'' (RolledBack (OtherError ''connection lost'')))]"

lemma demo_catching_up_facts:
  "length (rs_log (sy_relay demo_catching_up)) = 1 \<and> sy_done demo_catching_up = [] \<and>
   journal_entries (lg_db (sy_ledger demo_catching_up)) = [] \<and> journal_lines (lg_db (sy_ledger demo_catching_up)) = []"
  by code_simp

theorem ledger_catches_up_witness:
  "rs_log (sy_relay demo_catching_up) ! 0 \<in>
     set (sy_done (deliver fit_long word_uuid (ledger_draw 200 ''e2'' CommitOk)
       (rs_log (sy_relay demo_catching_up) ! 0) demo_catching_up))"
proof -
  have run: "system_run fit_long word_uuid demo_catching_up" unfolding demo_catching_up_def by (rule system_of_run)
  have mem: "rs_log (sy_relay demo_catching_up) ! 0 \<in> set (rs_log (sy_relay demo_catching_up))"
    using demo_catching_up_facts by simp
  have fresh: "fresh_draw (lv_handle (ledger_draw 200 ''e2'' CommitOk)) (lg_db (sy_ledger demo_catching_up))"
    using demo_catching_up_facts by (simp add: fresh_draw_def ledger_draw_def inj_def)
  have ok: "lv_commit (ledger_draw 200 ''e2'' CommitOk) = CommitOk" by (simp add: ledger_draw_def)
  from ledger_catches_up [OF fit_long_doc run mem fresh ok] show ?thesis by blast
qed

section \<open>The journal alone\<close>

definition journal_after ::
    "(int \<Rightarrow> int option) \<Rightarrow> (string \<Rightarrow> uuid option) \<Rightarrow> (ledger_env \<times> string \<times> raw) list \<Rightarrow> ledger_state \<Rightarrow> ledger_state" where
  "journal_after as_long pg_uuid ms s =
     fold (\<lambda>(env, topic, value) s. snd (onEvent as_long pg_uuid env topic value s)) ms s"

lemma journal_after_ok:
  assumes "journal_ok (lg_db s)"
  shows "journal_ok (lg_db (journal_after as_long pg_uuid ms s)) \<and>
    prefix (journal_entries (lg_db s)) (journal_entries (lg_db (journal_after as_long pg_uuid ms s))) \<and>
    prefix (journal_lines (lg_db s)) (journal_lines (lg_db (journal_after as_long pg_uuid ms s)))"
  using assms
proof (induction ms arbitrary: s)
  case Nil
  then show ?case by (simp add: journal_after_def)
next
  case (Cons m ms)
  obtain env topic v where m: "m = (env, topic, v)" by (cases m) auto
  let ?s1 = "snd (onEvent as_long pg_uuid env topic v s)"
  from onEvent_journal_ok [OF Cons.prems prod.collapse [symmetric]]
  have one: "journal_ok (lg_db ?s1)" "prefix (journal_entries (lg_db s)) (journal_entries (lg_db ?s1))"
    "prefix (journal_lines (lg_db s)) (journal_lines (lg_db ?s1))" by blast+
  have "journal_after as_long pg_uuid (m # ms) s = journal_after as_long pg_uuid ms ?s1"
    by (simp add: journal_after_def m)
  with Cons.IH [OF one(1)] one(2,3) show ?case by (auto intro: prefix_order.trans)
qed

text \<open>
  C14: The journal is a double-entry journal whatever Kafka delivers (foreign messages, garbage,
  any field values, any database failures): one entry per event id, every line with its entry, a
  direction and a positive amount, every entry and so the whole journal balanced, and entries and
  lines only ever appended.
\<close>

theorem journal_always_balanced:
  "journal_ok (lg_db (journal_after as_long pg_uuid ms empty_ledger)) \<and>
   trial_balance (lg_db (journal_after as_long pg_uuid ms empty_ledger)) = 0 \<and>
   prefix (journal_lines (lg_db (journal_after as_long pg_uuid ms empty_ledger)))
     (journal_lines (lg_db (journal_after as_long pg_uuid (ms @ later) empty_ledger))) \<and>
   prefix (journal_entries (lg_db (journal_after as_long pg_uuid ms empty_ledger)))
     (journal_entries (lg_db (journal_after as_long pg_uuid (ms @ later) empty_ledger)))"
proof -
  have "journal_ok (lg_db empty_ledger)" by (simp add: journal_ok_def empty_ledger_def)
  then have ok: "journal_ok (lg_db (journal_after as_long pg_uuid ms empty_ledger))"
    using journal_after_ok by blast
  moreover have "journal_after as_long pg_uuid (ms @ later) empty_ledger =
      journal_after as_long pg_uuid later (journal_after as_long pg_uuid ms empty_ledger)"
    by (simp add: journal_after_def)
  ultimately show ?thesis using journal_after_ok [OF ok, of as_long pg_uuid later] by (simp add: journal_ok_trial)
qed

text \<open>However often one event is posted, its lines are written once, or not at all.\<close>

lemma redelivered_lines:
  "\<exists>vs. map line_view (journal_lines (lg_db (fold (\<lambda>env s. snd (post pg_uuid env i ty ref lines s)) envs s))) =
     map line_view (journal_lines (lg_db s)) @ vs \<and> prefix vs (map Line_view lines)"
  by (rule posted.at_most_once) simp

section \<open>Messages that block a partition\<close>

text \<open>
  C28: A well-formed message whose \<open>transactionId\<close> is not a UUID passes every check of the
  listener and then fails in the database at each of its deliveries, whatever the state: it is
  never acknowledged and never sent to the dead-letter topic, so it holds up its partition for
  ever.
\<close>

theorem bad_uuid_never_dead_lettered:
  assumes "require event ''eventId'' = Inr eventId" and "require event ''type'' = Inr eventType"
    and "require event ''transactionId'' = Inr tid" and "linesFor as_long topic event = Inr lines"
    and "is_object event" and "pg_uuid tid = None"
  shows "kafkaErrorHandler (fst (onEvent as_long pg_uuid env topic (JsonValue event) s)) = Redeliver \<and>
    snd (onEvent as_long pg_uuid env topic (JsonValue event) s) = s"
  using assms by (simp add: onEvent_def parse_event_object post_def post_body_def insert_entry_def)

definition bad_reference :: json where
  "bad_reference = JObj [(''eventId'', JStr ''e9''), (''type'', JStr ''DepositCompleted''),
     (''transactionId'', JStr ''not a uuid''), (''walletId'', JStr ''a1''), (''amountCents'', JNum 5)]"

theorem bad_uuid_never_dead_lettered_witness:
  "kafkaErrorHandler (fst (onEvent fit_long word_uuid (ledger_draw 1 ''e1'' CommitOk) ''wallet.deposited'' (JsonValue bad_reference) empty_ledger)) =
     Redeliver"
proof -
  have "require bad_reference ''eventId'' = Inr ''e9''" "require bad_reference ''type'' = Inr ''DepositCompleted''"
    "require bad_reference ''transactionId'' = Inr ''not a uuid''"
    "linesFor fit_long ''wallet.deposited'' bad_reference =
       Inr [\<lparr>ln_account = EXTERNAL_CASH, ln_direction = ''DEBIT'', ln_amountCents = 5\<rparr>,
            \<lparr>ln_account = ''wallet:a1'', ln_direction = ''CREDIT'', ln_amountCents = 5\<rparr>]"
    "is_object bad_reference" "word_uuid ''not a uuid'' = None"
    by code_simp+
  from bad_uuid_never_dead_lettered [where pg_uuid = word_uuid, OF this] show ?thesis by blast
qed

end
