(* ===== verification/Fraud.thy ===== *)
theory Fraud
  imports EventFields GoText
begin

text \<open>
  The fraud service (\<open>services/fraud/app\<close>, Python): the rules of \<open>rules.py\<close>, the worker of
  \<open>worker.py\<close> with its retries and its dead-letter topic, and the readiness check of \<open>main.py\<close>.

  Parameters, the fields of \<open>fraud_api\<close>: the Redis commands, the Kafka producer, the clocks,
  \<open>datetime.fromisoformat(...).timestamp() * 1000\<close> as an integer (\<open>None\<close>: a \<open>ValueError\<close>), and the
  two thresholds read from the environment.
\<close>

section \<open>Redis and Kafka\<close>

datatype zcmd =
    ZADD string string int
  | ZREMRANGEBYSCORE string int int
  | ZCOUNT string int int
  | PEXPIRE string int

record 'r fraud_api =
  fa_exec :: "zcmd list \<Rightarrow> 'r \<Rightarrow> (string + int list) \<times> 'r"
  fa_exists :: "string \<Rightarrow> 'r \<Rightarrow> (string + bool) \<times> 'r"
  fa_set_ex :: "string \<Rightarrow> int \<Rightarrow> 'r \<Rightarrow> string option \<times> 'r"
  fa_send :: "kmsg \<Rightarrow> string option \<times> bool"
  fa_send_dlq :: "string \<Rightarrow> raw \<Rightarrow> string option"
  fa_now_ms :: int
  fa_now_iso :: string
  fa_fromisoformat_ms :: "string \<Rightarrow> int option"
  fa_MAX_AMOUNT :: int
  fa_MAX_PER_MINUTE :: int

definition WINDOW_MS :: int where "WINDOW_MS = 60000"

section \<open>Events\<close>

datatype fraud_error = InvalidMsg string | Failure string

definition py_str :: "json \<Rightarrow> string \<Rightarrow> string" where
  "py_str event f = (case json_get event f of Some (JStr s) \<Rightarrow> s | _ \<Rightarrow> [])"

definition py_int :: "json \<Rightarrow> string \<Rightarrow> int" where
  "py_int event f = (case json_get event f of Some (JNum n) \<Rightarrow> n | _ \<Rightarrow> 0)"

definition fraud_parse :: "raw \<Rightarrow> fraud_error + json" where
  "fraud_parse v =
     (case v of
        NoValue \<Rightarrow> Inl (InvalidMsg ''message is not valid JSON'')
      | NotJson \<Rightarrow> Inl (InvalidMsg ''message is not valid JSON'')
      | JsonValue event \<Rightarrow>
          if \<not> is_object event then Inl (InvalidMsg ''message is not a JSON object'')
          else
            (case find (\<lambda>f. py_str event f = [])
                    [''eventId'', ''transactionId'', ''fromWalletId'', ''fromUserId'', ''occurredAt''] of
               Some f \<Rightarrow> Inl (InvalidMsg (''event is missing field '' @ [CHR 0x22] @ f @ [CHR 0x22]))
             | None \<Rightarrow>
                 (case json_get event ''amountCents'' of
                    Some (JNum n) \<Rightarrow>
                      if n \<le> 0 then Inl (InvalidMsg ''amountCents must be a positive integer'') else Inr event
                  | _ \<Rightarrow> Inl (InvalidMsg ''amountCents must be a positive integer''))))"

section \<open>Rules\<close>

record alert =
  al_rule :: string
  al_detail :: string

definition large_amount :: "'r fraud_api \<Rightarrow> json \<Rightarrow> alert option" where
  "large_amount a event =
     (if py_int event ''amountCents'' \<le> fa_MAX_AMOUNT a then None
      else Some \<lparr>al_rule = ''LARGE_AMOUNT'',
        al_detail = ''amount '' @ strconv_Itoa (py_int event ''amountCents'') @ '' is above the limit of '' @
          strconv_Itoa (fa_MAX_AMOUNT a)\<rparr>)"

definition event_time_ms :: "'r fraud_api \<Rightarrow> json \<Rightarrow> int" where
  "event_time_ms a event =
     (case fa_fromisoformat_ms a (py_str event ''occurredAt'') of Some ms \<Rightarrow> ms | None \<Rightarrow> fa_now_ms a)"

definition velocity_key :: "json \<Rightarrow> string" where
  "velocity_key event = ''fraud:velocity:'' @ py_str event ''fromWalletId''"

definition velocity_cmds :: "string \<Rightarrow> string \<Rightarrow> int \<Rightarrow> zcmd list" where
  "velocity_cmds key member at =
     [ZADD key member at, ZREMRANGEBYSCORE key 0 (at - WINDOW_MS), ZCOUNT key (at - WINDOW_MS) at,
      PEXPIRE key (WINDOW_MS * 2)]"

definition velocity_alert :: "'r fraud_api \<Rightarrow> int \<Rightarrow> alert option" where
  "velocity_alert a count =
     (if count \<le> fa_MAX_PER_MINUTE a then None
      else Some \<lparr>al_rule = ''VELOCITY'',
        al_detail = strconv_Itoa count @ '' transfers in the last minute, limit is '' @
          strconv_Itoa (fa_MAX_PER_MINUTE a)\<rparr>)"

definition velocity :: "'r fraud_api \<Rightarrow> json \<Rightarrow> 'r \<Rightarrow> (fraud_error + alert option) \<times> 'r" where
  "velocity a event r =
     (case fa_exec a (velocity_cmds (velocity_key event) (py_str event ''eventId'') (event_time_ms a event)) r of
        (Inl e, r') \<Rightarrow> (Inl (Failure e), r')
      | (Inr [x, y, count, z], r') \<Rightarrow> (Inr (velocity_alert a count), r')
      | (Inr replies, r') \<Rightarrow> (Inl (Failure ''not enough values to unpack''), r'))"

definition evaluate :: "'r fraud_api \<Rightarrow> json \<Rightarrow> 'r \<Rightarrow> (fraud_error + alert list) \<times> 'r" where
  "evaluate a event r =
     (let alerts = (case large_amount a event of None \<Rightarrow> [] | Some x \<Rightarrow> [x]) in
      (case velocity a event r of
         (Inl e, r') \<Rightarrow> (Inl e, r')
       | (Inr None, r') \<Rightarrow> (Inr alerts, r')
       | (Inr (Some x), r') \<Rightarrow> (Inr (alerts @ [x]), r')))"

section \<open>The worker\<close>

record 'r worker =
  fw_redis :: 'r
  fw_alerts :: "kmsg list"
  fw_dlq :: "(string \<times> raw \<times> string) list"
  fw_messages :: "string \<Rightarrow> nat"
  fw_raised :: "string \<Rightarrow> nat"
  fw_committed :: "(string \<times> raw) list"
  fw_started :: bool

definition alert_id :: "json \<Rightarrow> alert \<Rightarrow> string" where
  "alert_id event x = py_str event ''eventId'' @ '':'' @ al_rule x"

definition alert_msg :: "'r fraud_api \<Rightarrow> json \<Rightarrow> alert \<Rightarrow> kmsg" where
  "alert_msg a event x =
     \<lparr>km_topic = ''fraud.alerts'', km_key = py_str event ''fromWalletId'',
      km_value = JObj
        [(''eventId'', JStr (alert_id event x)),
         (''type'', JStr ''FraudAlert''),
         (''rule'', JStr (al_rule x)),
         (''detail'', JStr (al_detail x)),
         (''transactionId'', JStr (py_str event ''transactionId'')),
         (''fromWalletId'', JStr (py_str event ''fromWalletId'')),
         (''fromUserId'', JStr (py_str event ''fromUserId'')),
         (''amountCents'', JNum (py_int event ''amountCents'')),
         (''occurredAt'', JStr (fa_now_iso a))]\<rparr>"

text \<open>The loop over the alerts of one event.\<close>

fun raise_alerts :: "'r fraud_api \<Rightarrow> json \<Rightarrow> alert list \<Rightarrow> 'r worker \<Rightarrow> fraud_error option \<times> 'r worker" where
  "raise_alerts a event [] s = (None, s)"
| "raise_alerts a event (x # xs) s =
     (let dedupe_key = ''fraud:alerted:'' @ alert_id event x in
      (case fa_exists a dedupe_key (fw_redis s) of
         (Inl e, r1) \<Rightarrow> (Some (Failure e), s\<lparr>fw_redis := r1\<rparr>)
       | (Inr True, r1) \<Rightarrow> raise_alerts a event xs (s\<lparr>fw_redis := r1\<rparr>)
       | (Inr False, r1) \<Rightarrow>
           let m = alert_msg a event x;
               sent = fa_send a m;
               s1 = s\<lparr>fw_redis := r1, fw_alerts := fw_alerts s @ (if snd sent then [m] else [])\<rparr>
           in (case fst sent of
                 Some e \<Rightarrow> (Some (Failure e), s1)
               | None \<Rightarrow>
                   (case fa_set_ex a dedupe_key 86400 (fw_redis s1) of
                      (Some e, r2) \<Rightarrow> (Some (Failure e), s1\<lparr>fw_redis := r2\<rparr>)
                    | (None, r2) \<Rightarrow>
                        raise_alerts a event xs
                          (s1\<lparr>fw_redis := r2, fw_raised := (fw_raised s1)(al_rule x := fw_raised s1 (al_rule x) + 1)\<rparr>)))))"

definition handle :: "'r fraud_api \<Rightarrow> raw \<Rightarrow> 'r worker \<Rightarrow> (fraud_error + string) \<times> 'r worker" where
  "handle a v s =
     (case fraud_parse v of
        Inl e \<Rightarrow> (Inl e, s)
      | Inr event \<Rightarrow>
          (case evaluate a event (fw_redis s) of
             (Inl e, r1) \<Rightarrow> (Inl e, s\<lparr>fw_redis := r1\<rparr>)
           | (Inr alerts, r1) \<Rightarrow>
               (case raise_alerts a event alerts (s\<lparr>fw_redis := r1\<rparr>) of
                  (Some e, s1) \<Rightarrow> (Inl e, s1)
                | (None, s1) \<Rightarrow> (Inr (if alerts \<noteq> [] then ''flagged'' else ''clean''), s1))))"

definition count_label :: "string \<Rightarrow> 'r worker \<Rightarrow> 'r worker" where
  "count_label l s = s\<lparr>fw_messages := (fw_messages s)(l := fw_messages s l + 1)\<rparr>"

text \<open>
  \<open>handle_with_retry\<close> on the attempts it makes, each with what it meets and whether the worker is
  stopping after it.  It returns true or false, raises, or is still retrying.  Sleeps are in
  milliseconds.
\<close>

datatype retry_end = Finished bool | Raised | Retrying

fun handle_with_retry ::
    "int \<Rightarrow> ('r fraud_api \<times> bool) list \<Rightarrow> string \<Rightarrow> raw \<Rightarrow> 'r worker \<Rightarrow> retry_end \<times> int list \<times> 'r worker" where
  "handle_with_retry backoff [] topic v s = (Retrying, [], s)"
| "handle_with_retry backoff ((a, stopping) # later) topic v s =
     (case handle a v s of
        (Inr result, s1) \<Rightarrow> (Finished True, [], count_label result s1)
      | (Inl (InvalidMsg reason), s1) \<Rightarrow>
          (case fa_send_dlq a (topic @ ''.dlq'') v of
             Some e \<Rightarrow> (Raised, [], s1)
           | None \<Rightarrow>
               (Finished True, [],
                count_label ''dlq'' (s1\<lparr>fw_dlq := fw_dlq s1 @ [(topic @ ''.dlq'', v, reason)]\<rparr>)))
      | (Inl (Failure e), s1) \<Rightarrow>
          let s2 = count_label ''retry'' s1 in
          if stopping then (Finished False, [], s2)
          else
            (case handle_with_retry (min (backoff * 2) 10000) later topic v s2 of
               (res, sleeps, s3) \<Rightarrow> (res, backoff # sleeps, s3)))"

text \<open>
  The loop of \<open>run\<close> over the messages it gets: each with its attempts and the result of
  \<open>consumer.commit()\<close>.  An exception leaves \<open>run\<close>, and with it the task of the worker.
\<close>

record 'r delivery =
  dv_topic :: string
  dv_value :: raw
  dv_attempts :: "('r fraud_api \<times> bool) list"
  dv_commit :: "string option"

datatype run_end = Waiting | Stopped | TaskFailed

fun run_worker :: "'r delivery list \<Rightarrow> 'r worker \<Rightarrow> run_end \<times> 'r worker" where
  "run_worker [] s = (Waiting, s)"
| "run_worker (d # ds) s =
     (case handle_with_retry 500 (dv_attempts d) (dv_topic d) (dv_value d) s of
        (Finished True, sleeps, s1) \<Rightarrow>
          (case dv_commit d of
             Some e \<Rightarrow> (TaskFailed, s1)
           | None \<Rightarrow> run_worker ds (s1\<lparr>fw_committed := fw_committed s1 @ [(dv_topic d, dv_value d)]\<rparr>))
      | (Finished False, sleeps, s1) \<Rightarrow> (Stopped, s1)
      | (Raised, sleeps, s1) \<Rightarrow> (TaskFailed, s1)
      | (Retrying, sleeps, s1) \<Rightarrow> (Waiting, s1))"

text \<open>
  \<open>connect_and_run\<close> on its attempts to connect: each with whether the worker was told to stop
  before it, the error it meets, and the error of closing the clients after it, which leaves the
  task.  After the loop, \<open>stopping\<close> says whether the worker is stopping.
\<close>

datatype connect_end = Linked | GaveUp | CloseRaised | Trying

fun connect :: "int \<Rightarrow> (bool \<times> string option \<times> string option) list \<Rightarrow> connect_end \<times> int list" where
  "connect backoff [] = (Trying, [])"
| "connect backoff ((stopping, err, close_err) # later) =
     (if stopping then (GaveUp, [])
      else
        (case (err, close_err) of
           (None, _) \<Rightarrow> (Linked, [])
         | (Some e, Some e') \<Rightarrow> (CloseRaised, [])
         | (Some e, None) \<Rightarrow>
             (case connect (min (backoff * 2) 10000) later of (res, sleeps) \<Rightarrow> (res, backoff # sleeps))))"

definition connect_and_run ::
    "(bool \<times> string option \<times> string option) list \<Rightarrow> bool \<Rightarrow> 'r delivery list \<Rightarrow> 'r worker \<Rightarrow> run_end \<times> 'r worker" where
  "connect_and_run attempts stopping ds s =
     (case fst (connect 1000 attempts) of
        Trying \<Rightarrow> (Waiting, s)
      | CloseRaised \<Rightarrow> (TaskFailed, s)
      | GaveUp \<Rightarrow> (Stopped, s)
      | Linked \<Rightarrow> if stopping then (Stopped, s) else run_worker ds (s\<lparr>fw_started := True\<rparr>))"

text \<open>\<open>/readyz\<close>: draining, whether the worker was started, and a ping of Redis.\<close>

definition fraud_readyz :: "bool \<Rightarrow> bool \<Rightarrow> 'r worker \<Rightarrow> int \<times> string" where
  "fraud_readyz draining ping_ok s =
     (if draining then (503, ''draining'')
      else if fw_started s \<and> ping_ok then (200, ''ok'') else (503, ''not_ready''))"

end
