(* ===== verification/FraudClaims.thy ===== *)
theory FraudClaims
  imports Fraud
begin

text \<open>
  The fraud service: no event is acknowledged without its alerts, the velocity rule against the
  number of transfers it means to count, and what stops the worker.
\<close>

section \<open>Alerts are sent before an event is acknowledged\<close>

text \<open>
  What the service relies on, with \<open>alerted\<close> for the keys that exist: \<open>EXISTS\<close> tells whether a key
  exists, a key exists only when it was set, and an acknowledged message is in the topic.
\<close>

definition alert_doc :: "'r fraud_api \<Rightarrow> (string \<Rightarrow> 'r \<Rightarrow> bool) \<Rightarrow> bool" where
  "alert_doc a alerted \<longleftrightarrow>
     (\<forall>cmds r k. alerted k (snd (fa_exec a cmds r)) \<longrightarrow> alerted k r) \<and>
     (\<forall>k r. (\<forall>k'. alerted k' (snd (fa_exists a k r)) \<longrightarrow> alerted k' r) \<and>
        (fst (fa_exists a k r) = Inr True \<longrightarrow> alerted k r)) \<and>
     (\<forall>k n r k'. alerted k' (snd (fa_set_ex a k n r)) \<longrightarrow> k' = k \<or> alerted k' r) \<and>
     (\<forall>m. fst (fa_send a m) = None \<longrightarrow> snd (fa_send a m))"

lemma alert_docD:
  assumes "alert_doc a alerted"
  shows "alerted k (snd (fa_exec a cmds r)) \<Longrightarrow> alerted k r"
    and "alerted k' (snd (fa_exists a k r)) \<Longrightarrow> alerted k' r"
    and "fst (fa_exists a k r) = Inr True \<Longrightarrow> alerted k r"
    and "alerted k' (snd (fa_set_ex a k n r)) \<Longrightarrow> k' = k \<or> alerted k' r"
    and "fst (fa_send a m) = None \<Longrightarrow> snd (fa_send a m)"
  using assms unfolding alert_doc_def by blast+

definition sent_alert :: "string \<Rightarrow> 'r worker \<Rightarrow> bool" where
  "sent_alert i s \<longleftrightarrow> (\<exists>m\<in>set (fw_alerts s). km_topic m = ''fraud.alerts'' \<and>
     json_get (km_value m) ''eventId'' = Some (JStr i))"

text \<open>A dedupe key exists only for an alert that was sent.\<close>

definition keys_sent :: "(string \<Rightarrow> 'r \<Rightarrow> bool) \<Rightarrow> 'r worker \<Rightarrow> bool" where
  "keys_sent alerted s \<longleftrightarrow> (\<forall>i. alerted (''fraud:alerted:'' @ i) (fw_redis s) \<longrightarrow> sent_alert i s)"

lemma keys_sent_redis:
  assumes "keys_sent alerted s" and "\<And>k. alerted k r \<Longrightarrow> alerted k (fw_redis s)"
  shows "keys_sent alerted (s\<lparr>fw_redis := r\<rparr>)"
  using assms by (auto simp: keys_sent_def sent_alert_def)

lemma sent_alert_grows: "set (fw_alerts s) \<subseteq> set (fw_alerts s') \<Longrightarrow> sent_alert i s \<Longrightarrow> sent_alert i s'"
  by (auto simp: sent_alert_def)

lemma alert_msg_sent: "alert_msg a event x \<in> set (fw_alerts s) \<Longrightarrow> sent_alert (alert_id event x) s"
  unfolding sent_alert_def by (rule bexI) (simp_all add: alert_msg_def)

text \<open>One alert: it fails, or it is sent (now or before) and the loop goes on.\<close>

lemma raise_step:
  assumes doc: "alert_doc a alerted" and keys: "keys_sent alerted s"
    and run: "raise_alerts a event (x # xs) s = (res, s')"
  obtains (failed) e where "res = Some e" and "keys_sent alerted s'" and "set (fw_alerts s) \<subseteq> set (fw_alerts s')"
  | (went) s1 where "raise_alerts a event xs s1 = (res, s')" and "keys_sent alerted s1"
      and "set (fw_alerts s) \<subseteq> set (fw_alerts s1)" and "sent_alert (alert_id event x) s1"
proof -
  let ?k = "''fraud:alerted:'' @ alert_id event x" and ?m = "alert_msg a event x"
  obtain ex r1 where ex: "fa_exists a ?k (fw_redis s) = (ex, r1)" by fastforce
  have old: "alerted k r1 \<Longrightarrow> alerted k (fw_redis s)" for k
    using alert_docD(2) [OF doc, of k ?k "fw_redis s"] ex by simp
  have k1: "keys_sent alerted (s\<lparr>fw_redis := r1\<rparr>)" by (rule keys_sent_redis [OF keys old])
  consider e where "ex = Inl e" | "ex = Inr True" | "ex = Inr False" by (cases ex) auto
  then show thesis
  proof cases
    case (1 e)
    with run ex k1 show thesis by (intro failed [of "Failure e"]) auto
  next
    case 2
    with alert_docD(3) [OF doc, of ?k "fw_redis s"] ex keys have "sent_alert (alert_id event x) s"
      by (simp add: keys_sent_def)
    with 2 ex run k1 show thesis by (intro went [of "s\<lparr>fw_redis := r1\<rparr>"]) (simp_all add: sent_alert_def)
  next
    case 3
    define s2 where "s2 = s\<lparr>fw_redis := r1, fw_alerts := fw_alerts s @ (if snd (fa_send a ?m) then [?m] else [])\<rparr>"
    have k2: "keys_sent alerted s2" using k1 by (auto simp: keys_sent_def sent_alert_def s2_def)
    have sub: "set (fw_alerts s) \<subseteq> set (fw_alerts s2)" by (simp add: s2_def)
    show thesis
    proof (cases "fst (fa_send a ?m)")
      case (Some e)
      with 3 ex run k2 sub show thesis by (intro failed [of "Failure e"]) (auto simp: Let_def s2_def)
    next
      case None
      with alert_docD(5) [OF doc] have sent: "sent_alert (alert_id event x) s2"
        by (intro alert_msg_sent [of a]) (simp add: s2_def)
      obtain e r2 where st: "fa_set_ex a ?k 86400 (fw_redis s2) = (e, r2)" by fastforce
      have new: "k = ?k \<or> alerted k (fw_redis s2)" if "alerted k r2" for k
        using alert_docD(4) [OF doc, of k ?k 86400 "fw_redis s2"] st that by simp
      have k3: "keys_sent alerted (s2\<lparr>fw_redis := r2, fw_raised := c\<rparr>)" for c
        using k2 sent new by (fastforce simp: keys_sent_def sent_alert_def)
      have k4: "keys_sent alerted (s2\<lparr>fw_redis := r2\<rparr>)" using k3 by (simp add: keys_sent_def sent_alert_def)
      from sent have sent': "sent_alert (alert_id event x) (s2\<lparr>fw_redis := r2, fw_raised := c\<rparr>)" for c
        by (simp add: sent_alert_def)
      show thesis
      proof (cases e)
        case (Some err)
        with 3 ex run None st have "res = Some (Failure err)" "s' = s2\<lparr>fw_redis := r2\<rparr>" by (simp_all add: Let_def s2_def)
        with k4 sub show thesis by (intro failed [of "Failure err"]) simp_all
      next
        case ok: None
        let ?c = "(fw_raised s2)(al_rule x := fw_raised s2 (al_rule x) + 1)"
        have "raise_alerts a event xs (s2\<lparr>fw_redis := r2, fw_raised := ?c\<rparr>) = (res, s')"
          using 3 ex run None st ok by (simp add: Let_def s2_def)
        from went [OF this k3 _ sent'] sub show thesis by simp
      qed
    qed
  qed
qed

lemma raise_alerts_sent:
  assumes doc: "alert_doc a alerted" and "keys_sent alerted s" and "raise_alerts a event xs s = (res, s')"
  shows "keys_sent alerted s' \<and> set (fw_alerts s) \<subseteq> set (fw_alerts s') \<and>
    (res = None \<longrightarrow> (\<forall>x\<in>set xs. sent_alert (alert_id event x) s'))"
  using assms(2,3)
proof (induction xs arbitrary: s)
  case (Cons x xs)
  from doc Cons.prems show ?case
  proof (cases rule: raise_step)
    case (went s1)
    from Cons.IH [OF went(2,1)] went(3,4) show ?thesis by (auto intro: sent_alert_grows)
  qed simp
qed simp

lemma velocity_redis: "snd (velocity a event r) =
    snd (fa_exec a (velocity_cmds (velocity_key event) (py_str event ''eventId'') (event_time_ms a event)) r)"
  by (simp add: velocity_def split: prod.split sum.split list.split)

lemma evaluate_redis: "snd (evaluate a event r) = snd (velocity a event r)"
  by (simp add: evaluate_def Let_def split: prod.split sum.split option.split)

lemma handle_sent:
  assumes doc: "alert_doc a alerted" and keys: "keys_sent alerted s" and run: "handle a v s = (res, s')"
  shows "keys_sent alerted s' \<and> set (fw_alerts s) \<subseteq> set (fw_alerts s')"
    and "\<And>label event alerts r. res = Inr label \<Longrightarrow> fraud_parse v = Inr event \<Longrightarrow>
      evaluate a event (fw_redis s) = (Inr alerts, r) \<Longrightarrow> \<forall>x\<in>set alerts. sent_alert (alert_id event x) s'"
proof -
  have both: "(keys_sent alerted s' \<and> set (fw_alerts s) \<subseteq> set (fw_alerts s')) \<and>
     (\<forall>label event alerts r. res = Inr label \<longrightarrow> fraud_parse v = Inr event \<longrightarrow>
      evaluate a event (fw_redis s) = (Inr alerts, r) \<longrightarrow> (\<forall>x\<in>set alerts. sent_alert (alert_id event x) s'))"
  proof (cases "fraud_parse v")
    case (Inl e)
    with run keys show ?thesis by (auto simp: handle_def)
  next
    case (Inr event)
    obtain er r1 where ev: "evaluate a event (fw_redis s) = (er, r1)" by fastforce
    have "alerted k (fw_redis s)" if "alerted k r1" for k
      using that alert_docD(1) [OF doc] ev evaluate_redis [of a event "fw_redis s"] velocity_redis [of a event "fw_redis s"]
      by simp
    then have k1: "keys_sent alerted (s\<lparr>fw_redis := r1\<rparr>)" by (rule keys_sent_redis [OF keys])
    show ?thesis
    proof (cases er)
      case (Inl e)
      with run Inr ev k1 show ?thesis by (auto simp: handle_def)
    next
      case alerts: (Inr alerts)
      obtain e s1 where ra: "raise_alerts a event alerts (s\<lparr>fw_redis := r1\<rparr>) = (e, s1)" by fastforce
      with run Inr ev alerts have "s' = s1" "e = None \<longleftrightarrow> (\<exists>l. res = Inr l)"
        by (auto simp: handle_def split: option.splits)
      with raise_alerts_sent [OF doc k1 ra] Inr ev alerts show ?thesis by auto
    qed
  qed
  then show "keys_sent alerted s' \<and> set (fw_alerts s) \<subseteq> set (fw_alerts s')" by blast
  from both show "\<And>label event alerts r. res = Inr label \<Longrightarrow> fraud_parse v = Inr event \<Longrightarrow>
      evaluate a event (fw_redis s) = (Inr alerts, r) \<Longrightarrow> \<forall>x\<in>set alerts. sent_alert (alert_id event x) s'" by blast
qed

text \<open>Any number of deliveries of any messages, each meeting its own failures.\<close>

definition fraud_deliveries :: "('r fraud_api \<times> raw) list \<Rightarrow> 'r worker \<Rightarrow> 'r worker" where
  "fraud_deliveries ds s = fold (\<lambda>(a, v) s. snd (handle a v s)) ds s"

lemma fraud_deliveries_keys:
  assumes "\<forall>d\<in>set ds. alert_doc (fst d) alerted" and "keys_sent alerted s"
  shows "keys_sent alerted (fraud_deliveries ds s)"
  using assms
proof (induction ds arbitrary: s)
  case (Cons d ds)
  obtain a v where d: "d = (a, v)" by fastforce
  have doc: "alert_doc a alerted" using Cons.prems(1) d by simp
  have "keys_sent alerted (snd (handle a v s))"
    using handle_sent(1) [OF doc Cons.prems(2) prod.collapse [symmetric]] by blast
  with Cons show ?case by (simp add: fraud_deliveries_def d)
qed (simp add: fraud_deliveries_def)

definition new_worker :: "'r \<Rightarrow> 'r worker" where
  "new_worker r = \<lparr>fw_redis = r, fw_alerts = [], fw_dlq = [], fw_messages = (\<lambda>_. 0), fw_raised = (\<lambda>_. 0),
     fw_committed = [], fw_started = True\<rparr>"

text \<open>
  C21: No large transfer is acknowledged without its alert.  Whatever was delivered before, with
  whatever failures of Redis and Kafka, when the handler returns for a transfer above the limit,
  an alert for that transfer and the rule \<open>LARGE_AMOUNT\<close> is in the topic \<open>fraud.alerts\<close>: it was sent
  now, or by an earlier delivery that left its key.
\<close>

theorem large_transfer_alerted:
  assumes "\<forall>d\<in>set ds. alert_doc (fst d) alerted" and "alert_doc a alerted" and "\<And>k. \<not> alerted k r0"
    and "fraud_parse v = Inr event" and "fa_MAX_AMOUNT a < py_int event ''amountCents''"
    and "handle a v (fraud_deliveries ds (new_worker r0)) = (Inr label, s')"
  shows "label = ''flagged'' \<and> sent_alert (py_str event ''eventId'' @ '':LARGE_AMOUNT'') s'"
proof -
  let ?s = "fraud_deliveries ds (new_worker r0)"
  have "keys_sent alerted (new_worker r0)" using assms(3) by (simp add: keys_sent_def new_worker_def)
  with assms(1) have keys: "keys_sent alerted ?s" by (rule fraud_deliveries_keys)
  obtain x where x: "large_amount a event = Some x" "al_rule x = ''LARGE_AMOUNT''"
    using assms(5) by (simp add: large_amount_def)
  from assms(4,6) obtain alerts r where ev: "evaluate a event (fw_redis ?s) = (Inr alerts, r)"
    and label: "label = (if alerts \<noteq> [] then ''flagged'' else ''clean'')"
    by (auto simp: handle_def split: prod.splits sum.splits option.splits)
  from ev x have "x \<in> set alerts" by (auto simp: evaluate_def Let_def split: prod.splits sum.splits option.splits)
  with handle_sent(2) [OF assms(2) keys assms(6) refl assms(4) ev] label x(2) show ?thesis
    by (auto simp: alert_id_def)
qed

section \<open>The velocity rule\<close>

text \<open>
  The documented behaviour of the four commands on sorted sets.  A key holds its members with
  their scores, each member once, and the time it expires, if any.
\<close>

type_synonym zsets = "string \<Rightarrow> (string \<times> int) list \<times> int option"

definition zlive :: "int \<Rightarrow> string \<Rightarrow> zsets \<Rightarrow> (string \<times> int) list \<times> int option" where
  "zlive now k z = (case z k of (ms, Some t) \<Rightarrow> if t \<le> now then ([], None) else (ms, Some t) | other \<Rightarrow> other)"

definition zput :: "string \<Rightarrow> (string \<times> int) list \<times> int option \<Rightarrow> zsets \<Rightarrow> zsets" where
  "zput k x z = z(k := (if fst x = [] then ([], None) else x))"

fun zcmd_run :: "int \<Rightarrow> zcmd \<Rightarrow> zsets \<Rightarrow> int \<times> zsets" where
  "zcmd_run now (ZADD k m score) z =
     (case zlive now k z of (ms, t) \<Rightarrow>
        (if m \<in> fst ` set ms then 0 else 1, zput k ((m, score) # filter (\<lambda>x. fst x \<noteq> m) ms, t) z))"
| "zcmd_run now (ZREMRANGEBYSCORE k lo hi) z =
     (case zlive now k z of (ms, t) \<Rightarrow>
        (int (length (filter (\<lambda>x. lo \<le> snd x \<and> snd x \<le> hi) ms)),
         zput k (filter (\<lambda>x. \<not> (lo \<le> snd x \<and> snd x \<le> hi)) ms, t) z))"
| "zcmd_run now (ZCOUNT k lo hi) z =
     (int (length (filter (\<lambda>x. lo \<le> snd x \<and> snd x \<le> hi) (fst (zlive now k z)))), z)"
| "zcmd_run now (PEXPIRE k ms) z =
     (case zlive now k z of (xs, t) \<Rightarrow> if xs = [] then (0, z) else (1, z(k := (xs, Some (now + ms)))))"

fun zcmds_run :: "int \<Rightarrow> zcmd list \<Rightarrow> zsets \<Rightarrow> int list \<times> zsets" where
  "zcmds_run now [] z = ([], z)"
| "zcmds_run now (c # cs) z =
     (case zcmd_run now c z of (n, z1) \<Rightarrow> case zcmds_run now cs z1 of (ns, z2) \<Rightarrow> (n # ns, z2))"

text \<open>A transaction that answers has run all its commands, at the time \<open>fa_now_ms\<close>.\<close>

definition pipeline_doc :: "'r fraud_api \<Rightarrow> ('r \<Rightarrow> zsets) \<Rightarrow> bool" where
  "pipeline_doc a zof \<longleftrightarrow>
     (\<forall>cmds r ns r'. fa_exec a cmds r = (Inr ns, r') \<longrightarrow> (ns, zof r') = zcmds_run (fa_now_ms a) cmds (zof r))"

text \<open>The members in the window after a transfer at the time \<open>at\<close>.\<close>

definition window :: "string \<Rightarrow> int \<Rightarrow> (string \<times> int) list \<Rightarrow> (string \<times> int) list" where
  "window m at ms = filter (\<lambda>x. \<not> (0 \<le> snd x \<and> snd x \<le> at - WINDOW_MS)) ((m, at) # filter (\<lambda>x. fst x \<noteq> m) ms)"

lemma velocity_cmds_run:
  assumes "zlive now k z = (ms, t)"
  shows "\<exists>n1 n2 n4. zcmds_run now (velocity_cmds k m at) z =
    ([n1, n2, int (length (filter (\<lambda>x. at - WINDOW_MS \<le> snd x \<and> snd x \<le> at) (window m at ms))), n4],
     z(k := (window m at ms, Some (now + WINDOW_MS * 2))))"
proof -
  let ?x = "(m, at) # filter (\<lambda>x. fst x \<noteq> m) ms"
  have live: "t = None \<or> (\<exists>t'. t = Some t' \<and> now < t')"
    using assms by (auto simp: zlive_def split: prod.splits option.splits if_splits)
  have z1: "zlive now k (z(k := (y, t))) = (y, t)" for y using live by (auto simp: zlive_def)
  have ne: "window m at ms \<noteq> []" by (simp add: window_def WINDOW_MS_def)
  have one: "zcmd_run now (ZADD k m at) z = (if m \<in> fst ` set ms then 0 else 1, z(k := (?x, t)))"
    using assms by (simp add: zput_def)
  have two: "\<exists>n. zcmd_run now (ZREMRANGEBYSCORE k 0 (at - WINDOW_MS)) (z(k := (?x, t))) =
      (n, z(k := (window m at ms, t)))"
    using ne by (simp add: z1 zput_def window_def)
  have three: "zcmd_run now (ZCOUNT k (at - WINDOW_MS) at) (z(k := (window m at ms, t))) =
      (int (length (filter (\<lambda>x. at - WINDOW_MS \<le> snd x \<and> snd x \<le> at) (window m at ms))), z(k := (window m at ms, t)))"
    by (simp add: z1)
  have four: "zcmd_run now (PEXPIRE k (WINDOW_MS * 2)) (z(k := (window m at ms, t))) =
      (1, z(k := (window m at ms, Some (now + WINDOW_MS * 2))))"
    using ne by (simp add: z1)
  from two obtain n2 where n2: "zcmd_run now (ZREMRANGEBYSCORE k 0 (at - WINDOW_MS)) (z(k := (?x, t))) =
      (n2, z(k := (window m at ms, t)))" by blast
  show ?thesis unfolding velocity_cmds_def zcmds_run.simps one n2 three four prod.case by blast
qed

text \<open>A transfer as the rule sees it: its event id and its time.  And the rule run on a history.\<close>

definition as_seen :: "'r fraud_api \<times> json \<Rightarrow> string \<times> int" where
  "as_seen x = (py_str (snd x) ''eventId'', event_time_ms (fst x) (snd x))"

definition velocity_run :: "('r fraud_api \<times> json) list \<Rightarrow> 'r \<Rightarrow> 'r" where
  "velocity_run hist r = fold (\<lambda>(a, e) r. snd (velocity a e r)) hist r"

text \<open>
  A history of one wallet that the rule counts exactly: Redis works and answers, the transfers
  arrive in the order of their times, a redelivered event has its time, and no two consecutive
  ones are handled two minutes apart.
\<close>

definition in_order :: "string \<times> int \<Rightarrow> string \<times> int \<Rightarrow> bool" where
  "in_order x y \<longleftrightarrow> snd x \<le> snd y \<and> (fst x = fst y \<longrightarrow> snd x = snd y)"

definition steady :: "('r \<Rightarrow> zsets) \<Rightarrow> string \<Rightarrow> ('r fraud_api \<times> json) list \<Rightarrow> bool" where
  "steady zof k hist \<longleftrightarrow>
     (\<forall>(a, e)\<in>set hist. pipeline_doc a zof \<and> velocity_key e = k \<and> 0 \<le> event_time_ms a e \<and>
        (\<forall>cmds r. \<not> isl (fst (fa_exec a cmds r)))) \<and>
     sorted_wrt in_order (map as_seen hist) \<and>
     successively (\<lambda>x y. fa_now_ms (fst y) < fa_now_ms (fst x) + WINDOW_MS * 2) hist"

definition last_minute :: "('r fraud_api \<times> json) list \<Rightarrow> (string \<times> int) set" where
  "last_minute hist = {x \<in> set (map as_seen hist). snd (as_seen (last hist)) - WINDOW_MS < snd x}"

text \<open>What the key holds after such a history.\<close>

definition holds :: "('r fraud_api \<times> json) list \<Rightarrow> (string \<times> int) list \<times> int option \<Rightarrow> bool" where
  "holds hist x \<longleftrightarrow>
     (if hist = [] then x = ([], None)
      else distinct (map fst (fst x)) \<and> set (fst x) = last_minute hist \<and>
        snd x = Some (fa_now_ms (fst (last hist)) + WINDOW_MS * 2))"

lemma velocity_step:
  assumes doc: "pipeline_doc a zof" and ok: "\<And>cmds r. \<not> isl (fst (fa_exec a cmds r))"
    and live: "zlive (fa_now_ms a) (velocity_key e) (zof r) = (ms, t)"
  shows "velocity a e r = (Inr (velocity_alert a (int (length (filter
      (\<lambda>x. event_time_ms a e - WINDOW_MS \<le> snd x \<and> snd x \<le> event_time_ms a e)
      (window (py_str e ''eventId'') (event_time_ms a e) ms))))), snd (velocity a e r))"
    and "zof (snd (velocity a e r)) (velocity_key e) =
      (window (py_str e ''eventId'') (event_time_ms a e) ms, Some (fa_now_ms a + WINDOW_MS * 2))"
proof -
  let ?c = "velocity_cmds (velocity_key e) (py_str e ''eventId'') (event_time_ms a e)"
  obtain ns r' where ex: "fa_exec a ?c r = (Inr ns, r')" using ok [of ?c r] by (metis prod.collapse sum.collapse(2))
  have z: "(ns, zof r') = zcmds_run (fa_now_ms a) ?c (zof r)" using doc ex by (simp add: pipeline_doc_def)
  obtain n1 n2 n4 where run: "zcmds_run (fa_now_ms a) ?c (zof r) =
    ([n1, n2, int (length (filter (\<lambda>x. event_time_ms a e - WINDOW_MS \<le> snd x \<and> snd x \<le> event_time_ms a e)
        (window (py_str e ''eventId'') (event_time_ms a e) ms))), n4],
     (zof r)(velocity_key e := (window (py_str e ''eventId'') (event_time_ms a e) ms, Some (fa_now_ms a + WINDOW_MS * 2))))"
    using velocity_cmds_run [OF live, of "py_str e ''eventId''" "event_time_ms a e"] by blast
  from z run ex show "velocity a e r = (Inr (velocity_alert a (int (length (filter
      (\<lambda>x. event_time_ms a e - WINDOW_MS \<le> snd x \<and> snd x \<le> event_time_ms a e)
      (window (py_str e ''eventId'') (event_time_ms a e) ms))))), snd (velocity a e r))"
    by (simp add: velocity_def)
  from z run ex show "zof (snd (velocity a e r)) (velocity_key e) =
      (window (py_str e ''eventId'') (event_time_ms a e) ms, Some (fa_now_ms a + WINDOW_MS * 2))"
    by (simp add: velocity_def)
qed

text \<open>The window of the next transfer holds the transfers of its last minute.\<close>

lemma window_set:
  assumes le: "\<forall>y\<in>S. snd y \<le> t \<and> (fst y = m \<longrightarrow> snd y = t)" and pos: "\<forall>y\<in>S. 0 \<le> snd y" "0 \<le> t"
    and sub: "set ms \<subseteq> S" and all: "\<forall>y\<in>S. t - WINDOW_MS < snd y \<longrightarrow> y \<in> set ms"
  shows "set (window m t ms) = {x \<in> insert (m, t) S. t - WINDOW_MS < snd x}"
proof (rule set_eqI)
  fix x
  show "x \<in> set (window m t ms) \<longleftrightarrow> x \<in> {x \<in> insert (m, t) S. t - WINDOW_MS < snd x}"
  proof (cases "x = (m, t)")
    case True
    then show ?thesis by (simp add: window_def WINDOW_MS_def)
  next
    case False
    have "fst x \<noteq> m \<and> 0 \<le> snd x" if "x \<in> S" using that le pos False by (metis prod.collapse)
    with False sub all show ?thesis by (auto simp: window_def)
  qed
qed

lemma window_last_minute:
  assumes st: "steady zof k (hist @ [(a, e)])"
    and ms: "distinct (map fst ms)" "hist \<noteq> [] \<Longrightarrow> set ms = last_minute hist" "hist = [] \<Longrightarrow> ms = []"
  shows "distinct (map fst (window (py_str e ''eventId'') (event_time_ms a e) ms)) \<and>
    set (window (py_str e ''eventId'') (event_time_ms a e) ms) = last_minute (hist @ [(a, e)])"
proof -
  let ?m = "py_str e ''eventId''" and ?t = "event_time_ms a e"
  have le: "\<forall>x\<in>set hist. snd (as_seen x) \<le> ?t \<and> (fst (as_seen x) = ?m \<longrightarrow> snd (as_seen x) = ?t)"
    using st by (auto simp: steady_def sorted_wrt_append in_order_def as_seen_def)
  have pos: "\<forall>x\<in>set hist. 0 \<le> snd (as_seen x)" "0 \<le> ?t"
    using st by (auto simp: steady_def as_seen_def)
  have old: "set ms \<subseteq> as_seen ` set hist"
    "\<And>x. x \<in> as_seen ` set hist \<Longrightarrow> ?t - WINDOW_MS < snd x \<Longrightarrow> x \<in> set ms"
  proof -
    show "set ms \<subseteq> as_seen ` set hist" using ms(2,3) by (cases "hist = []") (auto simp: last_minute_def)
    show "x \<in> set ms" if x: "x \<in> as_seen ` set hist" "?t - WINDOW_MS < snd x" for x
    proof -
      from x(1) have ne: "hist \<noteq> []" by auto
      then have "snd (as_seen (last hist)) \<le> ?t" using le last_in_set by blast
      with x ms(2) [OF ne] show ?thesis by (auto simp: last_minute_def)
    qed
  qed
  have "set (window ?m ?t ms) = {x \<in> insert (?m, ?t) (as_seen ` set hist). ?t - WINDOW_MS < snd x}"
    by (rule window_set) (use le pos old in auto)
  then have "set (window ?m ?t ms) = last_minute (hist @ [(a, e)])" by (auto simp: last_minute_def as_seen_def)
  moreover have "distinct (map fst (window ?m ?t ms))"
    using ms(1) by (auto simp: window_def distinct_map_filter intro: distinct_map_filter)
  ultimately show ?thesis by blast
qed

lemma steady_snoc:
  assumes "steady zof k (hist @ [(a, e)])"
  shows "steady zof k hist" and "pipeline_doc a zof" and "velocity_key e = k"
    and "\<And>cmds r. \<not> isl (fst (fa_exec a cmds r))"
    and "hist \<noteq> [] \<Longrightarrow> fa_now_ms a < fa_now_ms (fst (last hist)) + WINDOW_MS * 2"
  using assms by (auto simp: steady_def sorted_wrt_append successively_append_iff)

lemma holds_live:
  assumes "steady zof k (hist @ [(a, e)])" and "holds hist (zof r k)"
  shows "zlive (fa_now_ms a) k (zof r) = zof r k"
  using assms(2) steady_snoc(5) [OF assms(1)]
  by (cases "zof r k") (auto simp: zlive_def holds_def split: if_splits option.splits)

lemma steady_window:
  assumes st: "steady zof k (hist @ [(a, e)])" and h: "holds hist (zof r k)"
  shows "distinct (map fst (window (py_str e ''eventId'') (event_time_ms a e) (fst (zof r k)))) \<and>
    set (window (py_str e ''eventId'') (event_time_ms a e) (fst (zof r k))) = last_minute (hist @ [(a, e)])"
  by (rule window_last_minute [OF st]) (use h in \<open>auto simp: holds_def split: if_splits\<close>)

lemma steady_holds:
  assumes "steady zof k hist" and "zof r0 k = ([], None)"
  shows "holds hist (zof (velocity_run hist r0) k)"
  using assms(1)
proof (induction hist rule: rev_induct)
  case Nil
  with assms(2) show ?case by (simp add: holds_def velocity_run_def)
next
  case (snoc x hist)
  obtain a e where x: "x = (a, e)" by fastforce
  note st = snoc.prems [unfolded x]
  let ?r = "velocity_run hist r0"
  have h: "holds hist (zof ?r k)" by (rule snoc.IH [OF steady_snoc(1) [OF st]])
  obtain ms t where z: "zof ?r k = (ms, t)" by fastforce
  have live: "zlive (fa_now_ms a) (velocity_key e) (zof ?r) = (ms, t)"
    using holds_live [OF st h] z steady_snoc(3) [OF st] by simp
  note next_z = velocity_step(2) [OF steady_snoc(2) [OF st] steady_snoc(4) [OF st] live]
  have "velocity_run (hist @ [(a, e)]) r0 = snd (velocity a e ?r)" by (simp add: velocity_run_def)
  with next_z steady_snoc(3) [OF st] steady_window [OF st h] z show ?case by (simp add: holds_def x)
qed


section \<open>A Redis and a worker for the witnesses\<close>

text \<open>Its state: the sorted sets and the keys of \<open>SET\<close>.  Times are given as decimal texts.\<close>

definition toy_fraud :: "int \<Rightarrow> int \<Rightarrow> int \<Rightarrow> (zsets \<times> string list) fraud_api" where
  "toy_fraud max_amount per_minute now =
     \<lparr>fa_exec = (\<lambda>cmds (z, ks). case zcmds_run now cmds z of (ns, z') \<Rightarrow> (Inr ns, z', ks)),
      fa_exists = (\<lambda>k (z, ks). (Inr (k \<in> set ks), z, ks)),
      fa_set_ex = (\<lambda>k n (z, ks). (None, z, k # ks)),
      fa_send = (\<lambda>m. (None, True)), fa_send_dlq = (\<lambda>topic v. None),
      fa_now_ms = now, fa_now_iso = ''2026-01-01T00:00:00+00:00'', fa_fromisoformat_ms = strconv_Atoi,
      fa_MAX_AMOUNT = max_amount, fa_MAX_PER_MINUTE = per_minute\<rparr>"

definition toy_transfer :: "string \<Rightarrow> string \<Rightarrow> int \<Rightarrow> json" where
  "toy_transfer i time amt = JObj
     [(''eventId'', JStr i), (''transactionId'', JStr i), (''fromWalletId'', JStr ''a1''), (''fromUserId'', JStr ''aa''),
      (''occurredAt'', JStr time), (''amountCents'', JNum amt)]"

definition no_zsets :: zsets where "no_zsets = (\<lambda>_. ([], None))"

lemma toy_fraud_docs: "alert_doc (toy_fraud x n now) (\<lambda>k r. k \<in> set (snd r))" "pipeline_doc (toy_fraud x n now) fst"
  by (auto simp: alert_doc_def pipeline_doc_def toy_fraud_def split: prod.splits)

lemma toy_facts:
  "event_time_ms (toy_fraud x n now) (toy_transfer i s amt) = (case strconv_Atoi s of Some ms \<Rightarrow> ms | None \<Rightarrow> now)"
  "py_str (toy_transfer i s amt) ''eventId'' = i" "fa_now_ms (toy_fraud x n now) = now"
  "\<not> isl (fst (fa_exec (toy_fraud x n now) cmds r))"
  "velocity_key (toy_transfer i s amt) = ''fraud:velocity:a1''"
  by (simp_all add: event_time_ms_def toy_fraud_def toy_transfer_def py_str_def velocity_key_def
      split: prod.split option.split)

theorem large_transfer_alerted_witness:
  "sent_alert ''t1:LARGE_AMOUNT'' (snd (handle (toy_fraud 1000 5 7) (JsonValue (toy_transfer ''t1'' ''5'' 2500))
     (fraud_deliveries [] (new_worker (no_zsets, [])))))"
proof -
  let ?a = "toy_fraud 1000 5 7" and ?e = "toy_transfer ''t1'' ''5'' 2500"
  have p: "fraud_parse (JsonValue ?e) = Inr ?e" by code_simp
  have big: "fa_MAX_AMOUNT ?a < py_int ?e ''amountCents''" by code_simp
  have "fst (handle ?a (JsonValue ?e) (fraud_deliveries [] (new_worker (no_zsets, [])))) = Inr ''flagged''"
    by code_simp
  then have run: "handle ?a (JsonValue ?e) (fraud_deliveries [] (new_worker (no_zsets, []))) =
      (Inr ''flagged'', snd (handle ?a (JsonValue ?e) (fraud_deliveries [] (new_worker (no_zsets, [])))))"
    by (metis prod.collapse)
  have id: "py_str ?e ''eventId'' = ''t1''" by (simp add: py_str_def toy_transfer_def)
  from large_transfer_alerted [of "[]", OF _ toy_fraud_docs(1) _ p big run] id show ?thesis by simp
qed



section \<open>What the velocity rule forgets\<close>

text \<open>
  C26: The rule does not measure the real rate of a consumer that catches up after an outage.  The
  key of a wallet expires two minutes after it was last written, by the clock of Redis and not by
  the times of the transfers: the first transfer handled after a pause of two minutes is counted
  as the only one, however many transfers of the wallet happened in the minute before it.
\<close>

theorem velocity_forgets_after_pause:
  assumes "steady zof k hist" and "hist \<noteq> []" and "zof r0 k = ([], None)"
    and "pipeline_doc a zof" and "velocity_key e = k" and "0 \<le> event_time_ms a e"
    and "\<And>cmds r. \<not> isl (fst (fa_exec a cmds r))"
    and "fa_now_ms (fst (last hist)) + WINDOW_MS * 2 \<le> fa_now_ms a"
  shows "fst (velocity a e (velocity_run hist r0)) = Inr (velocity_alert a 1)"
proof -
  let ?r = "velocity_run hist r0"
  have "holds hist (zof ?r k)" by (rule steady_holds [OF assms(1,3)])
  with assms(2,5,8) have live: "zlive (fa_now_ms a) (velocity_key e) (zof ?r) = ([], None)"
    by (cases "zof ?r k") (auto simp: zlive_def holds_def)
  show ?thesis using arg_cong [OF velocity_step(1) [OF assms(4,7) live], of fst] assms(6)
    by (simp add: window_def WINDOW_MS_def)
qed

definition toy_burst :: "((zsets \<times> string list) fraud_api \<times> json) list" where
  "toy_burst = [(toy_fraud 1000 2 100000, toy_transfer ''t1'' ''1000'' 5),
     (toy_fraud 1000 2 100001, toy_transfer ''t2'' ''2000'' 5), (toy_fraud 1000 2 100002, toy_transfer ''t3'' ''3000'' 5)]"

lemma toy_times:
  "strconv_Atoi ''1000'' = Some 1000" "strconv_Atoi ''2000'' = Some 2000" "strconv_Atoi ''3000'' = Some 3000"
  "strconv_Atoi ''4000'' = Some 4000"
  by code_simp+

theorem velocity_forgets_after_pause_witness:
  "fst (velocity (toy_fraud 1000 2 300000) (toy_transfer ''t4'' ''4000'' 5) (velocity_run toy_burst (no_zsets, []))) =
     Inr (velocity_alert (toy_fraud 1000 2 300000) 1) \<and>
   card (fst ` last_minute (toy_burst @ [(toy_fraud 1000 2 300000, toy_transfer ''t4'' ''4000'' 5)])) = 4"
proof
  show "fst (velocity (toy_fraud 1000 2 300000) (toy_transfer ''t4'' ''4000'' 5) (velocity_run toy_burst (no_zsets, []))) =
     Inr (velocity_alert (toy_fraud 1000 2 300000) 1)"
    by (rule velocity_forgets_after_pause [where zof = fst and k = "''fraud:velocity:a1''"])
      (simp_all add: steady_def toy_burst_def as_seen_def in_order_def toy_facts toy_times toy_fraud_docs
        WINDOW_MS_def no_zsets_def)
  have "fst ` last_minute (toy_burst @ [(toy_fraud 1000 2 300000, toy_transfer ''t4'' ''4000'' 5)]) =
      {''t1'', ''t2'', ''t3'', ''t4''}"
    by (auto simp: last_minute_def toy_burst_def as_seen_def toy_facts toy_times WINDOW_MS_def image_iff)
  then show "card (fst ` last_minute (toy_burst @ [(toy_fraud 1000 2 300000, toy_transfer ''t4'' ''4000'' 5)])) = 4"
    by simp
qed

section \<open>Retries and the end of the worker\<close>

text \<open>
  C27: A failed dead-letter send ends the consumer for good, unnoticed.  When a bad message meets an
  error of the dead-letter producer, the exception leaves the retry loop and the task of the
  worker: no later message is handled or committed, and \<open>/readyz\<close> goes on answering 200.
\<close>

theorem dlq_failure_stops_worker:
  assumes "fraud_parse (dv_value d) = Inl (InvalidMsg reason)" and "dv_attempts d = (a, stopping) # later"
    and "fa_send_dlq a (dv_topic d @ ''.dlq'') (dv_value d) = Some e" and "fw_started s"
  shows "run_worker (d # ds) s = (TaskFailed, s) \<and> fraud_readyz False True (snd (run_worker (d # ds) s)) = (200, ''ok'')"
  using assms by (simp add: handle_def fraud_readyz_def)

definition toy_garbage :: "(zsets \<times> string list) delivery" where
  "toy_garbage = \<lparr>dv_topic = ''transfers.completed'', dv_value = NotJson,
     dv_attempts = [((toy_fraud 1000 5 7)\<lparr>fa_send_dlq := (\<lambda>topic v. Some ''broker not available'')\<rparr>, False)],
     dv_commit = None\<rparr>"

theorem dlq_failure_stops_worker_witness:
  "fst (run_worker [toy_garbage] (new_worker (no_zsets, []))) = TaskFailed"
proof -
  have d: "fraud_parse (dv_value toy_garbage) = Inl (InvalidMsg ''message is not valid JSON'')"
    "dv_attempts toy_garbage =
       [((toy_fraud 1000 5 7)\<lparr>fa_send_dlq := (\<lambda>topic v. Some ''broker not available'')\<rparr>, False)]"
    "fa_send_dlq ((toy_fraud 1000 5 7)\<lparr>fa_send_dlq := (\<lambda>topic v. Some ''broker not available'')\<rparr>)
       (dv_topic toy_garbage @ ''.dlq'') (dv_value toy_garbage) = Some ''broker not available''"
    "fw_started (new_worker (no_zsets, []))"
    by (simp_all add: toy_garbage_def new_worker_def fraud_parse_def)
  from dlq_failure_stops_worker [OF d, of "[]"] show ?thesis by (metis fst_conv)
qed

text \<open>
  The retry loop: as long as Redis or Kafka fail it sleeps for half a second, then twice as long,
  up to ten seconds, and it returns as soon as one attempt succeeds.
\<close>

lemma handle_with_retry_backoff:
  assumes "\<And>x s. x \<in> set fails \<Longrightarrow> \<not> snd x \<and> (\<exists>e. fst (handle (fst x) v s) = Inl (Failure e))"
    and "\<And>s. \<exists>l. fst (handle a v s) = Inr l" and "0 < b" and "b \<le> 10000"
  shows "fst (handle_with_retry b (fails @ (a, st) # later) topic v s) = Finished True \<and>
    fst (snd (handle_with_retry b (fails @ (a, st) # later) topic v s)) =
      map (\<lambda>i. min (b * 2 ^ i) 10000) [0..<length fails]"
  using assms
proof (induction fails arbitrary: b s)
  case Nil
  obtain l s1 where "handle a v s = (Inr l, s1)" using Nil.prems(2) [of s] by (metis prod.collapse)
  then show ?case by simp
next
  case (Cons x fails)
  obtain e s1 where h: "handle (fst x) v s = (Inl (Failure e), s1)"
    using Cons.prems(1) [of x s] by (metis list.set_intros(1) prod.collapse)
  have ns: "\<not> snd x" using Cons.prems(1) [of x s] by simp
  let ?b = "min (b * 2) 10000"
  have IH: "fst (handle_with_retry ?b (fails @ (a, st) # later) topic v s2) = Finished True \<and>
      fst (snd (handle_with_retry ?b (fails @ (a, st) # later) topic v s2)) =
        map (\<lambda>i. min (?b * 2 ^ i) 10000) [0..<length fails]" for s2
    by (rule Cons.IH) (use Cons.prems in auto)
  have pow: "min (?b * 2 ^ i) 10000 = min (b * 2 ^ Suc i) 10000" for i
  proof (cases "b * 2 \<le> 10000")
    case False
    have "(1::int) \<le> 2 ^ i" by simp
    then have "10000 * 1 \<le> 10000 * (2::int) ^ i" "10000 * 1 \<le> (b * 2) * 2 ^ i"
      using False by (intro mult_mono; simp)+
    with False show ?thesis by (simp add: mult.assoc)
  qed (simp add: mult.assoc)
  have "[0..<length (x # fails)] = 0 # map Suc [0..<length fails]"
    by (simp add: map_Suc_upt upt_conv_Cons del: upt_Suc)
  then show ?case using IH [of "count_label ''retry'' s1"] h ns pow Cons.prems(4)
    by (cases x) (auto simp: Let_def split_beta)
qed

end
