(* ===== verification/Notification.thy ===== *)
theory Notification
  imports EventFields GoText
begin

text \<open>
  The notification service (\<open>services/notification/src/index.js\<close>, JavaScript): the messages an
  event becomes, the Kafka handler with its deduplication in Redis, and the WebSocket side, which
  pushes what arrives on the Redis channel to the users connected to a pod.

  Parameters: the Redis commands, the webhook and the dead-letter producer are fields of
  \<open>notif_api\<close>; \<open>js_frac\<close> is the number a JSON text with a fraction or an exponent denotes, and
  \<open>num_text\<close> the text of a number in a template string; \<open>jwt_sub\<close> is \<open>jwt.verify(...).sub\<close>.
\<close>

section \<open>JSON numbers in JavaScript\<close>

text \<open>An integer becomes the nearest double: 53 bits, ties to even.\<close>

fun bit_len :: "nat \<Rightarrow> nat" where
  "bit_len n = (if n = 0 then 0 else Suc (bit_len (n div 2)))"

declare bit_len.simps [simp del]

definition round_half_even :: "int \<Rightarrow> int \<Rightarrow> int" where
  "round_half_even a b =
     (let q = a div b; r = a mod b in if 2 * r < b \<or> (2 * r = b \<and> even q) then q else q + 1)"

definition round53 :: "int \<Rightarrow> int" where
  "round53 n =
     (let e = bit_len (nat \<bar>n\<bar>) - 53; m = round_half_even \<bar>n\<bar> (2 ^ e) * 2 ^ e in if n < 0 then - m else m)"

definition js_int :: "int \<Rightarrow> json" where
  "js_int n =
     (let m = round53 n in
      if 2 ^ 1024 \<le> \<bar>m\<bar> then JFrac (if n < 0 then ''-Infinity'' else ''Infinity'') else JNum m)"

text \<open>\<open>JSON.parse\<close>; and \<open>JSON.stringify\<close>, as the JSON value that its text denotes.\<close>

fun js_parse :: "(string \<Rightarrow> json) \<Rightarrow> json \<Rightarrow> json" where
  "js_parse js_frac (JNum n) = js_int n"
| "js_parse js_frac (JFrac s) = js_frac s"
| "js_parse js_frac (JArr vs) = JArr (map (js_parse js_frac) vs)"
| "js_parse js_frac (JObj kvs) = JObj (map (\<lambda>(k, v). (k, js_parse js_frac v)) kvs)"
| "js_parse js_frac v = v"

fun js_stringify :: "json \<Rightarrow> json" where
  "js_stringify (JFrac s) = (if s = ''Infinity'' \<or> s = ''-Infinity'' then JNull else JFrac s)"
| "js_stringify (JArr vs) = JArr (map js_stringify vs)"
| "js_stringify (JObj kvs) = JObj (map (\<lambda>(k, v). (k, js_stringify v)) kvs)"
| "js_stringify v = v"

text \<open>\<open>${v}\<close>.\<close>

definition join_commas :: "string list \<Rightarrow> string" where
  "join_commas ss = concat (case ss of [] \<Rightarrow> [] | s # rest \<Rightarrow> s # map ((@) '','') rest)"

fun js_String :: "(json \<Rightarrow> string) \<Rightarrow> json \<Rightarrow> string" where
  "js_String num_text JNull = ''null''"
| "js_String num_text (JBool b) = (if b then ''true'' else ''false'')"
| "js_String num_text (JStr s) = s"
| "js_String num_text (JArr vs) =
     join_commas (map (\<lambda>v. if v = JNull then [] else js_String num_text v) vs)"
| "js_String num_text (JObj kvs) = ''[object Object]''"
| "js_String num_text v = num_text v"

section \<open>The messages of an event\<close>

datatype notif_error = InvalidEvent string | SyntaxError | OtherFailure string

text \<open>The first of the fields that is \<open>undefined\<close>, \<open>null\<close> or the empty string.\<close>

definition need :: "json \<Rightarrow> string list \<Rightarrow> notif_error option" where
  "need e fs =
     map_option (\<lambda>f. InvalidEvent (''event is missing field '' @ [CHR 0x22] @ f @ [CHR 0x22]))
       (find (\<lambda>f. json_get e f \<in> {None, Some JNull, Some (JStr [])}) fs)"

text \<open>An object literal with fields of \<open>e\<close>: \<open>JSON.stringify\<close> leaves out those that are \<open>undefined\<close>.\<close>

definition picked :: "json \<Rightarrow> string list \<Rightarrow> (string \<times> json) list" where
  "picked e fs = List.map_filter (\<lambda>f. map_option (Pair f) (json_get e f)) fs"

definition push :: "json \<Rightarrow> string \<Rightarrow> string \<Rightarrow> string list \<Rightarrow> json" where
  "push e userField typ fs =
     JObj (map (\<lambda>(f, v). (''userId'', v)) (picked e [userField]) @
       [(''message'', JObj ((''type'', JStr typ) # picked e fs))])"

definition messagesFor :: "string \<Rightarrow> json \<Rightarrow> notif_error + json list" where
  "messagesFor topic e =
     (if topic = ''transfers.completed'' then
        (case need e [''eventId'', ''transactionId'', ''fromUserId'', ''toUserId'', ''amountCents''] of
           Some err \<Rightarrow> Inl err
         | None \<Rightarrow> Inr [push e ''fromUserId'' ''transfer.sent'' [''transactionId'', ''amountCents'', ''toWalletId''],
                       push e ''toUserId'' ''transfer.received'' [''transactionId'', ''amountCents'', ''fromWalletId'']])
      else if topic = ''wallet.deposited'' then
        (case need e [''eventId'', ''transactionId'', ''userId'', ''amountCents''] of
           Some err \<Rightarrow> Inl err
         | None \<Rightarrow> Inr [push e ''userId'' ''deposit.completed'' [''transactionId'', ''amountCents'']])
      else if topic = ''fraud.alerts'' then
        (case need e [''eventId'', ''transactionId'', ''fromUserId'', ''rule''] of
           Some err \<Rightarrow> Inl err
         | None \<Rightarrow> Inr [push e ''fromUserId'' ''security.alert'' [''transactionId'', ''rule'']])
      else Inl (InvalidEvent (''unexpected topic '' @ topic)))"

section \<open>The Kafka handler\<close>

text \<open>
  \<open>na_set_nx key\<close> is \<open>SET key '1' EX 3600 NX\<close> (whether the key was set), \<open>na_publish\<close> is
  \<open>PUBLISH notifications\<close>, \<open>na_fetch\<close> is the POST to the webhook (whether \<open>res.ok\<close>), \<open>na_dlq\<close> the
  error of the dead-letter producer.
\<close>

record 'r notif_api =
  na_set_nx :: "string \<Rightarrow> 'r \<Rightarrow> (string + bool) \<times> 'r"
  na_publish :: "json \<Rightarrow> 'r \<Rightarrow> string option \<times> 'r"
  na_WEBHOOK_URL :: string
  na_fetch :: "json \<Rightarrow> string + bool"
  na_dlq :: "string option"
  na_js_frac :: "string \<Rightarrow> json"
  na_num_text :: "json \<Rightarrow> string"

record 'r notifier =
  nt_redis :: 'r
  nt_events :: "string \<times> string \<Rightarrow> nat"
  nt_webhooks :: "string \<Rightarrow> nat"
  nt_dlq :: "(string \<times> raw \<times> notif_error) list"

definition bump_count :: "'k \<Rightarrow> ('k \<Rightarrow> nat) \<Rightarrow> 'k \<Rightarrow> nat" where
  "bump_count k c = c(k := c k + 1)"

definition callWebhook :: "'r notif_api \<Rightarrow> string \<Rightarrow> json \<Rightarrow> 'r notifier \<Rightarrow> 'r notifier" where
  "callWebhook a topic event s =
     (if na_WEBHOOK_URL a = [] then s
      else
        let result = (case na_fetch a (js_stringify (JObj [(''topic'', JStr topic), (''event'', event)])) of
                        Inl err \<Rightarrow> ''error''
                      | Inr True \<Rightarrow> ''ok''
                      | Inr False \<Rightarrow> ''http_error'')
        in s\<lparr>nt_webhooks := bump_count result (nt_webhooks s)\<rparr>)"

fun publish_all :: "'r notif_api \<Rightarrow> json list \<Rightarrow> 'r \<Rightarrow> string option \<times> 'r" where
  "publish_all a [] r = (None, r)"
| "publish_all a (m # ms) r =
     (case na_publish a (js_stringify m) r of
        (Some err, r') \<Rightarrow> (Some err, r')
      | (None, r') \<Rightarrow> publish_all a ms r')"

definition parse_message :: "'r notif_api \<Rightarrow> string \<Rightarrow> raw \<Rightarrow> notif_error + json \<times> json list" where
  "parse_message a topic value =
     (case value of
        NoValue \<Rightarrow> Inl (OtherFailure ''Cannot read properties of null'')
      | NotJson \<Rightarrow> Inl SyntaxError
      | JsonValue v \<Rightarrow>
          let event = js_parse (na_js_frac a) v in
          (case event of
             JObj kvs \<Rightarrow> and_do (messagesFor topic event) (\<lambda>out. Inr (event, out))
           | JArr vs \<Rightarrow> and_do (messagesFor topic event) (\<lambda>out. Inr (event, out))
           | _ \<Rightarrow> Inl (InvalidEvent ''message is not a JSON object'')))"

definition seen_key :: "'r notif_api \<Rightarrow> json \<Rightarrow> string" where
  "seen_key a event =
     ''notif:seen:'' @ (case json_get event ''eventId'' of None \<Rightarrow> ''undefined'' | Some v \<Rightarrow> js_String (na_num_text a) v)"

text \<open>The \<open>try\<close> block.\<close>

definition try_handle :: "'r notif_api \<Rightarrow> string \<Rightarrow> raw \<Rightarrow> 'r notifier \<Rightarrow> notif_error option \<times> 'r notifier" where
  "try_handle a topic value s =
     (case parse_message a topic value of
        Inl err \<Rightarrow> (Some err, s)
      | Inr (event, out) \<Rightarrow>
          (case na_set_nx a (seen_key a event) (nt_redis s) of
             (Inl err, r1) \<Rightarrow> (Some (OtherFailure err), s\<lparr>nt_redis := r1\<rparr>)
           | (Inr False, r1) \<Rightarrow>
               (None, s\<lparr>nt_redis := r1, nt_events := bump_count (topic, ''duplicate'') (nt_events s)\<rparr>)
           | (Inr True, r1) \<Rightarrow>
               (case publish_all a out r1 of
                  (Some err, r2) \<Rightarrow> (Some (OtherFailure err), s\<lparr>nt_redis := r2\<rparr>)
                | (None, r2) \<Rightarrow>
                    let s1 = callWebhook a topic event (s\<lparr>nt_redis := r2\<rparr>)
                    in (None, s1\<lparr>nt_events := bump_count (topic, ''sent'') (nt_events s1)\<rparr>))))"

text \<open>\<open>handle\<close> returns, and the offset is committed, or throws, and kafkajs delivers the message again.\<close>

datatype handled = Returns | Throws

definition notify :: "'r notif_api \<Rightarrow> string \<Rightarrow> raw \<Rightarrow> 'r notifier \<Rightarrow> handled \<times> 'r notifier" where
  "notify a topic value s =
     (case try_handle a topic value s of
        (None, s1) \<Rightarrow> (Returns, s1)
      | (Some (OtherFailure err), s1) \<Rightarrow> (Throws, s1\<lparr>nt_events := bump_count (topic, ''retry'') (nt_events s1)\<rparr>)
      | (Some err, s1) \<Rightarrow>
          let s2 = s1\<lparr>nt_events := bump_count (topic, ''dlq'') (nt_events s1)\<rparr> in
          (case na_dlq a of
             Some e \<Rightarrow> (Throws, s2)
           | None \<Rightarrow> (Returns, s2\<lparr>nt_dlq := nt_dlq s2 @ [(topic @ ''.dlq'', value, err)]\<rparr>)))"

section \<open>WebSockets of one pod\<close>

text \<open>
  A socket is a number.  \<open>pd_user\<close> is the user id captured by the callbacks of a socket,
  \<open>pd_terminated\<close> are the sockets the heartbeat dropped, \<open>pd_sent\<close> the frames given to \<open>ws.send\<close>.
\<close>

record pod =
  pd_sockets :: "string option \<rightharpoonup> nat list"
  pd_clients :: "nat list"
  pd_user :: "nat \<Rightarrow> string option"
  pd_isAlive :: "nat \<Rightarrow> bool"
  pd_connections :: int
  pd_pushed :: nat
  pd_sent :: "(nat \<times> json) list"
  pd_terminated :: "nat list"

datatype upgrade_result = Destroyed | Unauthorized | Connected

definition sockets_of :: "string option \<Rightarrow> pod \<Rightarrow> nat list" where
  "sockets_of u s = (case pd_sockets s u of None \<Rightarrow> [] | Some ws \<Rightarrow> ws)"

definition on_upgrade ::
    "(string \<Rightarrow> string option option) \<Rightarrow> string \<Rightarrow> string \<Rightarrow> nat \<Rightarrow> pod \<Rightarrow> upgrade_result \<times> pod" where
  "on_upgrade jwt_sub pathname token ws s =
     (if pathname \<noteq> ''/ws'' then (Destroyed, s)
      else
        (case jwt_sub token of
           None \<Rightarrow> (Unauthorized, s)
         | Some userId \<Rightarrow>
             (Connected,
              s\<lparr>pd_isAlive := (pd_isAlive s)(ws := True),
                pd_clients := pd_clients s @ [ws],
                pd_user := (pd_user s)(ws := userId),
                pd_sockets := (pd_sockets s)(userId \<mapsto> sockets_of userId s @ [ws]),
                pd_connections := pd_connections s + 1,
                pd_sent := pd_sent s @ [(ws, JObj [(''type'', JStr ''connected'')])]\<rparr>)))"

definition on_pong :: "nat \<Rightarrow> pod \<Rightarrow> pod" where
  "on_pong ws s = s\<lparr>pd_isAlive := (pd_isAlive s)(ws := True)\<rparr>"

definition on_close :: "nat \<Rightarrow> pod \<Rightarrow> pod" where
  "on_close ws s =
     (let userId = pd_user s ws;
          rest = removeAll ws (sockets_of userId s)
      in s\<lparr>pd_sockets := (pd_sockets s)(userId := (if rest = [] then None else Some rest)),
           pd_clients := removeAll ws (pd_clients s),
           pd_connections := pd_connections s - 1\<rparr>)"

fun heartbeat :: "nat list \<Rightarrow> pod \<Rightarrow> pod" where
  "heartbeat [] s = s"
| "heartbeat (ws # rest) s =
     heartbeat rest
       (if \<not> pd_isAlive s ws then s\<lparr>pd_terminated := pd_terminated s @ [ws]\<rparr>
        else s\<lparr>pd_isAlive := (pd_isAlive s)(ws := False)\<rparr>)"

text \<open>What arrives on the channel: only a string can equal a user id of a token.\<close>

definition on_message :: "json \<Rightarrow> pod \<Rightarrow> pod" where
  "on_message raw s =
     (let userId = json_get raw ''userId'';
          message = (case json_get raw ''message'' of None \<Rightarrow> JNull | Some m \<Rightarrow> m);
          targets = (case userId of
                       None \<Rightarrow> sockets_of None s
                     | Some (JStr u) \<Rightarrow> sockets_of (Some u) s
                     | _ \<Rightarrow> [])
      in s\<lparr>pd_sent := pd_sent s @ map (\<lambda>ws. (ws, js_stringify message)) targets,
           pd_pushed := pd_pushed s + length targets\<rparr>)"

inductive pod_step :: "(string \<Rightarrow> string option option) \<Rightarrow> pod \<Rightarrow> pod \<Rightarrow> bool" for jwt_sub where
  upgrade: "ws \<notin> set (pd_clients s) \<Longrightarrow> pod_step jwt_sub s (snd (on_upgrade jwt_sub pathname token ws s))"
| pong: "pod_step jwt_sub s (on_pong ws s)"
| close: "ws \<in> set (pd_clients s) \<Longrightarrow> pod_step jwt_sub s (on_close ws s)"
| beat: "pod_step jwt_sub s (heartbeat (pd_clients s) s)"
| message: "pod_step jwt_sub s (on_message raw s)"

definition init_pod :: pod where
  "init_pod = \<lparr>pd_sockets = Map.empty, pd_clients = [], pd_user = (\<lambda>_. None), pd_isAlive = (\<lambda>_. False),
     pd_connections = 0, pd_pushed = 0, pd_sent = [], pd_terminated = []\<rparr>"

definition pod_run :: "(string \<Rightarrow> string option option) \<Rightarrow> pod \<Rightarrow> bool" where
  "pod_run jwt_sub s \<longleftrightarrow> (pod_step jwt_sub)\<^sup>*\<^sup>* init_pod s"

end
