(* ===== verification/NotificationClaims.thy ===== *)
theory NotificationClaims
  imports Notification Redelivery
begin

text \<open>
  The notification service: who is told what about an event, that a notification is sent at most
  once, when it is lost, and that a pod pushes a message to the sockets of its user and to no
  other.
\<close>

section \<open>Numbers\<close>

lemma bit_len_bound: "n < 2 ^ k \<Longrightarrow> bit_len n \<le> k"
proof (induction n arbitrary: k rule: bit_len.induct)
  case (1 n)
  show ?case
  proof (cases "n = 0")
    case True
    then show ?thesis by (simp add: bit_len.simps)
  next
    case False
    with 1(2) obtain k' where k: "k = Suc k'" by (cases k) auto
    with 1(2) have "n div 2 < 2 ^ k'" by auto
    with False 1(1) have "bit_len (n div 2) \<le> k'" by simp
    with False k show ?thesis by (simp add: bit_len.simps [of n])
  qed
qed

lemma js_int_exact: "\<bar>n\<bar> < 2 ^ 53 \<Longrightarrow> js_int n = JNum n"
proof -
  assume n: "\<bar>n\<bar> < 2 ^ 53"
  then have "nat \<bar>n\<bar> < 2 ^ 53" by (simp add: nat_less_iff)
  then have "bit_len (nat \<bar>n\<bar>) - 53 = 0" using bit_len_bound by simp
  then have "round53 n = n" by (simp add: round53_def round_half_even_def Let_def)
  moreover have "\<bar>n\<bar> < 2 ^ 1024" using n power_strict_increasing [of 53 1024 "2::int"] by linarith
  ultimately show ?thesis by (simp add: js_int_def Let_def)
qed

section \<open>Sockets\<close>

text \<open>The map holds, for every user, the open sockets of that user, each once, and no empty set.\<close>

definition pod_inv :: "pod \<Rightarrow> bool" where
  "pod_inv s \<longleftrightarrow> distinct (pd_clients s) \<and> pd_connections s = int (length (pd_clients s)) \<and>
     (\<forall>u. pd_sockets s u \<noteq> Some [] \<and> distinct (sockets_of u s) \<and>
        set (sockets_of u s) = {ws \<in> set (pd_clients s). pd_user s ws = u})"

lemma heartbeat_keeps:
  "pd_sockets (heartbeat wss s) = pd_sockets s \<and> pd_clients (heartbeat wss s) = pd_clients s \<and>
   pd_user (heartbeat wss s) = pd_user s \<and> pd_connections (heartbeat wss s) = pd_connections s \<and>
   pd_sent (heartbeat wss s) = pd_sent s"
  by (induction wss arbitrary: s) simp_all

lemma sockets_of_cong: "pd_sockets s' = pd_sockets s \<Longrightarrow> sockets_of u s' = sockets_of u s"
  by (simp add: sockets_of_def)

lemma pod_inv_cong:
  assumes "pd_sockets s' = pd_sockets s" and "pd_clients s' = pd_clients s" and "pd_user s' = pd_user s"
    and "pd_connections s' = pd_connections s"
  shows "pod_inv s' \<longleftrightarrow> pod_inv s"
  using assms sockets_of_cong [OF assms(1)] by (simp add: pod_inv_def)

lemma pod_inv_upgrade:
  assumes inv: "pod_inv s" and ws: "ws \<notin> set (pd_clients s)"
  shows "pod_inv (snd (on_upgrade jwt_sub pathname token ws s))"
proof (cases "pathname = ''/ws'' \<and> jwt_sub token \<noteq> None")
  case False
  with inv show ?thesis by (auto simp: on_upgrade_def)
next
  case True
  then obtain v where v: "jwt_sub token = Some v" by auto
  define s' where "s' = snd (on_upgrade jwt_sub pathname token ws s)"
  have s': "pd_clients s' = pd_clients s @ [ws]" "pd_user s' = (pd_user s)(ws := v)"
    "pd_connections s' = pd_connections s + 1" "pd_sockets s' = (pd_sockets s)(v \<mapsto> sockets_of v s @ [ws])"
    using True v by (simp_all add: s'_def on_upgrade_def)
  have at: "sockets_of u s' = (if u = v then sockets_of v s @ [ws] else sockets_of u s)" for u
    by (simp add: sockets_of_def s'(4))
  from inv have old: "distinct (sockets_of u s)" "set (sockets_of u s) = {w \<in> set (pd_clients s). pd_user s w = u}" for u
    by (simp_all add: pod_inv_def)
  have "distinct (sockets_of u s') \<and> set (sockets_of u s') = {w \<in> set (pd_clients s'). pd_user s' w = u}" for u
    using old ws by (auto simp: at s')
  then have "pod_inv s'" using inv ws by (auto simp: pod_inv_def s')
  then show ?thesis by (simp add: s'_def)
qed

lemma pod_inv_close:
  assumes inv: "pod_inv s" and ws: "ws \<in> set (pd_clients s)"
  shows "pod_inv (on_close ws s)"
proof -
  define v where "v = pd_user s ws"
  define s' where "s' = on_close ws s"
  have s': "pd_clients s' = removeAll ws (pd_clients s)" "pd_user s' = pd_user s"
    "pd_connections s' = pd_connections s - 1"
    "pd_sockets s' = (pd_sockets s)(v := (if removeAll ws (sockets_of v s) = [] then None
       else Some (removeAll ws (sockets_of v s))))"
    by (simp_all add: s'_def on_close_def Let_def v_def)
  have at: "sockets_of u s' = (if u = v then removeAll ws (sockets_of v s) else sockets_of u s)" for u
    by (auto simp: sockets_of_def s'(4))
  from inv have old: "distinct (sockets_of u s)" "set (sockets_of u s) = {w \<in> set (pd_clients s). pd_user s w = u}" for u
    by (simp_all add: pod_inv_def)
  have "distinct (sockets_of u s') \<and> set (sockets_of u s') = {w \<in> set (pd_clients s'). pd_user s' w = u}" for u
    using old by (auto simp: at s' v_def distinct_removeAll)
  moreover have "pd_sockets s' u \<noteq> Some []" for u using inv by (simp add: s'(4) pod_inv_def)
  moreover have "distinct (pd_clients s)" using inv by (simp add: pod_inv_def)
  then have "int (length (pd_clients s')) = int (length (pd_clients s)) - 1"
    using ws length_pos_if_in_set [OF ws] by (simp add: s' distinct_remove1_removeAll [symmetric] length_remove1 of_nat_diff Suc_le_eq)
  ultimately have "pod_inv s'" using inv by (auto simp: pod_inv_def s' distinct_removeAll)
  then show ?thesis by (simp add: s'_def)
qed

lemma pod_run_inv: "pod_run jwt_sub s \<Longrightarrow> pod_inv s"
  unfolding pod_run_def
proof (induction rule: rtranclp_induct)
  case base
  show ?case by (simp add: pod_inv_def init_pod_def sockets_of_def)
next
  case (step s s')
  from step(2,3) show ?case
  proof cases
    case (beat)
    with step(3) heartbeat_keeps show ?thesis by (metis pod_inv_cong)
  next
    case (message raw)
    have "pod_inv (on_message raw s) \<longleftrightarrow> pod_inv s"
      by (rule pod_inv_cong) (simp_all add: on_message_def Let_def)
    with message step(3) show ?thesis by simp
  next
    case (pong ws)
    have "pod_inv (on_pong ws s) \<longleftrightarrow> pod_inv s" by (rule pod_inv_cong) (simp_all add: on_pong_def)
    with pong step(3) show ?thesis by simp
  qed (simp_all add: step(3) pod_inv_upgrade pod_inv_close)
qed

text \<open>
  C24: A pod pushes a message to exactly the open sockets whose token named its user: each of them
  gets it once, no other socket gets anything, and the connection gauge counts the open sockets,
  after any sequence of connections, closures, pongs, heartbeats and messages.
\<close>

theorem push_reaches_its_user:
  assumes "pod_run jwt_sub s" and "json_get raw ''userId'' = Some (JStr u)" and "json_get raw ''message'' = Some m"
  shows "\<exists>targets. pd_sent (on_message raw s) = pd_sent s @ map (\<lambda>ws. (ws, js_stringify m)) targets \<and>
    distinct targets \<and> set targets = {ws \<in> set (pd_clients s). pd_user s ws = Some u} \<and>
    pd_connections s = int (length (pd_clients s)) \<and> distinct (pd_clients s)"
  using pod_run_inv [OF assms(1)] assms(2,3)
  by (intro exI [of _ "sockets_of (Some u) s"]) (simp add: on_message_def Let_def pod_inv_def)

definition demo_pod :: pod where
  "demo_pod =
     (let up = (\<lambda>tok ws s. snd (on_upgrade (\<lambda>t. if t = ''bad'' then None else Some (Some t)) ''/ws'' tok ws s))
      in on_close 2 (up ''bad'' 4 (up ''ann'' 3 (up ''bob'' 2 (up ''ann'' 1 init_pod)))))"

lemma demo_pod_run: "pod_run (\<lambda>t. if t = ''bad'' then None else Some (Some t)) demo_pod"
proof -
  let ?j = "\<lambda>t. if t = ''bad'' then None else Some (Some t)"
  have more: "pod_run ?j s \<Longrightarrow> pod_step ?j s s' \<Longrightarrow> pod_run ?j s'" for s s'
    unfolding pod_run_def by (rule rtranclp.rtrancl_into_rtrancl)
  show ?thesis unfolding demo_pod_def Let_def
    by (intro more [OF _ pod_step.close] more [OF _ pod_step.upgrade])
      (simp_all add: on_upgrade_def init_pod_def pod_run_def)
qed

theorem push_reaches_its_user_witness:
  "\<exists>targets. pd_sent (on_message (JObj [(''userId'', JStr ''ann''), (''message'', JNum 7)]) demo_pod) =
     pd_sent demo_pod @ map (\<lambda>ws. (ws, js_stringify (JNum 7))) targets \<and>
     set targets = {ws \<in> set (pd_clients demo_pod). pd_user demo_pod ws = Some ''ann''}"
  using push_reaches_its_user [OF demo_pod_run, of "JObj [(''userId'', JStr ''ann''), (''message'', JNum 7)]" "''ann''" "JNum 7"]
  by auto

section \<open>Deduplication\<close>

text \<open>
  What Redis promises, with \<open>known\<close> for the keys that exist (for the hour a key lives) and \<open>chan\<close>
  for what was published on the channel: \<open>SET NX\<close> succeeds on a new key only, a failed \<open>PUBLISH\<close> may
  or may not have been carried out.
\<close>

definition set_nx_doc :: "'r notif_api \<Rightarrow> (string \<Rightarrow> 'r \<Rightarrow> bool) \<Rightarrow> ('r \<Rightarrow> json list) \<Rightarrow> bool" where
  "set_nx_doc a known chan \<longleftrightarrow>
     (\<forall>k r. chan (snd (na_set_nx a k r)) = chan r \<and>
        (\<forall>k'. known k' r \<longrightarrow> known k' (snd (na_set_nx a k r))) \<and>
        (case fst (na_set_nx a k r) of
           Inl e \<Rightarrow> True
         | Inr new \<Rightarrow> (new \<longleftrightarrow> \<not> known k r) \<and> known k (snd (na_set_nx a k r))))"

lemma set_nx_docD:
  assumes "set_nx_doc a known chan"
  shows "chan (snd (na_set_nx a k r)) = chan r" and "known k' r \<Longrightarrow> known k' (snd (na_set_nx a k r))"
    and "fst (na_set_nx a k r) = Inr new \<Longrightarrow> (new \<longleftrightarrow> \<not> known k r) \<and> known k (snd (na_set_nx a k r))"
proof -
  from assms have "chan (snd (na_set_nx a k r)) = chan r \<and> (\<forall>k'. known k' r \<longrightarrow> known k' (snd (na_set_nx a k r))) \<and>
      (case fst (na_set_nx a k r) of Inl e \<Rightarrow> True
       | Inr new \<Rightarrow> (new \<longleftrightarrow> \<not> known k r) \<and> known k (snd (na_set_nx a k r)))"
    unfolding set_nx_doc_def by blast
  then show "chan (snd (na_set_nx a k r)) = chan r" "known k' r \<Longrightarrow> known k' (snd (na_set_nx a k r))"
    "fst (na_set_nx a k r) = Inr new \<Longrightarrow> (new \<longleftrightarrow> \<not> known k r) \<and> known k (snd (na_set_nx a k r))"
    by (auto split: sum.splits)
qed

definition publish_doc :: "'r notif_api \<Rightarrow> (string \<Rightarrow> 'r \<Rightarrow> bool) \<Rightarrow> ('r \<Rightarrow> json list) \<Rightarrow> bool" where
  "publish_doc a known chan \<longleftrightarrow>
     (\<forall>m r. (\<forall>k. known k r \<longrightarrow> known k (snd (na_publish a m r))) \<and>
        (case fst (na_publish a m r) of
           None \<Rightarrow> chan (snd (na_publish a m r)) = chan r @ [m]
         | Some e \<Rightarrow> chan (snd (na_publish a m r)) \<in> {chan r, chan r @ [m]}))"

definition redis_doc :: "'r notif_api \<Rightarrow> (string \<Rightarrow> 'r \<Rightarrow> bool) \<Rightarrow> ('r \<Rightarrow> json list) \<Rightarrow> bool" where
  "redis_doc a known chan \<longleftrightarrow> set_nx_doc a known chan \<and> publish_doc a known chan"

text \<open>The attempt \<open>a\<close> reads the message as the event with key \<open>k\<close> and the notifications \<open>out\<close>.\<close>

definition reads :: "'r notif_api \<Rightarrow> string \<Rightarrow> raw \<Rightarrow> string \<Rightarrow> json list \<Rightarrow> bool" where
  "reads a topic v k out \<longleftrightarrow> (\<exists>event. parse_message a topic v = Inr (event, out) \<and> seen_key a event = k)"

lemma publish_all_chan:
  assumes "publish_doc a known chan" and "publish_all a out r = (res, r')"
  shows "\<exists>ms. chan r' = chan r @ ms \<and> prefix ms (map js_stringify out) \<and> (res = None \<longrightarrow> ms = map js_stringify out) \<and>
    (\<forall>k. known k r \<longrightarrow> known k r')"
  using assms(2)
proof (induction out arbitrary: r)
  case (Cons m out)
  obtain e r1 where p: "na_publish a (js_stringify m) r = (e, r1)" by fastforce
  have one: "\<forall>k. known k r \<longrightarrow> known k r1" "case e of None \<Rightarrow> chan r1 = chan r @ [js_stringify m]
      | Some x \<Rightarrow> chan r1 \<in> {chan r, chan r @ [js_stringify m]}"
    using assms(1) p unfolding publish_doc_def by (metis fst_conv snd_conv)+
  show ?case
  proof (cases e)
    case None
    with Cons.prems p have "publish_all a out r1 = (res, r')" by simp
    from Cons.IH [OF this] one None show ?thesis by (auto simp: append_eq_Cons_conv)
  next
    case (Some x)
    with Cons.prems p have "r' = r1" "res = Some x" by simp_all
    with one Some show ?thesis by auto
  qed
qed simp

text \<open>One attempt: nothing is sent when the key exists; otherwise a prefix, and the key exists after.\<close>

lemma notify_chan:
  assumes doc: "redis_doc a known chan" and rd: "reads a topic v k out"
    and run: "notify a topic v s = (h, s')"
  shows "\<exists>ms. chan (nt_redis s') = chan (nt_redis s) @ ms \<and> prefix ms (map js_stringify out) \<and>
    (known k (nt_redis s) \<longrightarrow> ms = [] \<and> known k (nt_redis s')) \<and> (ms \<noteq> [] \<longrightarrow> known k (nt_redis s'))"
proof -
  let ?r = "nt_redis s"
  from rd obtain event where ev: "parse_message a topic v = Inr (event, out)" "seen_key a event = k"
    by (auto simp: reads_def)
  obtain new r1 where set: "na_set_nx a k ?r = (new, r1)" by fastforce
  have nx: "chan r1 = chan ?r" "known k ?r \<longrightarrow> known k r1" "\<And>b. new = Inr b \<Longrightarrow> (b \<longleftrightarrow> \<not> known k ?r) \<and> known k r1"
    using doc set set_nx_docD [of a known chan k ?r] set_nx_docD(2) [of a known chan k ?r k]
    by (auto simp: redis_doc_def)
  have pub: "publish_doc a known chan" using doc by (simp add: redis_doc_def)
  show ?thesis
  proof (cases "new = Inr True")
    case True
    obtain res r2 where all: "publish_all a out r1 = (res, r2)" by fastforce
    have "nt_redis s' = r2"
      using run ev set True all
      by (auto simp: notify_def try_handle_def callWebhook_def Let_def split: option.splits if_splits)
    with publish_all_chan [OF pub all] nx True show ?thesis by auto
  next
    case False
    then have "nt_redis s' = r1"
      using run ev set by (auto simp: notify_def try_handle_def split: sum.splits bool.splits)
    with nx False show ?thesis by (cases new) auto
  qed
qed

interpretation notified: redelivery "\<lambda>a s. snd (notify a topic v s)"
    "\<lambda>a. redis_doc a known chan \<and> reads a topic v k out" "\<lambda>s. known k (nt_redis s)" "\<lambda>s. chan (nt_redis s)"
    "map js_stringify out" for topic v k out known chan
proof (unfold_locales, goal_cases)
  case (1 a s)
  from notify_chan [OF _ _ prod.collapse [symmetric]] 1 show ?case by (metis append_Nil2)
next
  case (2 a s)
  from notify_chan [OF _ _ prod.collapse [symmetric]] 2 show ?case by blast
qed

text \<open>Any number of deliveries of one message, each meeting its own failures.\<close>

definition deliveries :: "'r notif_api list \<Rightarrow> string \<Rightarrow> raw \<Rightarrow> 'r notifier \<Rightarrow> 'r notifier" where
  "deliveries as topic v s = fold (\<lambda>a s. snd (notify a topic v s)) as s"

lemma deliveries_known:
  assumes "\<forall>a\<in>set as. redis_doc a known chan \<and> reads a topic v k out" and "known k (nt_redis s)"
  shows "chan (nt_redis (deliveries as topic v s)) = chan (nt_redis s) \<and> known k (nt_redis (deliveries as topic v s))"
  using notified.after_mark [OF assms] by (simp add: deliveries_def)


text \<open>A Redis for the witnesses: the keys and the channel; \<open>up\<close> says whether \<open>PUBLISH\<close> works.\<close>

definition toy_api :: "bool \<Rightarrow> (string list \<times> json list) notif_api" where
  "toy_api up =
     \<lparr>na_set_nx = (\<lambda>k (ks, ch). if k \<in> set ks then (Inr False, ks, ch) else (Inr True, k # ks, ch)),
      na_publish = (\<lambda>m (ks, ch). if up then (None, ks, ch @ [m]) else (Some ''connection closed'', ks, ch)),
      na_WEBHOOK_URL = [], na_fetch = (\<lambda>_. Inr True), na_dlq = None, na_js_frac = JFrac, na_num_text = (\<lambda>_. [])\<rparr>"

definition toy_notifier :: "(string list \<times> json list) notifier" where
  "toy_notifier = \<lparr>nt_redis = ([], []), nt_events = (\<lambda>_. 0), nt_webhooks = (\<lambda>_. 0), nt_dlq = []\<rparr>"

definition toy_event :: json where
  "toy_event = JObj [(''eventId'', JStr ''c1''), (''transactionId'', JStr ''c1''), (''userId'', JStr ''ann''),
     (''amountCents'', JNum 500)]"

definition toy_out :: "json list" where
  "toy_out = [JObj [(''userId'', JStr ''ann''), (''message'', JObj [(''type'', JStr ''deposit.completed''),
     (''transactionId'', JStr ''c1''), (''amountCents'', JNum 500)])]]"

lemma toy_doc: "redis_doc (toy_api up) (\<lambda>k r. k \<in> set (fst r)) snd"
  by (auto simp: redis_doc_def set_nx_doc_def publish_doc_def toy_api_def split: sum.splits option.splits)

lemma toy_reads: "reads (toy_api up) ''wallet.deposited'' (JsonValue toy_event) ''notif:seen:c1'' toy_out"
proof -
  have "parse_message (toy_api up) ''wallet.deposited'' (JsonValue toy_event) = Inr (toy_event, toy_out)"
    by (cases up) code_simp+
  moreover have "seen_key (toy_api up) toy_event = ''notif:seen:c1''" by (simp add: seen_key_def toy_event_def)
  ultimately show ?thesis by (auto simp: reads_def)
qed


text \<open>
  C25: A notification is lost when Redis accepts the \<open>SET NX\<close> and then fails the first \<open>PUBLISH\<close>: the
  handler throws so that Kafka delivers the event again, but every later delivery finds the key,
  sends nothing, and returns, so the offset is committed and the user is never told.
\<close>

theorem notification_lost:
  assumes "redis_doc a known chan" and "reads a topic v k (m # rest)"
    and "na_set_nx a k (nt_redis s) = (Inr True, r1)" and "na_publish a (js_stringify m) r1 = (Some err, r2)"
    and "chan r2 = chan r1"
    and "\<forall>b\<in>set (later @ [b']). redis_doc b known chan \<and> reads b topic v k (m # rest)"
    and "\<And>r. \<not> isl (fst (na_set_nx b' k r))"
  shows "fst (notify a topic v s) = Throws \<and>
    fst (notify b' topic v (deliveries (a # later) topic v s)) = Returns \<and>
    chan (nt_redis (deliveries (a # later @ [b']) topic v s)) = chan (nt_redis s)"
proof -
  let ?s1 = "snd (notify a topic v s)"
  from assms(2-4) have first: "fst (notify a topic v s) = Throws" "nt_redis ?s1 = r2"
    by (auto simp: reads_def notify_def try_handle_def)
  have "known k r1" "chan r1 = chan (nt_redis s)"
    using assms(1,3) set_nx_docD [of a known chan k "nt_redis s"] by (auto simp: redis_doc_def)
  moreover have "\<forall>k. known k r1 \<longrightarrow> known k (snd (na_publish a (js_stringify m) r1))"
    using assms(1) by (simp add: redis_doc_def publish_doc_def)
  ultimately have kn: "known k (nt_redis ?s1)" and ch: "chan (nt_redis ?s1) = chan (nt_redis s)"
    using first assms(4,5) by auto
  let ?s2 = "deliveries later topic v ?s1"
  have s2: "known k (nt_redis ?s2)"
    using deliveries_known [where known = known and chan = chan and s = ?s1 and as = later, OF _ kn] assms(6) by auto
  from assms(7) obtain new r3 where set: "na_set_nx b' k (nt_redis ?s2) = (Inr new, r3)"
    by (metis prod.collapse sum.collapse(2))
  with s2 assms(6) have "\<not> new" using set_nx_docD(3) [of b' known chan k "nt_redis ?s2" new]
    by (simp add: redis_doc_def)
  with set assms(6) have "fst (notify b' topic v ?s2) = Returns"
    by (auto simp: reads_def notify_def try_handle_def)
  moreover have "chan (nt_redis (deliveries (later @ [b']) topic v ?s1)) = chan (nt_redis ?s1)"
    using deliveries_known [OF assms(6) kn] by blast
  ultimately show ?thesis using first(1) ch by (simp add: deliveries_def)
qed

theorem notification_lost_witness:
  "fst (notify (toy_api False) ''wallet.deposited'' (JsonValue toy_event) toy_notifier) = Throws \<and>
   snd (nt_redis (deliveries [toy_api False, toy_api True, toy_api True] ''wallet.deposited'' (JsonValue toy_event) toy_notifier)) = []"
proof -
  let ?b = "toy_api True" and ?v = "JsonValue toy_event"
  have doc: "\<forall>b\<in>set ([?b] @ [?b]). redis_doc b (\<lambda>k r. k \<in> set (fst r)) snd \<and>
      reads b ''wallet.deposited'' ?v ''notif:seen:c1'' (hd toy_out # [])"
    using toy_doc toy_reads [of True] by (simp add: toy_out_def)
  have rd: "reads (toy_api False) ''wallet.deposited'' ?v ''notif:seen:c1'' (hd toy_out # [])"
    using toy_reads [of False] by (simp add: toy_out_def)
  have set: "na_set_nx (toy_api False) ''notif:seen:c1'' (nt_redis toy_notifier) = (Inr True, [''notif:seen:c1''], [])"
    by (simp add: toy_api_def toy_notifier_def)
  have pub: "na_publish (toy_api False) (js_stringify (hd toy_out)) ([''notif:seen:c1''], []) =
      (Some ''connection closed'', [''notif:seen:c1''], [])" by (simp add: toy_api_def)
  have ok: "\<not> isl (fst (na_set_nx ?b ''notif:seen:c1'' r))" for r
    by (cases r) (simp add: toy_api_def)
  from notification_lost [OF toy_doc rd set pub _ doc ok] show ?thesis by (simp add: toy_notifier_def)
qed

end
