(* ===== verification/Consumers.thy ===== *)
theory Consumers
  imports LedgerClaims FraudClaims NotificationClaims
begin

text \<open>
  The three consumers together: each of them accepts every event the wallet service publishes,
  the notification service accepts every alert of the fraud service, the users are told about
  their own movements, and what a message without a value does to each.
\<close>

section \<open>Reading events in JavaScript\<close>

lemma js_parse_get:
  assumes "is_object v"
  shows "json_get (js_parse jf v) f = map_option (js_parse jf) (json_get v f)" and "is_object (js_parse jf v)"
  using assms by (cases v; simp add: is_object_def map_of_map)+

lemma parse_message_object:
  "is_object v \<Longrightarrow> parse_message a topic (JsonValue v) =
     and_do (messagesFor topic (js_parse (na_js_frac a) v)) (\<lambda>out. Inr (js_parse (na_js_frac a) v, out))"
  using js_parse_get(2) [of v "na_js_frac a"]
  by (cases "js_parse (na_js_frac a) v") (auto simp: parse_message_def is_object_def Let_def)

lemma js_int_present: "js_int n \<noteq> JNull" "js_int n \<noteq> JStr s"
  by (simp_all add: js_int_def Let_def)

lemma need_present:
  "(\<And>f. f \<in> set fs \<Longrightarrow> \<exists>v. json_get e f = Some v \<and> v \<noteq> JNull \<and> v \<noteq> JStr []) \<Longrightarrow> need e fs = None"
  unfolding need_def by (fastforce simp: find_None_iff)

lemma RFC3339_nonempty: "format_RFC3339Nano t \<noteq> []"
  by (simp add: format_RFC3339Nano_def Let_def)

lemma not_blank: "\<not> isBlank s \<Longrightarrow> s \<noteq> []"
  by (auto simp: isBlank_code)

section \<open>Users are told about their own movements\<close>

definition transfer_notes :: "tx_row \<Rightarrow> uuid \<Rightarrow> uuid \<Rightarrow> uuid \<Rightarrow> json list" where
  "transfer_notes t f sender receiver =
     [JObj [(''userId'', JStr sender), (''message'', JObj [(''type'', JStr ''transfer.sent''),
        (''transactionId'', JStr (tr_id t)), (''amountCents'', js_int (tr_amount_cents t)),
        (''toWalletId'', JStr (tr_to_wallet_id t))])],
      JObj [(''userId'', JStr receiver), (''message'', JObj [(''type'', JStr ''transfer.received''),
        (''transactionId'', JStr (tr_id t)), (''amountCents'', js_int (tr_amount_cents t)),
        (''fromWalletId'', JStr f)])]]"

definition deposit_notes :: "tx_row \<Rightarrow> json list" where
  "deposit_notes t =
     [JObj [(''userId'', JStr (tr_user_id t)), (''message'', JObj [(''type'', JStr ''deposit.completed''),
        (''transactionId'', JStr (tr_id t)), (''amountCents'', js_int (tr_amount_cents t))])]]"

lemma transfer_messages:
  assumes ev: "tx_event d t = Some m" and f: "tr_from_wallet_id t = Some f" and id: "tr_id t \<noteq> []"
    and users: "\<forall>w\<in>set (wallets d). wr_user_id w \<noteq> []"
  obtains v w where "v \<in> set (wallets d)" and "w \<in> set (wallets d)" and "wr_id v = f" and "wr_id w = tr_to_wallet_id t"
    and "parse_message a (km_topic m) (JsonValue (km_value m)) =
      Inr (js_parse (na_js_frac a) (km_value m), transfer_notes t f (wr_user_id v) (wr_user_id w))"
proof -
  let ?e = "js_parse (na_js_frac a) (km_value m)"
  from ev f obtain v w where vw: "v \<in> set (wallets d)" "w \<in> set (wallets d)" "wr_id v = f" "wr_id w = tr_to_wallet_id t"
    and top: "km_topic m = topicTransfers"
    and get: "json_get (km_value m) ''fromWalletId'' = Some (JStr f)"
      "json_get (km_value m) ''toWalletId'' = Some (JStr (tr_to_wallet_id t))"
      "json_get (km_value m) ''fromUserId'' = Some (JStr (wr_user_id v))"
      "json_get (km_value m) ''toUserId'' = Some (JStr (wr_user_id w))"
    by (rule transfer_fields)
  note obj = event_fields(1) [OF ev]
  note field = js_parse_get(1) [OF obj, of "na_js_frac a"]
  have need: "need ?e [''eventId'', ''transactionId'', ''fromUserId'', ''toUserId'', ''amountCents''] = None"
    by (rule need_present) (use event_fields [OF ev] get id users vw js_int_present in \<open>auto simp: field\<close>)
  have "messagesFor topicTransfers ?e = Inr (transfer_notes t f (wr_user_id v) (wr_user_id w))"
    using event_fields [OF ev] get
    by (simp add: messagesFor_def topicTransfers_def need transfer_notes_def push_def picked_def List.map_filter_def field)
  with vw top show thesis by (intro that) (simp_all add: parse_message_object [OF obj])
qed

lemma deposit_messages:
  assumes ev: "tx_event d t = Some m" and f: "tr_from_wallet_id t = None" and id: "tr_id t \<noteq> []" "tr_user_id t \<noteq> []"
  shows "parse_message a (km_topic m) (JsonValue (km_value m)) =
    Inr (js_parse (na_js_frac a) (km_value m), deposit_notes t)"
proof -
  let ?e = "js_parse (na_js_frac a) (km_value m)"
  note obj = event_fields(1) [OF ev]
  note field = js_parse_get(1) [OF obj, of "na_js_frac a"]
  note get = event_fields [OF ev] deposit_fields [OF ev f]
  have need: "need ?e [''eventId'', ''transactionId'', ''userId'', ''amountCents''] = None"
    by (rule need_present) (use get id js_int_present in \<open>auto simp: field\<close>)
  have "messagesFor topicDeposits ?e = Inr (deposit_notes t)"
    using get by (simp add: messagesFor_def topicDeposits_def need deposit_notes_def push_def picked_def List.map_filter_def field)
  with get show ?thesis by (simp add: parse_message_object [OF obj])
qed

text \<open>The event of a transaction, and the texts its columns hold.\<close>

lemma logged_event:
  assumes run: "system_run as_long pg_uuid sys" and long: "asLong_doc as_long" and m: "m \<in> set (rs_log (sy_relay sys))"
  obtains t where "t \<in> set (transactions (rs_db (sy_relay sys)))" and "tx_event (rs_db (sy_relay sys)) t = Some m"
    and "wallet_inv (rs_db (sy_relay sys))" and "typed_columns pg_uuid (rs_db (sy_relay sys))"
    and "tr_id t \<noteq> []" and "tr_user_id t \<noteq> []" and "\<forall>w\<in>set (wallets (rs_db (sy_relay sys))). wr_user_id w \<noteq> [] \<and> wr_id w \<noteq> []"
proof -
  let ?d = "rs_db (sy_relay sys)"
  from system_run_inv [OF run long] have pi: "pipeline_inv (sy_relay sys)" and ty: "typed_columns pg_uuid ?d"
    by (simp_all add: system_inv_def)
  from pi m obtain t where t: "t \<in> set (transactions ?d)" "tx_event ?d t = Some m"
    unfolding pipeline_inv_def events_genuine_def by blast
  from ty t(1) have "tr_id t \<noteq> []" "tr_user_id t \<noteq> []" "\<forall>w\<in>set (wallets ?d). wr_user_id w \<noteq> [] \<and> wr_id w \<noteq> []"
    by (auto simp: typed_columns_def uuid_text_def dest: not_blank)
  with t pi ty show thesis by (intro that) (simp_all add: pipeline_inv_def)
qed

text \<open>
  C18: Users are told about their own movements.  Every message the wallet service publishes is
  read by the notification service as: for a transfer, one message to the owner of the sending
  wallet and one to the owner of the receiving wallet, for a deposit, one message to the user who
  made it, each with the transaction and its amount (rounded to a double); an amount below \<open>2^53\<close>
  cents is shown exactly.
\<close>

theorem users_notified:
  assumes "system_run as_long pg_uuid sys" and "asLong_doc as_long" and "m \<in> set (rs_log (sy_relay sys))"
  shows "\<exists>t\<in>set (transactions (rs_db (sy_relay sys))). tx_event (rs_db (sy_relay sys)) t = Some m \<and>
    (tr_amount_cents t < 2 ^ 53 \<longrightarrow> js_int (tr_amount_cents t) = JNum (tr_amount_cents t)) \<and>
    (case tr_from_wallet_id t of
       None \<Rightarrow> parse_message a (km_topic m) (JsonValue (km_value m)) =
         Inr (js_parse (na_js_frac a) (km_value m), deposit_notes t)
     | Some f \<Rightarrow> \<exists>v\<in>set (wallets (rs_db (sy_relay sys))). \<exists>w\<in>set (wallets (rs_db (sy_relay sys))).
         wr_id v = f \<and> wr_id w = tr_to_wallet_id t \<and>
         parse_message a (km_topic m) (JsonValue (km_value m)) =
           Inr (js_parse (na_js_frac a) (km_value m), transfer_notes t f (wr_user_id v) (wr_user_id w)))"
proof -
  let ?d = "rs_db (sy_relay sys)"
  obtain t where t: "t \<in> set (transactions ?d)" "tx_event ?d t = Some m" and wi: "wallet_inv ?d"
    and ids: "tr_id t \<noteq> []" "tr_user_id t \<noteq> []" and ws: "\<forall>w\<in>set (wallets ?d). wr_user_id w \<noteq> [] \<and> wr_id w \<noteq> []"
    by (rule logged_event [OF assms])
  have "0 < tr_amount_cents t" using wi t(1) schema_okD(6) by (auto simp: wallet_inv_def tx_checks_def)
  then have exact: "tr_amount_cents t < 2 ^ 53 \<longrightarrow> js_int (tr_amount_cents t) = JNum (tr_amount_cents t)"
    by (simp add: js_int_exact)
  show ?thesis
  proof (cases "tr_from_wallet_id t")
    case None
    with exact t deposit_messages [OF t(2) None ids, of a] show ?thesis by (intro bexI [of _ t]) simp_all
  next
    case (Some f)
    obtain v w where "v \<in> set (wallets ?d)" "w \<in> set (wallets ?d)" "wr_id v = f" "wr_id w = tr_to_wallet_id t"
      "parse_message a (km_topic m) (JsonValue (km_value m)) =
        Inr (js_parse (na_js_frac a) (km_value m), transfer_notes t f (wr_user_id v) (wr_user_id w))"
      by (rule transfer_messages [OF t(2) Some ids(1), of a]) (use ws in auto)
    with exact t Some show ?thesis by (intro bexI [of _ t]) auto
  qed
qed

lemma demo_log: "rs_log (sy_relay demo_catching_up) ! 0 \<in> set (rs_log (sy_relay demo_catching_up))"
  using demo_catching_up_facts by simp

lemma demo_catching_up_run: "system_run fit_long word_uuid demo_catching_up"
  unfolding demo_catching_up_def by (rule system_of_run)

theorem users_notified_witness:
  "\<exists>t\<in>set (transactions (rs_db (sy_relay demo_catching_up))).
     tx_event (rs_db (sy_relay demo_catching_up)) t = Some (rs_log (sy_relay demo_catching_up) ! 0)"
  using users_notified [OF demo_catching_up_run fit_long_doc demo_log, of "toy_api True"] by blast

section \<open>Every message is well typed for its readers\<close>

text \<open>
  C17: The events of the wallet are well typed for all their readers.  Every message in Kafka passes
  the checks of the ledger (fields, positive amount, known topic), those of the fraud service when
  it is a transfer, and those of the notification service, so none of them is ever dead-lettered.
\<close>

theorem events_accepted_by_consumers:
  assumes "system_run as_long pg_uuid sys" and "asLong_doc as_long" and "m \<in> set (rs_log (sy_relay sys))"
  shows "(\<exists>i ty lines. require (km_value m) ''eventId'' = Inr i \<and> require (km_value m) ''type'' = Inr ty \<and>
      require (km_value m) ''transactionId'' = Inr i \<and> linesFor as_long (km_topic m) (km_value m) = Inr lines) \<and>
    (km_topic m = topicTransfers \<longrightarrow> fraud_parse (JsonValue (km_value m)) = Inr (km_value m)) \<and>
    \<not> isl (parse_message a (km_topic m) (JsonValue (km_value m)))"
proof -
  let ?d = "rs_db (sy_relay sys)"
  obtain t where t: "t \<in> set (transactions ?d)" "tx_event ?d t = Some m" and wi: "wallet_inv ?d"
    and ty: "typed_columns pg_uuid ?d"
    and ids: "tr_id t \<noteq> []" "tr_user_id t \<noteq> []" and ws: "\<forall>w\<in>set (wallets ?d). wr_user_id w \<noteq> [] \<and> wr_id w \<noteq> []"
    by (rule logged_event [OF assms])
  note parts = tx_event_parts [OF wi t(1) ty t(2)] and get = event_fields [OF t(2)]
  have "\<not> isBlank (tr_id t)" using parts(1) by (simp add: uuid_text_def)
  then have ledger: "\<exists>i ty lines. require (km_value m) ''eventId'' = Inr i \<and> require (km_value m) ''type'' = Inr ty \<and>
      require (km_value m) ''transactionId'' = Inr i \<and> linesFor as_long (km_topic m) (km_value m) = Inr lines"
    using get tx_type_text(1) [of t] linesFor_genuine [OF wi t(1) ty t(2) assms(2)] by (auto simp: require_str)
  show ?thesis
  proof (cases "tr_from_wallet_id t")
    case None
    with ledger deposit_messages [OF t(2) None ids, of a] deposit_fields(1) [OF t(2) None] show ?thesis by simp
  next
    case (Some f)
    obtain v w where "v \<in> set (wallets ?d)" "wr_id v = f"
      "json_get (km_value m) ''fromWalletId'' = Some (JStr f)" "json_get (km_value m) ''fromUserId'' = Some (JStr (wr_user_id v))"
      by (rule transfer_fields [OF t(2) Some])
    with get ids ws RFC3339_nonempty parts(3) have "fraud_parse (JsonValue (km_value m)) = Inr (km_value m)"
      by (auto simp: fraud_parse_def py_str_def)
    moreover have "\<not> isl (parse_message a (km_topic m) (JsonValue (km_value m)))"
      by (rule transfer_messages [OF t(2) Some ids(1), of a]) (use ws in auto)
    ultimately show ?thesis using ledger by blast
  qed
qed

theorem events_accepted_by_consumers_witness:
  "\<not> isl (parse_message (toy_api True) (km_topic (rs_log (sy_relay demo_catching_up) ! 0))
     (JsonValue (km_value (rs_log (sy_relay demo_catching_up) ! 0))))"
  using events_accepted_by_consumers [OF demo_catching_up_run fit_long_doc demo_log, of "toy_api True"] by blast

text \<open>
  C3: The alerts of the fraud service are well typed for the notification service: every alert it
  raises becomes one \<open>security.alert\<close> to the user who made the transfer, with the transaction and
  the rule.
\<close>

theorem alerts_reach_the_sender:
  assumes "fraud_parse v = Inr event" and "evaluate fa event r = (Inr alerts, r')" and "x \<in> set alerts"
  shows "parse_message na (km_topic (alert_msg fa event x)) (JsonValue (km_value (alert_msg fa event x))) =
    Inr (js_parse (na_js_frac na) (km_value (alert_msg fa event x)),
      [JObj [(''userId'', JStr (py_str event ''fromUserId'')),
        (''message'', JObj [(''type'', JStr ''security.alert''),
           (''transactionId'', JStr (py_str event ''transactionId'')), (''rule'', JStr (al_rule x))])]])"
proof -
  have "py_str event ''eventId'' \<noteq> []" "py_str event ''transactionId'' \<noteq> []" "py_str event ''fromUserId'' \<noteq> []"
    using assms(1) by (auto simp: fraud_parse_def find_None_iff split: raw.splits if_splits option.splits json.splits)
  moreover have "al_rule x \<noteq> []"
    using assms(2,3) by (auto simp: evaluate_def velocity_def velocity_alert_def large_amount_def Let_def
        split: prod.splits sum.splits option.splits if_splits list.splits)
  ultimately show ?thesis
    by (simp add: parse_message_def alert_msg_def messagesFor_def need_def push_def picked_def List.map_filter_def
        alert_id_def Let_def)
qed

theorem alerts_reach_the_sender_witness:
  "parse_message (toy_api True) ''fraud.alerts''
     (JsonValue (km_value (alert_msg (toy_fraud 1000 5 7) (toy_transfer ''t1'' ''5'' 2500)
        \<lparr>al_rule = ''LARGE_AMOUNT'', al_detail = ''amount 2500 is above the limit of 1000''\<rparr>))) \<noteq> Inl SyntaxError"
proof -
  let ?a = "toy_fraud 1000 5 7" and ?e = "toy_transfer ''t1'' ''5'' 2500"
  let ?x = "\<lparr>al_rule = ''LARGE_AMOUNT'', al_detail = ''amount 2500 is above the limit of 1000''\<rparr>"
  have p: "fraud_parse (JsonValue ?e) = Inr ?e" by code_simp
  have "fst (evaluate ?a ?e (no_zsets, [])) = Inr [?x]" by code_simp
  then have ev: "evaluate ?a ?e (no_zsets, []) = (Inr [?x], snd (evaluate ?a ?e (no_zsets, [])))"
    by (metis prod.collapse)
  have "km_topic (alert_msg ?a ?e ?x) = ''fraud.alerts''" by (simp add: alert_msg_def)
  with alerts_reach_the_sender [OF p ev, of ?x "toy_api True"] show ?thesis by simp
qed

section \<open>Messages without a value\<close>

text \<open>
  C4: A message without a value (a Kafka tombstone) is dead-lettered by the ledger and by the
  fraud service, but the notification service throws on it at every delivery, whatever the state:
  it is never committed and never sent to the dead-letter topic.
\<close>

theorem tombstone_blocks_notification:
  "kafkaErrorHandler (fst (onEvent as_long pg_uuid env topic NoValue l)) = DeadLetter \<and>
   fraud_parse NoValue = Inl (InvalidMsg ''message is not valid JSON'') \<and>
   fst (notify a topic NoValue s) = Throws \<and> nt_dlq (snd (notify a topic NoValue s)) = nt_dlq s"
  by (simp add: onEvent_def parse_event_def fraud_parse_def notify_def try_handle_def parse_message_def)

text \<open>Above \<open>2^53\<close> an amount is shown rounded: a transfer of 9007199254740993 cents is announced with one cent less.\<close>

lemma amount_rounded: "js_int 9007199254740993 = JNum 9007199254740992"
  by (simp add: js_int_def round53_def round_half_even_def bit_len.simps Let_def)

end
