(* ===== verification/EndToEnd.thy ===== *)
theory EndToEnd
  imports GatewayClaims Consumers
begin

text \<open>
  From the HTTP answer to the ledger: what a client is told about a transfer is what the journal
  records, once the relay and the ledger have caught up.
\<close>

section \<open>The entry of a transaction\<close>

lemma tagged_lines:
  assumes "length es = length ts" and "distinct (map je_id es)" and "(e, t) \<in> set (zip es ts)"
  shows "map snd (filter (\<lambda>p. fst p = je_id e) (concat (map (\<lambda>(e, t). map (\<lambda>x. (je_id e, V x)) (L t)) (zip es ts)))) =
    map V (L t)"
  using assms
proof (induction es ts rule: list_induct2)
  case (Cons e' es t' ts)
  have other: "je_id a \<noteq> je_id e'" if "(a, b) \<in> set (zip es ts)" for a b
    using Cons.prems(1) set_zip_leftD [OF that] by (auto simp: image_iff)
  let ?rest = "concat (map (\<lambda>(e, t). map (\<lambda>x. (je_id e, V x)) (L t)) (zip es ts))"
  show ?case
  proof (cases "(e, t) = (e', t')")
    case True
    have "filter (\<lambda>p. fst p = je_id e') ?rest = []"
      using other by (auto simp: filter_empty_conv)
    with True show ?thesis by (simp add: filter_map o_def)
  next
    case False
    then have mem: "(e, t) \<in> set (zip es ts)" using Cons.prems(2) by auto
    then have "je_id e \<noteq> je_id e'" by (rule other)
    moreover have "map snd (filter (\<lambda>p. fst p = je_id e) ?rest) = map V (L t)" using Cons.IH Cons.prems(1) mem by simp
    ultimately show ?thesis by (simp add: filter_map o_def)
  qed
qed simp

lemma journal_entry_of:
  assumes J: "journal_of L ts" and ids: "distinct (map je_id (journal_entries L))" and t: "t \<in> set ts"
  obtains e where "e \<in> set (journal_entries L)" and "je_event_id e = tr_id t" and "je_event_type e = tx_type t"
    and "map line_view (filter (\<lambda>l. jl_entry_id l = je_id e) (journal_lines L)) = map Line_view (tx_lines t)"
proof -
  have len: "length (journal_entries L) = length ts" using J by (rule journal_of_length)
  from t obtain i where i: "i < length ts" "ts ! i = t" by (auto simp: in_set_conv_nth)
  define e where "e = journal_entries L ! i"
  have mem: "(e, t) \<in> set (zip (journal_entries L) ts)" using i len by (auto simp: set_zip e_def)
  have "map entry_view (journal_entries L) ! i = map tx_view ts ! i" using J by (simp only: journal_of_def)
  then have view: "entry_view e = tx_view t" using i len by (simp add: e_def)
  have "map line_view (filter (\<lambda>l. jl_entry_id l = je_id e) (journal_lines L)) =
      map snd (filter (\<lambda>p. fst p = je_id e) (map (\<lambda>l. (jl_entry_id l, line_view l)) (journal_lines L)))"
    by (simp add: filter_map o_def)
  also have "\<dots> = map Line_view (tx_lines t)"
    using J tagged_lines [OF len ids mem] by (simp only: journal_of_def)
  finally have "map line_view (filter (\<lambda>l. jl_entry_id l = je_id e) (journal_lines L)) = map Line_view (tx_lines t)" .
  moreover have "e \<in> set (journal_entries L)" using mem by (rule set_zip_leftD)
  ultimately show thesis using that view by (simp add: entry_view_def tx_view_def)
qed

section \<open>A concrete run\<close>

text \<open>The example's transfer, its tables afterwards, and the system that has caught up with it.\<close>

definition demo_after :: db where
  "demo_after = (case Transfer_fn ''ann'' ''wb'' 300 ''k9'' (quiet_handle 50 ''t9'' 9) demo_db of
     Inl e \<Rightarrow> demo_db | Inr (r, d) \<Rightarrow> d)"

definition demo_books :: system where
  "demo_books = system_of
     [SProduce (PCreate ''wa'' 10 ''ann''), SProduce (PCreate ''wb'' 11 ''bob''),
      SProduce (PDeposit ''ann'' 500 ''k1'' (quiet_handle 20 ''t1'' 1)),
      SProduce (PTransfer ''ann'' ''wb'' 200 ''k2'' (quiet_handle 30 ''t2'' 2)),
      SProduce (PTransfer ''ann'' ''wb'' 300 ''k9'' (quiet_handle 50 ''t9'' 9)),
      SProduce (PBatch demo_relay [] 60),
      SConsume 2 (ledger_draw 100 ''e1'' CommitOk), SConsume 0 (ledger_draw 200 ''e2'' CommitOk),
      SConsume 1 (ledger_draw 300 ''e3'' CommitOk)]"

lemma demo_books_facts:
  "unpublished (rs_db (sy_relay demo_books)) = []"
  "list_all (\<lambda>m. m \<in> set (sy_done demo_books)) (rs_log (sy_relay demo_books))"
  "rs_db (sy_relay demo_books) = mark_published 60 [1, 2, 9] demo_after"
  by code_simp+

lemma demo_after_call:
  "\<exists>t s1. srv_Transfer Some 5 demo_call ''ann'' ''wb'' 300 ''k9'' demo_server = (Ret t, s1) \<and> sv_db s1 = demo_after"
proof -
  obtain d where run: "Transfer_fn ''ann'' ''wb'' 300 ''k9'' (quiet_handle 50 ''t9'' 9) demo_db = Inr (demo_transfer_result, d)"
    using demo_transfer_runs by blast
  then have "demo_after = d" by (simp add: demo_after_def)
  moreover have "Transfer 5 quiet_env ''ann'' ''wb'' 300 ''k9'' demo_db = (Ret demo_transfer_result, 0, d)"
    using run by (simp add: Transfer_def withRetries_def retry_loop.simps [of 5] run_tx_def)
  ultimately show ?thesis
    by (simp add: srv_Transfer_def demo_call_def metricsInterceptor_def rpc_Transfer_def parseUUID_def validateMoney_def
        finish_money_def demo_server_def recordResult_def outcome_code_def)
qed

lemma demo_post_after:
  "\<exists>w g1. serve demo_limits demo_stack ''12345678'' demo_post demo_gateway = (w, g1) \<and> sent_status w = 201 \<and>
     sv_db (gw_wallet g1) = demo_after"
proof -
  obtain t s1 where srv: "srv_Transfer Some 5 demo_call ''ann'' ''wb'' 300 ''k9'' demo_server = (Ret t, s1)"
    and d: "sv_db s1 = demo_after" using demo_after_call by blast
  have call: "grpc_call Delivered (srv_Transfer Some 5 demo_call ''ann'' ''wb'' 300 ''k9'') demo_server = (Inr t, s1)"
    by (simp only: grpc_call_def network.case srv prod.case outcome.case)
  have rt: "match_route (hr_Method demo_post) (hr_Path demo_post) = RTransfer" by simp
  have "\<exists>w g1. serve demo_limits demo_stack ''12345678'' demo_post demo_gateway = (w, g1) \<and> sent_status w = 201 \<and>
      gw_wallet g1 = s1 \<and> gw_redis g1 = (gw_redis demo_gateway)
        (rate_key ''user'' ''ann'' (go_div (unix_seconds (api_now demo_stack)) 60) := 1)"
    by (rule serve_transfer_201 [OF rt demo_user(1), where n = 1 and t = t])
      (simp_all add: demo_headers_def demo_gateway_def demo_limits_def, rule call)
  with d show ?thesis by blast
qed

section \<open>Properties\<close>

text \<open>
  C5: From the client to the ledger: a \<open>POST /transfers\<close> that was answered 201 is in the books.  At
  any later time when the outbox is empty and the ledger has acknowledged every message, whatever
  happened in between, the journal has an entry for the transaction that the answer shows, with
  exactly two lines: a debit of the wallet that the transaction shows as the sender and a credit of
  the wallet that the body named, both over the amount that the body named.
\<close>

theorem http_transfer_in_ledger:
  assumes "doc_call c" and "server_good (gw_wallet g)"
    and "match_route (hr_Method r) (hr_Path r) = RTransfer"
    and "serve lm (wallet_api parse m c net a) rnd r g = (w, g')" and "sent_status w = 201"
    and long: "asLong_doc as_long" and sys: "system_run as_long pg_uuid sys"
    and later: "store_steps (sv_db (gw_wallet g')) (rs_db (sy_relay sys))"
    and "unpublished (rs_db (sy_relay sys)) = []" and "set (rs_log (sy_relay sys)) \<subseteq> set (sy_done sys)"
  shows "\<exists>to amount wid f x e. decode_transfer a (take 10240 (hr_Body r)) = Some (to, amount) \<and> parse to = Some wid \<and>
    hw_body w = [toTransactionJSON (tx_toProto (txColumns x))] \<and>
    tr_from_wallet_id x = Some f \<and> tr_to_wallet_id x = wid \<and> tr_amount_cents x = amount \<and>
    e \<in> set (journal_entries (lg_db (sy_ledger sys))) \<and> je_event_id e = tr_id x \<and>
    map line_view (filter (\<lambda>l. jl_entry_id l = je_id e) (journal_lines (lg_db (sy_ledger sys)))) =
      [(''wallet:'' @ f, ''DEBIT'', amount), (''wallet:'' @ wid, ''CREDIT'', amount)]"
proof -
  from assms(3-5) obtain u to amount t where
    x: "decode_transfer a (take 10240 (hr_Body r)) = Some (to, amount)"
    "wc_Transfer (wallet_api parse m c net a) u to amount (hr_Header r ''Idempotency-Key'') (gw_wallet g) =
      (Inr t, gw_wallet g')" "hw_body w = [toTransactionJSON t]"
    by (rule served_transfer) simp
  from x(2) have "srv_Transfer parse m c u to amount (hr_Header r ''Idempotency-Key'') (gw_wallet g) = (Ret t, gw_wallet g')"
    by (auto simp: wallet_api_def dest: grpc_call_Inr)
  with assms(1,2) obtain uid wid f row where wid: "parse to = Some wid" and inv: "wallet_inv (sv_db (gw_wallet g'))"
    and row: "select_tx_by_key uid (hr_Header r ''Idempotency-Key'') (sv_db (gw_wallet g')) = Some row"
      "t = tx_toProto (txColumns row)" "tr_from_wallet_id row = Some f" "tr_to_wallet_id row = wid" "tr_amount_cents row = amount"
    by (rule srv_Transfer_row)
  have "row \<in> set (transactions (sv_db (gw_wallet g')))" using row(1) by (auto dest: select_tx_by_key_SomeD)
  then have mem: "row \<in> set (transactions (rs_db (sy_relay sys)))" using store_steps_log [OF later inv] by auto
  from system_run_inv [OF sys long] obtain ts where R: "recorded_txs sys ts" and pi: "pipeline_inv (sy_relay sys)"
    and ok: "journal_ok (lg_db (sy_ledger sys))" by (auto simp: system_inv_def)
  have "row \<in> set ts" using caught_up [OF R pi assms(9,10)] mem by simp
  moreover have "journal_of (lg_db (sy_ledger sys)) ts" using R by (simp add: recorded_txs_def)
  moreover have "distinct (map je_id (journal_entries (lg_db (sy_ledger sys))))" using ok by (simp add: journal_ok_def)
  ultimately obtain e where e: "e \<in> set (journal_entries (lg_db (sy_ledger sys)))" "je_event_id e = tr_id row"
    "map line_view (filter (\<lambda>l. jl_entry_id l = je_id e) (journal_lines (lg_db (sy_ledger sys)))) = map Line_view (tx_lines row)"
    using journal_entry_of by blast
  have "map Line_view (tx_lines row) = [(''wallet:'' @ f, ''DEBIT'', amount), (''wallet:'' @ wid, ''CREDIT'', amount)]"
    by (simp add: tx_lines_def Line_view_def row(3-5))
  with e(3) have lines: "map line_view (filter (\<lambda>l. jl_entry_id l = je_id e) (journal_lines (lg_db (sy_ledger sys)))) =
      [(''wallet:'' @ f, ''DEBIT'', amount), (''wallet:'' @ wid, ''CREDIT'', amount)]" by (rule trans)
  show ?thesis by (intro exI conjI) (rule x(1) wid x(3) [unfolded row(2)] row(3-5) e(1,2) lines)+
qed

theorem http_transfer_in_ledger_witness:
  "\<exists>e f. e \<in> set (journal_entries (lg_db (sy_ledger demo_books))) \<and>
     map line_view (filter (\<lambda>l. jl_entry_id l = je_id e) (journal_lines (lg_db (sy_ledger demo_books)))) =
       [(''wallet:'' @ f, ''DEBIT'', 300), (''wallet:'' @ ''wb'', ''CREDIT'', 300)]"
proof -
  obtain w g1 where run: "serve demo_limits demo_stack ''12345678'' demo_post demo_gateway = (w, g1)" "sent_status w = 201"
    and after: "sv_db (gw_wallet g1) = demo_after" using demo_post_after by blast
  have good: "server_good (gw_wallet demo_gateway)"
    by (simp add: demo_gateway_def server_good_def demo_server_def demo_db_inv)
  have rt: "match_route (hr_Method demo_post) (hr_Path demo_post) = RTransfer" by simp
  have books: "system_run fit_long word_uuid demo_books" unfolding demo_books_def by (rule system_of_run)
  have later: "store_steps (sv_db (gw_wallet g1)) (rs_db (sy_relay demo_books))"
    unfolding demo_books_facts(3) after store_steps_def by (intro r_into_rtranclp store_step.publish)
  have all: "set (rs_log (sy_relay demo_books)) \<subseteq> set (sy_done demo_books)"
    using demo_books_facts(2) by (auto simp: list_all_iff)
  have dec: "decode_transfer demo_api (take 10240 (hr_Body demo_post)) = Some (''wb'', 300)" by (simp add: demo_api_def)
  let ?L = "lg_db (sy_ledger demo_books)"
  have "\<exists>to amount wid f x e. decode_transfer demo_api (take 10240 (hr_Body demo_post)) = Some (to, amount) \<and>
      Some to = Some wid \<and> hw_body w = [toTransactionJSON (tx_toProto (txColumns x))] \<and>
      tr_from_wallet_id x = Some f \<and> tr_to_wallet_id x = wid \<and> tr_amount_cents x = amount \<and>
      e \<in> set (journal_entries ?L) \<and> je_event_id e = tr_id x \<and>
      map line_view (filter (\<lambda>l. jl_entry_id l = je_id e) (journal_lines ?L)) =
        [(''wallet:'' @ f, ''DEBIT'', amount), (''wallet:'' @ wid, ''CREDIT'', amount)]"
    by (rule http_transfer_in_ledger [OF demo_call_doc good rt run(1) [unfolded demo_stack_def] run(2) fit_long_doc books
        later demo_books_facts(1) all])
  then obtain to amount wid f e where d: "decode_transfer demo_api (take 10240 (hr_Body demo_post)) = Some (to, amount)"
    "Some to = Some wid" and e: "e \<in> set (journal_entries ?L)"
    "map line_view (filter (\<lambda>l. jl_entry_id l = je_id e) (journal_lines ?L)) =
      [(''wallet:'' @ f, ''DEBIT'', amount), (''wallet:'' @ wid, ''CREDIT'', amount)]"
    by (elim exE conjE) (rule that)
  from d dec have "wid = ''wb''" "amount = 300" by simp_all
  with e show ?thesis by (intro exI conjI) simp_all
qed

end
