(* ===== verification/Process.thy ===== *)
theory Process
  imports PlatformClaims Outbox
begin

text \<open>
  The life of a Go service between the end of its start-up and its exit: the goroutines of the
  two \<open>main\<close> functions (the server, the ops server, the relay's loop and its housekeeping), the
  wait for a signal and the clean-up, as an interleaving of atomic steps.  Time is left out
  here: a deadline may pass at any moment (\<open>shutdown_ends\<close> of \<open>PlatformClaims\<close> says when).
  Also the logger (\<open>logging.go\<close>) and \<open>sleep\<close> of \<open>outbox.go\<close>.
\<close>

section \<open>Logging\<close>

datatype level = LevelDebug | LevelInfo | LevelWarn | LevelError

text \<open>The values of the constants of \<open>log/slog\<close>.\<close>

fun level_value :: "level \<Rightarrow> int" where
  "level_value LevelDebug = -4"
| "level_value LevelInfo = 0"
| "level_value LevelWarn = 4"
| "level_value LevelError = 8"

record Logger =
  lg_level :: level
  lg_attrs :: "(string \<times> string) list"

text \<open>\<open>NewLogger\<close>: the logger and the new default logger of the process.\<close>

definition NewLogger :: "environ \<Rightarrow> string \<Rightarrow> Logger \<times> Logger" where
  "NewLogger env service =
     (let level = (if env ''LOG_LEVEL'' = ''debug'' then LevelDebug else LevelInfo);
          logger = \<lparr>lg_level = level, lg_attrs = [(''service'', service)]\<rparr>
      in (logger, logger))"

text \<open>A line is written when its level reaches the level of the handler; it carries the attributes.\<close>

definition log_record ::
    "Logger \<Rightarrow> level \<Rightarrow> string \<Rightarrow> (string \<times> string) list \<Rightarrow> (string \<times> (string \<times> string) list) option" where
  "log_record lg lv msg args =
     (if level_value (lg_level lg) \<le> level_value lv then Some (msg, lg_attrs lg @ args) else None)"

section \<open>Sleeping\<close>

text \<open>\<open>sleep\<close>: the time it returns, when the context is done at \<open>done'\<close> (\<open>None\<close>: never).\<close>

definition sleep :: "timestamp option \<Rightarrow> duration \<Rightarrow> timestamp \<Rightarrow> timestamp" where
  "sleep done' d now =
     (case done' of None \<Rightarrow> now + max 0 d | Some c \<Rightarrow> if c \<le> now then now else min (now + max 0 d) c)"

section \<open>The state of a process\<close>

text \<open>
  \<open>Cleaning cs\<close>: the call at the head of \<open>cs\<close> has begun.  \<open>pr_ctx\<close> tells whether the deadline
  of the context has passed.  \<open>pr_conns\<close> counts the connections of the pool that requests hold,
  \<open>pr_house\<close> says that the housekeeping holds one.
\<close>

datatype main_pc = Waiting | Draining | Cleaning "cleanup list"

datatype relay_pc = Polling | InBatch | Ended

record 'w proc =
  pr_main :: main_pc
  pr_ctx :: "bool option"
  pr_chan :: nat
  pr_accepting :: bool
  pr_inflight :: nat
  pr_conns :: nat
  pr_poolOpen :: bool
  pr_cancelled :: bool
  pr_relay :: relay_pc
  pr_house :: bool
  pr_finished :: "string list"
  pr_opsUp :: bool
  pr_ops :: "'w Ops"
  pr_exit :: "int option"

text \<open>A process without a relay is one whose relay has been stopped before.\<close>

definition new_proc :: "bool \<Rightarrow> 'w Ops \<Rightarrow> 'w proc" where
  "new_proc relay ops =
     \<lparr>pr_main = Waiting, pr_ctx = None, pr_chan = 0, pr_accepting = True, pr_inflight = 0, pr_conns = 0,
      pr_poolOpen = True, pr_cancelled = (\<not> relay), pr_relay = (if relay then Polling else Ended),
      pr_house = False, pr_finished = [], pr_opsUp = True, pr_ops = ops, pr_exit = None\<rparr>"

text \<open>The wallet binds its port in \<open>main\<close>; the gateway has no relay.\<close>

definition wallet_listen :: "go_error option \<Rightarrow> 'w Ops \<Rightarrow> 'w proc run" where
  "wallet_listen err ops = (case err of Some e \<Rightarrow> Exits 1 | None \<Rightarrow> Returns (new_proc True ops))"

definition gateway_listen :: "'w Ops \<Rightarrow> 'w proc" where
  "gateway_listen ops = new_proc False ops"

section \<open>Operations\<close>

text \<open>The goroutine of the gRPC server: \<open>Serve\<close> returns nil after \<open>GracefulStop\<close>.\<close>

definition grpc_serve_returned :: "go_error option \<Rightarrow> 'w proc \<Rightarrow> 'w proc" where
  "grpc_serve_returned err p =
     (let p1 = p\<lparr>pr_accepting := False\<rparr> in
      case err of Some e \<Rightarrow> p1\<lparr>pr_exit := Some 1\<rparr> | None \<Rightarrow> p1)"

text \<open>The goroutine of the HTTP server; \<open>Shutdown\<close> makes \<open>ListenAndServe\<close> return \<open>ErrServerClosed\<close>.\<close>

definition http_serve_returned :: "go_error option \<Rightarrow> bool \<Rightarrow> 'w proc \<Rightarrow> 'w proc" where
  "http_serve_returned err server_closed p =
     (let p1 = p\<lparr>pr_accepting := False\<rparr> in
      if err \<noteq> None \<and> \<not> server_closed then p1\<lparr>pr_exit := Some 1\<rparr> else p1)"

text \<open>The goroutine of the ops server: an error is only logged.\<close>

definition ops_serve_returned :: "'w proc \<Rightarrow> 'w proc" where
  "ops_serve_returned p = p\<lparr>pr_opsUp := False\<rparr>"

text \<open>\<open>Ops.Shutdown\<close>: nothing to do when the server was never started.\<close>

definition ops_Shutdown :: "'w proc \<Rightarrow> 'w proc" where
  "ops_Shutdown p = (if op_server (pr_ops p) = None then p else p\<lparr>pr_opsUp := False\<rparr>)"

text \<open>A signal goes into the channel of capacity one, or is dropped.\<close>

definition notify_signal :: "'w proc \<Rightarrow> 'w proc" where
  "notify_signal p = p\<lparr>pr_chan := max 1 (pr_chan p)\<rparr>"

text \<open>\<open>WaitForSignal\<close> returns when the channel has a value.\<close>

definition WaitForSignal :: "'w proc \<Rightarrow> 'w proc option" where
  "WaitForSignal p = (if 0 < pr_chan p then Some (p\<lparr>pr_chan := pr_chan p - 1\<rparr>) else None)"

text \<open>\<open>BeginShutdown\<close> up to its sleep.\<close>

definition begin_shutdown :: "(int \<Rightarrow> int \<Rightarrow> int \<Rightarrow> int) \<Rightarrow> environ \<Rightarrow> 'w proc \<Rightarrow> 'w proc" where
  "begin_shutdown frac env p =
     (case BeginShutdown frac env 0 (pr_ops p) of
        (Exits c, ops) \<Rightarrow> p\<lparr>pr_ops := ops, pr_exit := Some c\<rparr>
      | (Returns _, ops) \<Rightarrow> p\<lparr>pr_ops := ops, pr_main := Draining\<rparr>)"

text \<open>\<open>Relay.Stop\<close>: cancel, then wait for the channel the loop closes; the housekeeping is not waited for.\<close>

definition relay_Stop :: "'w proc \<Rightarrow> 'w proc \<times> ('w proc \<Rightarrow> bool)" where
  "relay_Stop p = (p\<lparr>pr_cancelled := True\<rparr>, \<lambda>q. pr_relay q = Ended)"

text \<open>
  What a call of the clean-up does when it begins, and when it may return: the graceful stops wait
  for the requests in flight, \<open>Pool.Close\<close> for the connections.
\<close>

definition begin_call :: "string \<Rightarrow> 'w proc \<Rightarrow> 'w proc" where
  "begin_call n p =
     (if n = ''grpcServer.GracefulStop'' then grpc_serve_returned None p
      else if n = ''server.Shutdown'' then http_serve_returned (Some (OtherError ''http: Server closed'')) True p
      else if n = ''relay.Stop'' then fst (relay_Stop p)
      else if n = ''pool.Close'' then p\<lparr>pr_poolOpen := False\<rparr>
      else if n = ''ops.Shutdown'' then ops_Shutdown p
      else p)"

definition call_ready :: "string \<Rightarrow> 'w proc \<Rightarrow> bool" where
  "call_ready n p =
     (if n = ''grpcServer.GracefulStop'' \<or> n = ''server.Shutdown'' then pr_inflight p = 0
      else if n = ''relay.Stop'' then snd (relay_Stop p) p
      else if n = ''pool.Close'' then pr_conns p = 0 \<and> \<not> pr_house p \<and> pr_relay p \<noteq> InBatch
      else True)"

fun enter :: "cleanup list \<Rightarrow> 'w proc \<Rightarrow> 'w proc" where
  "enter [] p = p\<lparr>pr_main := Cleaning [], pr_exit := Some 0\<rparr>"
| "enter (WithTimeout d # cs) p = enter cs (p\<lparr>pr_ctx := Some False\<rparr>)"
| "enter (Call n # cs) p = (begin_call n p)\<lparr>pr_main := Cleaning (Call n # cs)\<rparr>"
| "enter (CallCtx n # cs) p = (begin_call n p)\<lparr>pr_main := Cleaning (CallCtx n # cs)\<rparr>"

definition call_returned :: "string \<Rightarrow> cleanup list \<Rightarrow> 'w proc \<Rightarrow> 'w proc" where
  "call_returned n cs p = enter cs (p\<lparr>pr_finished := pr_finished p @ [n]\<rparr>)"

section \<open>Steps\<close>

text \<open>
  The steps of a running process: signals, deadlines, requests with their connections, the relay
  and its housekeeping, failing servers, and \<open>main\<close> itself.  \<open>fail\<close> is what the goroutine of the
  main server does with an error, \<open>cs\<close> the clean-up.  The relay's loop checks its context before
  a batch, and again after a failed one; a context that is cancelled gives the housekeeping no
  connection.
\<close>

inductive proc_step ::
    "(go_error \<Rightarrow> 'w proc \<Rightarrow> 'w proc) \<Rightarrow> (int \<Rightarrow> int \<Rightarrow> int \<Rightarrow> int) \<Rightarrow> environ \<Rightarrow> cleanup list \<Rightarrow>
     'w proc \<Rightarrow> 'w proc \<Rightarrow> bool"
  for fail frac env cs where
  signal: "pr_exit p = None \<Longrightarrow> proc_step fail frac env cs p (notify_signal p)"
| wait: "pr_exit p = None \<Longrightarrow> pr_main p = Waiting \<Longrightarrow> WaitForSignal p = Some q \<Longrightarrow>
    proc_step fail frac env cs p (begin_shutdown frac env q)"
| drained: "pr_exit p = None \<Longrightarrow> pr_main p = Draining \<Longrightarrow> proc_step fail frac env cs p (enter cs p)"
| returned: "pr_exit p = None \<Longrightarrow> pr_main p = Cleaning (Call n # rest) \<Longrightarrow> call_ready n p \<Longrightarrow>
    proc_step fail frac env cs p (call_returned n rest p)"
| returned_ctx: "pr_exit p = None \<Longrightarrow> pr_main p = Cleaning (CallCtx n # rest) \<Longrightarrow> call_ready n p \<or> pr_ctx p = Some True \<Longrightarrow>
    proc_step fail frac env cs p (call_returned n rest p)"
| deadline: "pr_exit p = None \<Longrightarrow> pr_ctx p = Some False \<Longrightarrow> proc_step fail frac env cs p (p\<lparr>pr_ctx := Some True\<rparr>)"
| forced: "pr_exit p = None \<Longrightarrow> pr_main p \<noteq> Waiting \<Longrightarrow> proc_step fail frac env cs p (p\<lparr>pr_exit := Some 1\<rparr>)"
| accept: "pr_exit p = None \<Longrightarrow> pr_accepting p \<Longrightarrow> proc_step fail frac env cs p (p\<lparr>pr_inflight := pr_inflight p + 1\<rparr>)"
| answer: "pr_exit p = None \<Longrightarrow> pr_conns p < pr_inflight p \<Longrightarrow>
    proc_step fail frac env cs p (p\<lparr>pr_inflight := pr_inflight p - 1\<rparr>)"
| acquire: "pr_exit p = None \<Longrightarrow> pr_poolOpen p \<Longrightarrow> pr_conns p < pr_inflight p \<Longrightarrow>
    proc_step fail frac env cs p (p\<lparr>pr_conns := pr_conns p + 1\<rparr>)"
| release: "pr_exit p = None \<Longrightarrow> 0 < pr_conns p \<Longrightarrow> proc_step fail frac env cs p (p\<lparr>pr_conns := pr_conns p - 1\<rparr>)"
| batch: "pr_exit p = None \<Longrightarrow> pr_relay p = Polling \<Longrightarrow> \<not> pr_cancelled p \<Longrightarrow>
    proc_step fail frac env cs p (p\<lparr>pr_relay := InBatch\<rparr>)"
| batch_end: "pr_exit p = None \<Longrightarrow> pr_relay p = InBatch \<Longrightarrow> proc_step fail frac env cs p (p\<lparr>pr_relay := Polling\<rparr>)"
| loop_return: "pr_exit p = None \<Longrightarrow> pr_relay p \<noteq> Ended \<Longrightarrow> pr_cancelled p \<Longrightarrow>
    proc_step fail frac env cs p (p\<lparr>pr_relay := Ended\<rparr>)"
| house_begin: "pr_exit p = None \<Longrightarrow> pr_poolOpen p \<Longrightarrow> \<not> pr_cancelled p \<Longrightarrow>
    proc_step fail frac env cs p (p\<lparr>pr_house := True\<rparr>)"
| house_end: "pr_exit p = None \<Longrightarrow> proc_step fail frac env cs p (p\<lparr>pr_house := False\<rparr>)"
| serve_failed: "pr_exit p = None \<Longrightarrow> pr_accepting p \<Longrightarrow> proc_step fail frac env cs p (fail e p)"
| ops_failed: "pr_exit p = None \<Longrightarrow> proc_step fail frac env cs p (ops_serve_returned p)"

abbreviation wallet_step ::
    "(int \<Rightarrow> int \<Rightarrow> int \<Rightarrow> int) \<Rightarrow> environ \<Rightarrow> 'w proc \<Rightarrow> 'w proc \<Rightarrow> bool" where
  "wallet_step frac env \<equiv> proc_step (\<lambda>e. grpc_serve_returned (Some e)) frac env wallet_cleanup"

abbreviation gateway_step ::
    "(int \<Rightarrow> int \<Rightarrow> int \<Rightarrow> int) \<Rightarrow> environ \<Rightarrow> 'w proc \<Rightarrow> 'w proc \<Rightarrow> bool" where
  "gateway_step frac env \<equiv> proc_step (\<lambda>e. http_serve_returned (Some e) False) frac env gateway_cleanup"

section \<open>The invariant\<close>

definition begun :: "'w proc \<Rightarrow> string list" where
  "begun p = pr_finished p @ (case pr_main p of Cleaning rest \<Rightarrow> take 1 (call_names rest) | _ \<Rightarrow> [])"

text \<open>What holds of a process in terms of the calls that have finished and begun.\<close>

definition stopping_ok :: "string list \<Rightarrow> string list \<Rightarrow> 'w proc \<Rightarrow> bool" where
  "stopping_ok fin beg p \<longleftrightarrow> pr_conns p \<le> pr_inflight p \<and>
     (''grpcServer.GracefulStop'' \<in> set beg \<or> ''server.Shutdown'' \<in> set beg \<longrightarrow> \<not> pr_accepting p) \<and>
     (''grpcServer.GracefulStop'' \<in> set fin \<longrightarrow> pr_inflight p = 0) \<and>
     (''relay.Stop'' \<in> set beg \<longrightarrow> pr_cancelled p) \<and>
     (''relay.Stop'' \<in> set fin \<longrightarrow> pr_relay p = Ended) \<and> (\<not> pr_poolOpen p \<longrightarrow> ''pool.Close'' \<in> set beg)"

fun calling :: "cleanup list \<Rightarrow> bool" where
  "calling (Call n # cs) = True"
| "calling (CallCtx n # cs) = True"
| "calling cs = False"

definition proc_inv :: "cleanup list \<Rightarrow> 'w proc \<Rightarrow> bool" where
  "proc_inv cs p \<longleftrightarrow> stopping_ok (pr_finished p) (begun p) p \<and>
     (case pr_main p of
        Cleaning rest \<Rightarrow> pr_finished p @ call_names rest = call_names cs \<and> set rest \<subseteq> set cs \<and>
          (pr_exit p = None \<longrightarrow> calling rest)
      | _ \<Rightarrow> pr_finished p = []) \<and>
     (pr_main p \<noteq> Waiting \<longrightarrow> op_draining (pr_ops p)) \<and>
     (pr_exit p = None \<and> pr_main p \<in> {Waiting, Draining} \<longrightarrow> pr_accepting p) \<and>
     (pr_exit p = Some 0 \<longrightarrow> pr_main p = Cleaning [])"

end
