(* ===== verification/ProcessClaims.thy ===== *)
theory ProcessClaims
  imports Process
begin

text \<open>The invariant of a running service, and what it says about the order of its clean-up.\<close>

section \<open>Calls\<close>

lemma begin_call_fields [simp]:
  "pr_finished (begin_call n p) = pr_finished p" "pr_conns (begin_call n p) = pr_conns p"
  "pr_inflight (begin_call n p) = pr_inflight p" "pr_relay (begin_call n p) = pr_relay p"
  "pr_ops (begin_call n p) = pr_ops p" "pr_exit (begin_call n p) = pr_exit p" "pr_house (begin_call n p) = pr_house p"
  by (simp_all add: begin_call_def grpc_serve_returned_def http_serve_returned_def relay_Stop_def ops_Shutdown_def)

lemma begin_call_accepting:
  "pr_accepting (begin_call n p) \<longleftrightarrow> pr_accepting p \<and> n \<noteq> ''grpcServer.GracefulStop'' \<and> n \<noteq> ''server.Shutdown''"
  by (simp add: begin_call_def grpc_serve_returned_def http_serve_returned_def relay_Stop_def ops_Shutdown_def)

lemma begin_call_cancelled: "pr_cancelled (begin_call n p) \<longleftrightarrow> pr_cancelled p \<or> n = ''relay.Stop''"
  by (simp add: begin_call_def grpc_serve_returned_def http_serve_returned_def relay_Stop_def ops_Shutdown_def)

lemma begin_call_pool: "pr_poolOpen (begin_call n p) \<longleftrightarrow> pr_poolOpen p \<and> n \<noteq> ''pool.Close''"
  by (simp add: begin_call_def grpc_serve_returned_def http_serve_returned_def relay_Stop_def ops_Shutdown_def)

lemma begin_call_ok:
  "stopping_ok (pr_finished p) (pr_finished p) p \<Longrightarrow> stopping_ok (pr_finished p) (pr_finished p @ [n]) (begin_call n p)"
  unfolding stopping_ok_def by (auto simp: begin_call_accepting begin_call_cancelled begin_call_pool)

lemma stopping_ok_cong:
  assumes "stopping_ok fin beg p" and "pr_conns q = pr_conns p" and "pr_inflight q = pr_inflight p"
    and "pr_accepting q = pr_accepting p" and "pr_relay q = pr_relay p" and "pr_poolOpen q = pr_poolOpen p"
    and "pr_cancelled q = pr_cancelled p"
  shows "stopping_ok fin beg q"
  using assms by (simp add: stopping_ok_def)

text \<open>Entering the rest of the clean-up establishes the invariant.\<close>

lemma enter_inv:
  "stopping_ok (pr_finished p) (pr_finished p) p \<Longrightarrow> pr_finished p @ call_names rest = call_names cs \<Longrightarrow>
   set rest \<subseteq> set cs \<Longrightarrow> op_draining (pr_ops p) \<Longrightarrow> pr_exit p = None \<Longrightarrow> proc_inv cs (enter rest p)"
proof (induction rest p rule: enter.induct)
  case (1 p)
  then show ?case by (simp add: proc_inv_def begun_def stopping_ok_def)
next
  case (2 d rest p)
  then show ?case by (simp add: stopping_ok_def)
next
  case (3 n rest p)
  have "stopping_ok (pr_finished p) (pr_finished p @ [n]) (enter (Call n # rest) p)"
    using begin_call_ok [OF 3(1)] by (rule stopping_ok_cong) simp_all
  then show ?case using 3 by (simp add: proc_inv_def begun_def)
next
  case (4 n rest p)
  have "stopping_ok (pr_finished p) (pr_finished p @ [n]) (enter (CallCtx n # rest) p)"
    using begin_call_ok [OF 4(1)] by (rule stopping_ok_cong) simp_all
  then show ?case using 4 by (simp add: proc_inv_def begun_def)
qed

text \<open>The calls that end with their context are the shutdowns of the HTTP and the ops server.\<close>

definition ctx_calls_ok :: "cleanup list \<Rightarrow> bool" where
  "ctx_calls_ok cs \<longleftrightarrow> (\<forall>n. CallCtx n \<in> set cs \<longrightarrow> n = ''server.Shutdown'' \<or> n = ''ops.Shutdown'')"

lemma cleanups_ok: "ctx_calls_ok wallet_cleanup" "ctx_calls_ok gateway_cleanup"
  by (auto simp: ctx_calls_ok_def wallet_cleanup_def gateway_cleanup_def)

text \<open>When \<open>main\<close> may enter the rest of the clean-up.\<close>

definition may_enter :: "cleanup list \<Rightarrow> cleanup list \<Rightarrow> 'w proc \<Rightarrow> bool" where
  "may_enter cs rest p \<longleftrightarrow> stopping_ok (pr_finished p) (pr_finished p) p \<and>
     pr_finished p @ call_names rest = call_names cs \<and> set rest \<subseteq> set cs \<and> op_draining (pr_ops p) \<and> pr_exit p = None"

lemma enter_ok: "may_enter cs rest p \<Longrightarrow> proc_inv cs (enter rest p)"
  unfolding may_enter_def by (blast intro: enter_inv)

lemma call_returned_ok:
  assumes "proc_inv cs p" and "pr_main p = Cleaning (c # rest)" and "pr_exit p = None"
    and "c = Call n \<and> call_ready n p \<or> c = CallCtx n \<and> ctx_calls_ok cs"
  shows "may_enter cs rest (p\<lparr>pr_finished := pr_finished p @ [n]\<rparr>)"
proof -
  let ?q = "p\<lparr>pr_finished := pr_finished p @ [n]\<rparr>"
  have names: "call_names (c # rest) = n # call_names rest" using assms(4) by auto
  have inv: "stopping_ok (pr_finished p) (pr_finished p @ [n]) p" "pr_finished p @ n # call_names rest = call_names cs"
    "set (c # rest) \<subseteq> set cs" "op_draining (pr_ops p)"
    using assms(1,2) names by (auto simp: proc_inv_def begun_def)
  have "n = ''grpcServer.GracefulStop'' \<Longrightarrow> pr_inflight p = 0" "n = ''relay.Stop'' \<Longrightarrow> pr_relay p = Ended"
    using assms(4) inv(3) by (auto simp: call_ready_def relay_Stop_def ctx_calls_ok_def)
  then have "stopping_ok (pr_finished ?q) (pr_finished ?q) ?q" using inv(1) by (auto simp: stopping_ok_def)
  then show ?thesis using inv assms(3) by (simp add: may_enter_def)
qed

lemmas call_returned_inv = enter_ok [OF call_returned_ok, folded call_returned_def]

lemma BeginShutdown_cases:
  obtains o1 where "BeginShutdown frac env t o' = (Exits 1, o1)"
  | x where "BeginShutdown frac env t o' = (Returns x, SetDraining o')"
proof -
  have env: "EnvDuration frac env k d = Exits 1 \<or> (\<exists>x. EnvDuration frac env k d = Returns x)" for k d
    by (auto simp: EnvDuration_def split: option.split)
  from env [of "''SHUTDOWN_DELAY''" 5000000000] env [of "''SHUTDOWN_TIMEOUT''" 20000000000] that show ?thesis
    by (elim disjE exE) (simp_all add: BeginShutdown_def)
qed

section \<open>The invariant holds\<close>

text \<open>Steps that leave \<open>main\<close> where it is.\<close>

lemma proc_inv_frame:
  assumes inv: "proc_inv cs p" and same: "pr_main q = pr_main p" "pr_finished q = pr_finished p" "pr_ops q = pr_ops p"
    and stop: "stopping_ok (pr_finished p) (begun p) p \<Longrightarrow> stopping_ok (pr_finished p) (begun p) q"
    and exit: "pr_exit q = pr_exit p \<or> pr_exit q = Some 1" and acc: "pr_exit q = None \<Longrightarrow> pr_accepting q = pr_accepting p"
  shows "proc_inv cs q"
proof -
  have "begun q = begun p" using same by (simp add: begun_def)
  with assms show ?thesis unfolding proc_inv_def by (auto split: main_pc.splits)
qed

lemma begun_finished: "set (pr_finished p) \<subseteq> set (begun p)"
  by (simp add: begun_def)

lemma new_proc_inv: "proc_inv cs (new_proc relay ops)"
  by (simp add: new_proc_def proc_inv_def begun_def stopping_ok_def)

section \<open>Settling\<close>

text \<open>The requests finish, the housekeeping ends and so does a relay that has been cancelled.\<close>

definition relay_rest :: "bool \<Rightarrow> relay_pc \<Rightarrow> relay_pc" where
  "relay_rest cancelled r = (if cancelled then Ended else if r = InBatch then Polling else r)"

definition settled :: "'w proc \<Rightarrow> 'w proc" where
  "settled p = p\<lparr>pr_conns := 0, pr_inflight := 0, pr_house := False,
     pr_relay := relay_rest (pr_cancelled p) (pr_relay p)\<rparr>"

lemma release_all:
  "pr_exit p = None \<Longrightarrow> (proc_step fail frac env cs)\<^sup>*\<^sup>* p (p\<lparr>pr_conns := 0\<rparr>)"
proof (induction "pr_conns p" arbitrary: p)
  case (Suc n)
  let ?q = "p\<lparr>pr_conns := pr_conns p - 1\<rparr>"
  have "proc_step fail frac env cs p ?q" using Suc.hyps(2) Suc.prems by (intro proc_step.release) simp_all
  moreover have "(proc_step fail frac env cs)\<^sup>*\<^sup>* ?q (?q\<lparr>pr_conns := 0\<rparr>)"
    using Suc.hyps(2) Suc.prems by (intro Suc.hyps(1)) simp_all
  ultimately show ?case by (simp add: converse_rtranclp_into_rtranclp)
next
  case 0
  then have "p\<lparr>pr_conns := 0\<rparr> = p" by (cases p) simp
  then show ?case by simp
qed

lemma answer_all:
  "pr_exit p = None \<Longrightarrow> pr_conns p = 0 \<Longrightarrow> (proc_step fail frac env cs)\<^sup>*\<^sup>* p (p\<lparr>pr_inflight := 0\<rparr>)"
proof (induction "pr_inflight p" arbitrary: p)
  case (Suc n)
  let ?q = "p\<lparr>pr_inflight := pr_inflight p - 1\<rparr>"
  have "proc_step fail frac env cs p ?q" using Suc.hyps(2) Suc.prems by (intro proc_step.answer) simp_all
  moreover have "(proc_step fail frac env cs)\<^sup>*\<^sup>* ?q (?q\<lparr>pr_inflight := 0\<rparr>)"
    using Suc.hyps(2) Suc.prems by (intro Suc.hyps(1)) simp_all
  ultimately show ?case by (simp add: converse_rtranclp_into_rtranclp)
next
  case 0
  then have "p\<lparr>pr_inflight := 0\<rparr> = p" by (cases p) simp
  then show ?case by simp
qed

lemma relay_settles:
  assumes "pr_exit p = None"
  shows "(proc_step fail frac env cs)\<^sup>*\<^sup>* p (p\<lparr>pr_relay := relay_rest (pr_cancelled p) (pr_relay p)\<rparr>)"
proof (cases "relay_rest (pr_cancelled p) (pr_relay p) = pr_relay p")
  case True
  then have "p\<lparr>pr_relay := relay_rest (pr_cancelled p) (pr_relay p)\<rparr> = p" by (cases p) simp
  then show ?thesis by simp
next
  case False
  then show ?thesis
    using proc_step.loop_return [OF assms] proc_step.batch_end [OF assms]
    by (auto simp: relay_rest_def split: if_splits intro!: r_into_rtranclp)
qed

lemma settles:
  assumes "pr_exit p = None"
  shows "(proc_step fail frac env cs)\<^sup>*\<^sup>* p (settled p)"
proof -
  let ?R = "proc_step fail frac env cs"
  let ?p1 = "p\<lparr>pr_conns := 0\<rparr>" and ?p2 = "p\<lparr>pr_conns := 0, pr_inflight := 0\<rparr>"
  let ?p3 = "?p2\<lparr>pr_house := False\<rparr>"
  have "?R\<^sup>*\<^sup>* p ?p1" by (rule release_all [OF assms])
  also have "?R\<^sup>*\<^sup>* ?p1 ?p2" using answer_all [of ?p1 fail frac env cs] assms by simp
  also have "?R\<^sup>*\<^sup>* ?p2 ?p3" using assms by (intro r_into_rtranclp proc_step.house_end) simp
  also have "?R\<^sup>*\<^sup>* ?p3 (settled p)" using relay_settles [of ?p3 fail frac env cs] assms by (simp add: settled_def)
  finally show ?thesis .
qed

lemma settled_ready:
  assumes "proc_inv cs p" and "pr_main p = Cleaning (c # rest)" and "c = Call n \<or> c = CallCtx n"
  shows "call_ready n (settled p)"
proof -
  have "n \<in> set (begun p)" using assms(2,3) by (auto simp: begun_def)
  then have "n = ''relay.Stop'' \<Longrightarrow> pr_cancelled p" using assms(1) by (auto simp: proc_inv_def stopping_ok_def)
  then show ?thesis by (auto simp: call_ready_def relay_Stop_def settled_def relay_rest_def)
qed

section \<open>A service that stops gracefully\<close>

text \<open>
  What the two services share: an error of the main server ends the process with code 1, and the
  calls of the clean-up that end with their context are those of \<open>ctx_calls_ok\<close>.
\<close>

locale graceful =
  fixes fail :: "go_error \<Rightarrow> 'w proc \<Rightarrow> 'w proc" and cs :: "cleanup list"
  assumes fail_exits: "fail e p = p\<lparr>pr_accepting := False, pr_exit := Some 1\<rparr>" and ctx: "ctx_calls_ok cs"
begin

lemma proc_inv_step:
  assumes "proc_step fail frac env cs p q" and inv: "proc_inv cs p"
  shows "proc_inv cs q"
  using assms(1)
proof (cases rule: proc_step.cases)
  case (wait q')
  then have q': "q' = p\<lparr>pr_chan := pr_chan p - 1\<rparr>" by (auto simp: WaitForSignal_def split: if_splits)
  have p: "stopping_ok [] [] p" "pr_finished p = []" "pr_accepting p"
    using inv wait by (auto simp: proc_inv_def begun_def)
  show ?thesis
  proof (rule BeginShutdown_cases [of frac env 0 "pr_ops q'"])
    fix o1 assume "BeginShutdown frac env 0 (pr_ops q') = (Exits 1, o1)"
    then show ?thesis using p wait q' by (simp add: begin_shutdown_def proc_inv_def begun_def stopping_ok_def)
  next
    fix x assume "BeginShutdown frac env 0 (pr_ops q') = (Returns x, SetDraining (pr_ops q'))"
    then show ?thesis
      using p wait q' by (simp add: begin_shutdown_def proc_inv_def begun_def stopping_ok_def SetDraining_def)
  qed
next
  case drained
  then have p: "stopping_ok [] [] p" "pr_finished p = []" "op_draining (pr_ops p)"
    using inv by (auto simp: proc_inv_def begun_def)
  show ?thesis unfolding drained(1) by (rule enter_inv) (use p drained in simp_all)
next
  case (returned n rest)
  then show ?thesis using call_returned_inv [OF inv] by simp
next
  case (returned_ctx n rest)
  then show ?thesis using call_returned_inv [OF inv] ctx by simp
next
  case accept
  have "''grpcServer.GracefulStop'' \<notin> set (pr_finished p)"
    using inv accept begun_finished [of p] by (auto simp: proc_inv_def stopping_ok_def)
  then show ?thesis unfolding accept(1) by (intro proc_inv_frame [OF inv]) (auto simp: stopping_ok_def)
qed (simp_all only:, (rule proc_inv_frame [OF inv]; simp add: stopping_ok_def notify_signal_def ops_serve_returned_def fail_exits; force?)+)

lemma proc_inv_run:
  assumes "(proc_step fail frac env cs)\<^sup>*\<^sup>* p q" and "proc_inv cs p"
  shows "proc_inv cs q"
  using assms by (induction rule: rtranclp_induct) (auto intro: proc_inv_step)

lemma call_completes:
  assumes "proc_inv cs p" and "pr_main p = Cleaning (c # rest)" and "c = Call n \<or> c = CallCtx n" and "pr_exit p = None"
  obtains q where "(proc_step fail frac env cs)\<^sup>*\<^sup>* p (enter rest q)" and "may_enter cs rest q"
proof -
  let ?R = "proc_step fail frac env cs" and ?s = "settled p"
  have s: "pr_main ?s = Cleaning (c # rest)" "pr_exit ?s = None" using assms(2,4) by (simp_all add: settled_def)
  have steps: "?R\<^sup>*\<^sup>* p ?s" by (rule settles [OF assms(4)])
  then have inv: "proc_inv cs ?s" using assms(1) by (rule proc_inv_run)
  have ready: "call_ready n ?s" by (rule settled_ready [OF assms(1-3)])
  let ?q = "?s\<lparr>pr_finished := pr_finished ?s @ [n]\<rparr>"
  have "may_enter cs rest ?q" by (rule call_returned_ok [OF inv s]) (use assms(3) ctx ready in blast)
  moreover have "?R ?s (enter rest ?q)"
    using assms(3) s ready proc_step.returned [of ?s n rest fail frac env cs]
      proc_step.returned_ctx [of ?s n rest fail frac env cs] by (auto simp: call_returned_def)
  then have "?R\<^sup>*\<^sup>* p (enter rest ?q)" using steps by simp
  ultimately show ?thesis using that by blast
qed

lemma enter_exits:
  "may_enter cs rest p \<Longrightarrow> \<exists>q. (proc_step fail frac env cs)\<^sup>*\<^sup>* (enter rest p) q \<and> pr_exit q = Some 0"
proof (induction rest arbitrary: p)
  case Nil
  then show ?case by (intro exI [of _ "enter [] p"]) simp
next
  case (Cons c rest)
  show ?case
  proof (cases "\<exists>d. c = WithTimeout d")
    case True
    then obtain d where c: "c = WithTimeout d" by blast
    have "may_enter cs rest (p\<lparr>pr_ctx := Some False\<rparr>)" using Cons.prems c by (simp add: may_enter_def stopping_ok_def)
    from Cons.IH [OF this] show ?thesis by (simp add: c)
  next
    case False
    then obtain n where c: "c = Call n \<or> c = CallCtx n" by (cases c) auto
    then have main: "pr_main (enter (c # rest) p) = Cleaning (c # rest)" "pr_exit (enter (c # rest) p) = None"
      using Cons.prems by (auto simp: may_enter_def)
    from call_completes [OF enter_ok [OF Cons.prems] main(1) c main(2)]
    obtain q where "(proc_step fail frac env cs)\<^sup>*\<^sup>* (enter (c # rest) p) (enter rest q)" "may_enter cs rest q" .
    with Cons.IH show ?thesis by (meson rtranclp_trans)
  qed
qed

lemma stops_cleanly:
  assumes inv: "proc_inv cs p" and "pr_exit p = None"
    and settings: "EnvDuration frac env ''SHUTDOWN_DELAY'' 5000000000 = Returns delay"
      "EnvDuration frac env ''SHUTDOWN_TIMEOUT'' 20000000000 = Returns timeout"
  shows "\<exists>q. (proc_step fail frac env cs)\<^sup>*\<^sup>* p q \<and> pr_exit q = Some 0"
proof -
  let ?R = "proc_step fail frac env cs"
  have drain: "\<exists>q. ?R\<^sup>*\<^sup>* p q \<and> pr_exit q = Some 0" if "pr_main p = Draining" "proc_inv cs p" "pr_exit p = None" for p
  proof -
    have "may_enter cs cs p" using that by (auto simp: may_enter_def proc_inv_def begun_def)
    from enter_exits [OF this] proc_step.drained [OF that(3,1)]
    show ?thesis by (meson converse_rtranclp_into_rtranclp)
  qed
  show ?thesis
  proof (cases "pr_main p")
    case Waiting
    let ?q = "begin_shutdown frac env (p\<lparr>pr_chan := max 1 (pr_chan p) - 1\<rparr>)"
    have "?R p (notify_signal p)" by (rule proc_step.signal [OF assms(2)])
    moreover have "?R (notify_signal p) ?q"
      by (rule proc_step.wait) (use Waiting assms(2) in \<open>simp_all add: notify_signal_def WaitForSignal_def\<close>)
    ultimately have steps: "?R\<^sup>*\<^sup>* p ?q" by simp
    then have "proc_inv cs ?q" using inv by (rule proc_inv_run)
    moreover have "pr_main ?q = Draining" "pr_exit ?q = None"
      using settings assms(2) by (simp_all add: begin_shutdown_def BeginShutdown_def)
    ultimately show ?thesis using drain [of ?q] steps by (meson rtranclp_trans)
  next
    case Draining
    then show ?thesis using drain inv assms(2) by blast
  next
    case (Cleaning rest)
    then have "calling rest" using inv assms(2) by (simp add: proc_inv_def)
    then obtain c n rest' where rest: "rest = c # rest'" and c: "c = Call n \<or> c = CallCtx n"
      by (cases rest rule: calling.cases) auto
    have "pr_main p = Cleaning (c # rest')" using Cleaning rest by simp
    from call_completes [OF inv this c assms(2)]
    obtain q where "?R\<^sup>*\<^sup>* p (enter rest' q)" "may_enter cs rest' q" .
    with enter_exits show ?thesis by (meson rtranclp_trans)
  qed
qed

end

interpretation wallet_service: graceful "\<lambda>e. grpc_serve_returned (Some e)" wallet_cleanup
  by unfold_locales (simp_all add: grpc_serve_returned_def cleanups_ok)


lemmas wallet_inv = wallet_service.proc_inv_run [OF _ new_proc_inv]


section \<open>Properties\<close>

lemma prefix_order:
  assumes "fin @ take 1 rest @ drop 1 rest = [a, b, c, d, e]" and "d \<in> set (fin @ take 1 rest)" and "distinct [a, b, c, d, e]"
  shows "{a, b, c} \<subseteq> set fin"
  using assms by (auto simp: append_eq_Cons_conv Cons_eq_append_conv)

lemma wallet_call_names:
  "call_names wallet_cleanup =
     [''grpcServer.GracefulStop'', ''relay.Stop'', ''writer.Close'', ''pool.Close'', ''ops.Shutdown'']"
  by (simp add: wallet_cleanup_def)

lemma wallet_pool_closed:
  assumes "proc_inv wallet_cleanup p" and "\<not> pr_poolOpen p"
  shows "{''grpcServer.GracefulStop'', ''relay.Stop'', ''writer.Close''} \<subseteq> set (pr_finished p)"
proof -
  have beg: "''pool.Close'' \<in> set (begun p)" using assms by (simp add: proc_inv_def stopping_ok_def)
  then obtain rest where rest: "pr_main p = Cleaning rest"
    using assms(1) by (cases "pr_main p") (auto simp: proc_inv_def begun_def)
  show ?thesis
  proof (rule prefix_order [where d = "''pool.Close''" and e = "''ops.Shutdown''" and rest = "call_names rest"])
    show "pr_finished p @ take 1 (call_names rest) @ drop 1 (call_names rest) =
        [''grpcServer.GracefulStop'', ''relay.Stop'', ''writer.Close'', ''pool.Close'', ''ops.Shutdown'']"
      using assms(1) rest wallet_call_names by (simp add: proc_inv_def)
    show "''pool.Close'' \<in> set (pr_finished p @ take 1 (call_names rest))" using beg rest by (simp add: begun_def)
  qed simp
qed

definition demo_ops :: "unit Ops" where
  "demo_ops = Start (\<lambda>_. []) (AddCheck ''postgres'' (\<lambda>_. None) NewOps)"

text \<open>
  C37: The wallet stops in order, whatever its goroutines, its requests and the signals do: it takes
  requests until it has been marked not ready for the delay; its pool is closed only when no
  request is in flight, the relay's loop has returned and the Kafka writer is closed; it exits
  with code 0 only after every call of the clean-up.
\<close>

theorem wallet_stops_in_order:
  assumes "wallet_listen None ops = Returns p0" and "(wallet_step frac env)\<^sup>*\<^sup>* p0 p"
  shows "(pr_exit p = None \<and> \<not> pr_accepting p \<longrightarrow> op_draining (pr_ops p)) \<and>
    (\<not> pr_poolOpen p \<longrightarrow> pr_inflight p = 0 \<and> pr_relay p = Ended \<and> ''writer.Close'' \<in> set (pr_finished p)) \<and>
    (pr_exit p = Some 0 \<longrightarrow> pr_finished p = call_names wallet_cleanup \<and> op_draining (pr_ops p))"
proof -
  have inv: "proc_inv wallet_cleanup p" using assms by (auto simp: wallet_listen_def intro: wallet_inv)
  then have "pr_exit p = None \<and> \<not> pr_accepting p \<longrightarrow> op_draining (pr_ops p)"
    by (cases "pr_main p") (auto simp: proc_inv_def)
  moreover have "\<not> pr_poolOpen p \<longrightarrow> pr_inflight p = 0 \<and> pr_relay p = Ended \<and> ''writer.Close'' \<in> set (pr_finished p)"
    using inv wallet_pool_closed [OF inv] by (simp add: proc_inv_def stopping_ok_def)
  moreover have "pr_exit p = Some 0 \<longrightarrow> pr_finished p = call_names wallet_cleanup \<and> op_draining (pr_ops p)"
    using inv by (auto simp: proc_inv_def)
  ultimately show ?thesis by blast
qed

definition signalled :: "unit proc" where
  "signalled = begin_shutdown (\<lambda>_ _ _. 0) (\<lambda>_. []) (new_proc True demo_ops)"

definition stopping :: "unit proc" where
  "stopping = enter wallet_cleanup signalled"

lemma demo_wallet_steps: "(wallet_step (\<lambda>_ _ _. 0) (\<lambda>_. []))\<^sup>*\<^sup>* (new_proc True demo_ops) stopping"
proof -
  let ?R = "wallet_step (\<lambda>_ _ _. 0) (\<lambda>_. [])" and ?p = "new_proc True demo_ops"
  have "?R ?p (notify_signal ?p)" by (rule proc_step.signal) (simp add: new_proc_def)
  moreover have "?R (notify_signal ?p) signalled"
    unfolding signalled_def by (rule proc_step.wait) (simp_all add: notify_signal_def WaitForSignal_def new_proc_def)
  moreover have "?R signalled stopping"
    unfolding stopping_def by (rule proc_step.drained)
      (simp_all add: signalled_def begin_shutdown_def BeginShutdown_def EnvDuration_def new_proc_def)
  ultimately show ?thesis by (meson converse_rtranclp_into_rtranclp rtranclp.rtrancl_refl)
qed

lemma demo_stopping:
  "\<not> pr_accepting stopping \<and> pr_exit stopping = None" and "pr_poolOpen stopping"
  by (simp_all add: stopping_def wallet_cleanup_def signalled_def begin_shutdown_def BeginShutdown_def EnvDuration_def
      new_proc_def begin_call_def grpc_serve_returned_def)

theorem wallet_stops_in_order_witness:
  "\<not> pr_accepting stopping \<and> op_draining (pr_ops stopping)"
  using wallet_stops_in_order [of demo_ops, OF _ demo_wallet_steps] demo_stopping by (simp add: wallet_listen_def)



section \<open>More on stopping\<close>

text \<open>
  The gateway waits for its requests at most until the deadline of its context: a request that
  takes longer is still in flight when the connection to the wallet is closed under it.
\<close>

definition cut_off :: "unit proc" where
  "cut_off = (let p1 = (gateway_listen demo_ops)\<lparr>pr_inflight := 1\<rparr>;
     p2 = enter gateway_cleanup (begin_shutdown (\<lambda>_ _ _. 0) (\<lambda>_. []) p1);
     p3 = call_returned ''server.Shutdown'' (drop 2 gateway_cleanup) (p2\<lparr>pr_ctx := Some True\<rparr>)
   in call_returned ''walletConn.Close'' (drop 3 gateway_cleanup) p3)"

lemma gateway_cuts_off_request:
  "(gateway_step (\<lambda>_ _ _. 0) (\<lambda>_. []))\<^sup>*\<^sup>* (gateway_listen demo_ops) cut_off"
  "pr_inflight cut_off = 1 \<and> ''walletConn.Close'' \<in> set (pr_finished cut_off)"
proof -
  note defs = gateway_listen_def new_proc_def notify_signal_def WaitForSignal_def begin_shutdown_def BeginShutdown_def
    EnvDuration_def gateway_cleanup_def begin_call_def http_serve_returned_def call_returned_def
  let ?R = "gateway_step (\<lambda>_ _ _. 0) (\<lambda>_. [])" and ?p = "gateway_listen demo_ops"
  let ?p1 = "?p\<lparr>pr_inflight := 1\<rparr>"
  let ?s = "begin_shutdown (\<lambda>_ _ _. 0) (\<lambda>_. []) ?p1"
  let ?p2 = "enter gateway_cleanup ?s"
  let ?p3 = "call_returned ''server.Shutdown'' (drop 2 gateway_cleanup) (?p2\<lparr>pr_ctx := Some True\<rparr>)"
  have "?R ?p ?p1" using proc_step.accept [of ?p] by (simp add: gateway_listen_def new_proc_def)
  moreover have "?R ?p1 (notify_signal ?p1)" by (rule proc_step.signal) (simp add: defs)
  moreover have "?R (notify_signal ?p1) ?s" by (rule proc_step.wait) (simp_all add: defs)
  moreover have "?R ?s ?p2" by (rule proc_step.drained) (simp_all add: defs)
  moreover have "?R ?p2 (?p2\<lparr>pr_ctx := Some True\<rparr>)" by (rule proc_step.deadline) (simp_all add: defs)
  moreover have "?R (?p2\<lparr>pr_ctx := Some True\<rparr>) ?p3" by (rule proc_step.returned_ctx) (simp_all add: defs)
  moreover have "?R ?p3 cut_off"
    unfolding cut_off_def Let_def by (rule proc_step.returned) (simp_all add: defs call_ready_def)
  ultimately show "?R\<^sup>*\<^sup>* ?p cut_off" by (meson converse_rtranclp_into_rtranclp rtranclp.rtrancl_refl)
  show "pr_inflight cut_off = 1 \<and> ''walletConn.Close'' \<in> set (pr_finished cut_off)"
    by (simp add: cut_off_def Let_def defs)
qed

text \<open>\<open>sleep\<close> is cut short by \<open>Relay.Stop\<close>: it is over at once when the context is done, and never too late.\<close>

lemma sleep_bounds: "now \<le> sleep done' d now \<and> sleep done' d now \<le> now + max 0 d"
  by (auto simp: sleep_def split: option.split)

lemma sleep_cancelled: "sleep (Some c) d now \<le> max now c"
  by (simp add: sleep_def)

text \<open>Every line of a service names it; debug lines show only with \<open>LOG_LEVEL=debug\<close>.\<close>

lemma logger_lines:
  "log_record (fst (NewLogger env service)) lv msg args =
     (if lv = LevelDebug \<and> env ''LOG_LEVEL'' \<noteq> ''debug'' then None else Some (msg, (''service'', service) # args))"
  by (cases lv) (simp_all add: log_record_def NewLogger_def Let_def)

end
