(* ===== verification/NotificationProcess.thy ===== *)
theory NotificationProcess
  imports PlatformClaims Notification
begin

text \<open>
  The life of the notification service: its settings, the ops server of \<open>ops.js\<close> with the
  readiness checks, connecting to Kafka, the events of the consumer, and the shutdown at the end
  of \<open>index.js\<close>.  Times are milliseconds.  \<open>js_Number\<close> is JavaScript's \<open>Number\<close> of a text
  (\<open>None\<close>: \<open>NaN\<close>); how long each awaited call takes is an argument.
\<close>

section \<open>Settings\<close>

definition requireEnv :: "environ \<Rightarrow> string \<Rightarrow> string run" where
  "requireEnv env name = (if env name = [] then Exits 1 else run.Returns (env name))"

record notif_settings =
  ns_JWT_SECRET :: string
  ns_REDIS_URL :: string
  ns_KAFKA_BROKERS :: "string list"
  ns_PORT :: "int option"
  ns_WEBHOOK_URL :: string
  ns_SHUTDOWN_DELAY_MS :: "int option"

definition numberOr :: "(string \<Rightarrow> int option) \<Rightarrow> environ \<Rightarrow> string \<Rightarrow> int \<Rightarrow> int option" where
  "numberOr js_Number env name def = (if env name = [] then Some def else js_Number (env name))"

definition notif_settings :: "(string \<Rightarrow> int option) \<Rightarrow> environ \<Rightarrow> notif_settings run" where
  "notif_settings js_Number env =
     and_then (requireEnv env ''JWT_SECRET'') (\<lambda>secret.
     and_then (requireEnv env ''REDIS_URL'') (\<lambda>redis.
     and_then (requireEnv env ''KAFKA_BROKERS'') (\<lambda>brokers.
     run.Returns \<lparr>ns_JWT_SECRET = secret, ns_REDIS_URL = redis, ns_KAFKA_BROKERS = split_comma brokers,
       ns_PORT = numberOr js_Number env ''PORT'' 8084, ns_WEBHOOK_URL = env ''WEBHOOK_URL'',
       ns_SHUTDOWN_DELAY_MS = numberOr js_Number env ''SHUTDOWN_DELAY_MS'' 5000\<rparr>)))"

section \<open>Readiness\<close>

text \<open>
  How a check ends: it fulfils or rejects after some milliseconds, or never settles.  The Map of
  checks keeps the order of insertion.
\<close>

datatype settles = Fulfils int | Rejects int string | Pending

record 'w js_ops =
  jo_checks :: "(string \<times> ('w \<Rightarrow> settles)) list"
  jo_draining :: bool

definition init_js_ops :: "'w js_ops" where
  "init_js_ops = \<lparr>jo_checks = [], jo_draining = False\<rparr>"

definition addReadinessCheck :: "string \<Rightarrow> ('w \<Rightarrow> settles) \<Rightarrow> 'w js_ops \<Rightarrow> 'w js_ops" where
  "addReadinessCheck name fn o' = o'\<lparr>jo_checks := AList.update name fn (jo_checks o')\<rparr>"

definition setDraining :: "'w js_ops \<Rightarrow> 'w js_ops" where
  "setDraining o' = o'\<lparr>jo_draining := True\<rparr>"

text \<open>\<open>Promise.race\<close> with the two seconds: the message of the error, and the time that has passed.\<close>

definition race_timeout :: "settles \<Rightarrow> string option \<times> int" where
  "race_timeout s =
     (case s of
        Fulfils ms \<Rightarrow> if ms < 2000 then (None, max 0 ms) else (Some ''timed out'', 2000)
      | Rejects ms err \<Rightarrow> if ms < 2000 then (Some err, max 0 ms) else (Some ''timed out'', 2000)
      | Pending \<Rightarrow> (Some ''timed out'', 2000))"

fun runChecks :: "'w \<Rightarrow> (string \<times> ('w \<Rightarrow> settles)) list \<Rightarrow> bool \<times> (string \<times> string) list \<times> int" where
  "runChecks world [] = (True, [], 0)"
| "runChecks world ((name, fn) # cs) =
     (case (race_timeout (fn world), runChecks world cs) of
        ((err, ms), ok, results, passed) \<Rightarrow>
          (err = None \<and> ok, (name, case err of None \<Rightarrow> ''ok'' | Some e \<Rightarrow> ''fail: '' @ e) # results, ms + passed))"

text \<open>The request handler of \<open>startOpsServer\<close>, on \<open>req.url\<close>: status, body and time taken.\<close>

datatype ops_answer = JsonAnswer int json int | MetricsAnswer

definition ops_handler :: "'w js_ops \<Rightarrow> 'w \<Rightarrow> string \<Rightarrow> ops_answer" where
  "ops_handler o' world url =
     (if url = ''/healthz'' then JsonAnswer 200 (JObj [(''status'', JStr ''ok'')]) 0
      else if url = ''/readyz'' then
        (if jo_draining o' then JsonAnswer 503 (JObj [(''status'', JStr ''draining'')]) 0
         else case runChecks world (jo_checks o') of
           (ok, results, ms) \<Rightarrow>
             JsonAnswer (if ok then 200 else 503)
               (JObj [(''status'', JStr (if ok then ''ok'' else ''not_ready'')),
                      (''checks'', JObj (map (\<lambda>(n, t). (n, JStr t)) results))]) ms)
      else if url = ''/metrics'' then MetricsAnswer
      else JsonAnswer 404 (JObj [(''error'', JStr ''not found'')]) 0)"

section \<open>The consumer\<close>

record notif_proc =
  np_consuming :: bool
  np_stopping :: bool
  np_exit :: "int option"

text \<open>The check \<open>kafka-consumer\<close> of \<open>main\<close>.\<close>

definition kafka_check :: "notif_proc \<Rightarrow> settles" where
  "kafka_check p = (if \<not> np_consuming p then Rejects 0 ''not consuming yet'' else Fulfils 0)"

text \<open>The two checks \<open>main\<close> registers; the ping of Redis is a parameter.\<close>

definition notif_ops :: "(notif_proc \<Rightarrow> settles) \<Rightarrow> notif_proc js_ops" where
  "notif_ops ping = addReadinessCheck ''kafka-consumer'' kafka_check (addReadinessCheck ''redis'' ping init_js_ops)"

text \<open>
  \<open>startConsumer\<close> on its attempts: each with whether the service is stopping when the loop
  condition is checked, and the error of connecting, subscribing or running.  It has returned or
  is still trying; the waits are kept.
\<close>

fun startConsumer :: "int \<Rightarrow> (bool \<times> string option) list \<Rightarrow> notif_proc \<Rightarrow> bool \<times> int list \<times> notif_proc" where
  "startConsumer backoff [] p = (False, [], p)"
| "startConsumer backoff ((stopping, err) # later) p =
     (if stopping then (True, [], p)
      else case err of
        None \<Rightarrow> (True, [], p\<lparr>np_consuming := True\<rparr>)
      | Some e \<Rightarrow>
          (case startConsumer (min (backoff * 2) 10000) later p of (ret, waits, p') \<Rightarrow> (ret, backoff # waits, p')))"

definition on_crash :: "bool \<Rightarrow> notif_proc \<Rightarrow> notif_proc" where
  "on_crash restart p =
     (let p1 = p\<lparr>np_consuming := False\<rparr> in if \<not> restart then p1\<lparr>np_exit := Some 1\<rparr> else p1)"

definition on_group_join :: "notif_proc \<Rightarrow> notif_proc" where
  "on_group_join p = p\<lparr>np_consuming := True\<rparr>"

section \<open>Shutdown\<close>

text \<open>\<open>setTimeout\<close>: a delay that is no number or outside 1 to \<open>2^31 - 1\<close> becomes one millisecond.\<close>

definition timer :: "int option \<Rightarrow> int" where
  "timer d = (case d of None \<Rightarrow> 1 | Some n \<Rightarrow> if 1 \<le> n \<and> n < 2 ^ 31 then n else 1)"

text \<open>The calls that \<open>shutdown\<close> awaits; the errors of the last four are dropped.\<close>

definition notif_cleanup :: "cleanup list" where
  "notif_cleanup = [Call ''server.close'', Call ''consumerStarted'', Call ''consumer.disconnect'',
     Call ''dlqProducer.disconnect'', Call ''redis.quit'', Call ''subscriber.quit'']"

text \<open>
  \<open>shutdown\<close> for a signal at time \<open>t\<close>: \<open>None\<close> when one is under way.  Otherwise what was awaited to
  its end, the exit code and its time; of two timers for the same moment the forced exit, set
  first, is first.
\<close>

definition shutdown ::
    "notif_settings \<Rightarrow> (string \<Rightarrow> int option) \<Rightarrow> int \<Rightarrow> notif_proc \<times> notif_proc js_ops \<Rightarrow>
     (string list \<times> int \<times> int) option \<times> notif_proc \<times> notif_proc js_ops" where
  "shutdown ns dur t = (\<lambda>(p, ops).
     if np_stopping p then (None, p, ops)
     else
       let delay = ns_SHUTDOWN_DELAY_MS ns;
           force = t + timer (map_option (\<lambda>d. d + 20000) delay);
           now = t + timer delay;
           (finished, code, at) = (if force \<le> now then ([], 1, force) else run_cleanup dur force None notif_cleanup now)
       in (Some (finished, code, at), p\<lparr>np_stopping := True, np_exit := Some code\<rparr>, setDraining ops))"

section \<open>What readiness and shutdown amount to\<close>

text \<open>
  \<open>/readyz\<close> answers 200 exactly when the consumer is consuming and Redis answers within two
  seconds; the answer takes less than two seconds in that case and at most two otherwise.
\<close>

lemma notif_readyz:
  "ops_handler (notif_ops ping) p ''/readyz'' =
     (case race_timeout (ping p) of
        (err, ms) \<Rightarrow>
          let ok = (err = None \<and> np_consuming p)
          in JsonAnswer (if ok then 200 else 503)
               (JObj [(''status'', JStr (if ok then ''ok'' else ''not_ready'')),
                      (''checks'', JObj [(''redis'', JStr (case err of None \<Rightarrow> ''ok'' | Some e \<Rightarrow> ''fail: '' @ e)),
                         (''kafka-consumer'', JStr (if np_consuming p then ''ok'' else ''fail: not consuming yet''))])]) ms)"
  by (auto simp: ops_handler_def notif_ops_def addReadinessCheck_def init_js_ops_def kafka_check_def race_timeout_def
      Let_def split: settles.split)

lemma race_timeout_bound: "0 \<le> snd (race_timeout s) \<and> snd (race_timeout s) \<le> 2000"
  by (auto simp: race_timeout_def split: settles.split)

text \<open>A draining service is not ready whatever its checks say, and a second signal changes nothing.\<close>

lemma notif_drains:
  "shutdown ns dur t (p, ops) = (r, p', ops') \<Longrightarrow> \<not> np_stopping p \<Longrightarrow>
     ops_handler ops' w ''/readyz'' = JsonAnswer 503 (JObj [(''status'', JStr ''draining'')]) 0 \<and>
     shutdown ns dur t2 (p', ops') = (None, p', ops')"
  by (auto simp: shutdown_def ops_handler_def setDraining_def Let_def split: prod.splits)

text \<open>
  With a delay that \<open>setTimeout\<close> takes as it is, the process ends no later than twenty seconds
  after the delay, with code 0 exactly when every awaited call finished.  The first call waits
  for the sockets of the clients: when one of them takes twenty seconds to close, nothing is
  disconnected and the exit is forced.
\<close>

lemma notif_shutdown_ends:
  assumes "\<not> np_stopping p" and "ns_SHUTDOWN_DELAY_MS ns = Some d" and "1 \<le> d" and "d + 20000 < 2 ^ 31"
  shows "\<exists>finished code at p' ops'. shutdown ns dur t (p, ops) = (Some (finished, code, at), p', ops') \<and>
    t + d \<le> at \<and> at \<le> t + d + 20000 \<and> code \<in> {0, 1} \<and> (code = 0 \<longleftrightarrow> finished = call_names notif_cleanup) \<and>
    (\<forall>x. dur ''server.close'' = Some x \<and> 20000 \<le> x \<longrightarrow> finished = [] \<and> code = 1)"
proof -
  obtain finished code at where
    run: "run_cleanup dur (t + (d + 20000)) None notif_cleanup (t + d) = (finished, code, at)" by (metis prod_cases3)
  have "shutdown ns dur t (p, ops) =
      (Some (finished, code, at), p\<lparr>np_stopping := True, np_exit := Some code\<rparr>, setDraining ops)"
    using assms run by (simp add: shutdown_def timer_def)
  moreover have "t + d \<le> at \<and> at \<le> t + (d + 20000) \<and> code \<in> {0, 1} \<and> prefix finished (call_names notif_cleanup) \<and>
      (code = 0 \<longleftrightarrow> finished = call_names notif_cleanup) \<and> (code = 0 \<longrightarrow> at < t + (d + 20000))"
    by (rule run_cleanup_spec [OF _ run]) simp
  moreover have "finished = [] \<and> code = 1" if "dur ''server.close'' = Some x" "20000 \<le> x" for x
    using run that by (simp add: notif_cleanup_def until_def)
  ultimately show ?thesis by (auto simp: add.assoc)
qed

text \<open>A delay that is no number forces the exit after one millisecond, before anything is closed.\<close>

lemma notif_bad_delay:
  "\<not> np_stopping p \<Longrightarrow> ns_SHUTDOWN_DELAY_MS ns = None \<Longrightarrow> fst (shutdown ns dur t (p, ops)) = Some ([], 1, t + 1)"
  by (simp add: shutdown_def timer_def)

text \<open>
  Connecting: unless the service is told to stop, the first attempt that succeeds makes the pod
  ready, and each wait before it is at most ten seconds.
\<close>

lemma startConsumer_waits:
  "backoff \<le> 10000 \<Longrightarrow> startConsumer backoff attempts p = (ret, waits, p') \<Longrightarrow> list_all (\<lambda>w. w \<le> 10000) waits"
  by (induction backoff attempts p arbitrary: ret waits p' rule: startConsumer.induct)
    (auto split: if_splits option.splits prod.splits)

lemma startConsumer_connects:
  "(\<forall>a\<in>set failed. \<not> fst a \<and> snd a \<noteq> None) \<Longrightarrow>
   \<exists>waits. startConsumer backoff (failed @ (False, None) # later) p = (True, waits, p\<lparr>np_consuming := True\<rparr>)"
proof (induction failed arbitrary: backoff)
  case (Cons a failed)
  then obtain e where a: "a = (False, Some e)" by (cases a) auto
  from Cons obtain waits where
    "startConsumer (min (backoff * 2) 10000) (failed @ (False, None) # later) p = (True, waits, p\<lparr>np_consuming := True\<rparr>)"
    by fastforce
  then show ?case by (simp add: a)
qed simp

end
