(* ===== verification/FraudProcess.thy ===== *)
theory FraudProcess
  imports Platform Fraud
begin

text \<open>
  The life of the fraud service: its required settings, the start and the stop of the worker with
  its Kafka clients (\<open>worker.py\<close>), and the \<open>lifespan\<close> of the application (\<open>main.py\<close>).
\<close>

definition require_env :: "environ \<Rightarrow> string \<Rightarrow> string run" where
  "require_env env name = (if env name = [] then Exits 1 else Returns (env name))"

definition fraud_settings :: "environ \<Rightarrow> (string \<times> string list) run" where
  "fraud_settings env =
     and_then (require_env env ''REDIS_URL'') (\<lambda>redis.
     and_then (require_env env ''KAFKA_BROKERS'') (\<lambda>brokers. Returns (redis, split_comma brokers)))"

text \<open>
  A client object is absent, connected or stopped.  \<open>fp_task\<close> is how the task of
  \<open>connect_and_run\<close> ends when it is awaited (\<open>None\<close>: \<open>start\<close> was not called).
\<close>

datatype client = Absent | Open | Closed

record fraud_proc =
  fp_consumer :: client
  fp_producer :: client
  fp_redis :: client
  fp_stopping :: bool
  fp_draining :: bool
  fp_task :: "run_end option"

definition start_worker :: "run_end \<Rightarrow> fraud_proc \<Rightarrow> fraud_proc" where
  "start_worker e p = p\<lparr>fp_task := Some e\<rparr>"

text \<open>\<open>close\<close>, with the exceptions of the two \<open>stop\<close> calls: a client that failed to stop is kept.\<close>

definition close_worker :: "string option \<Rightarrow> string option \<Rightarrow> fraud_proc \<Rightarrow> string option \<times> fraud_proc" where
  "close_worker consumer_err producer_err p =
     (if fp_consumer p \<noteq> Absent \<and> consumer_err \<noteq> None then (consumer_err, p)
      else
        let p1 = (if fp_consumer p \<noteq> Absent then p\<lparr>fp_consumer := Closed\<rparr> else p) in
        if fp_producer p1 \<noteq> Absent \<and> producer_err \<noteq> None then (producer_err, p1)
        else (None, p1\<lparr>fp_consumer := Absent, fp_producer := Absent\<rparr>))"

text \<open>\<open>stop\<close>: awaiting a task that failed raises its exception again.\<close>

definition stop_worker :: "string option \<Rightarrow> string option \<Rightarrow> fraud_proc \<Rightarrow> string option \<times> fraud_proc" where
  "stop_worker consumer_err producer_err p =
     (let p1 = p\<lparr>fp_stopping := True\<rparr> in
      if fp_task p1 = Some TaskFailed then (Some ''task'', p1) else close_worker consumer_err producer_err p1)"

text \<open>The two halves of \<open>lifespan\<close>.\<close>

definition lifespan_startup :: "run_end \<Rightarrow> fraud_proc" where
  "lifespan_startup e =
     start_worker e \<lparr>fp_consumer = Absent, fp_producer = Absent, fp_redis = Open, fp_stopping = False,
       fp_draining = False, fp_task = None\<rparr>"

definition lifespan_shutdown ::
    "string option \<Rightarrow> string option \<Rightarrow> string option \<Rightarrow> fraud_proc \<Rightarrow> string option \<times> fraud_proc" where
  "lifespan_shutdown consumer_err producer_err redis_err p =
     (case stop_worker consumer_err producer_err (p\<lparr>fp_draining := True\<rparr>) of
        (Some e, p1) \<Rightarrow> (Some e, p1)
      | (None, p1) \<Rightarrow> (case redis_err of Some e \<Rightarrow> (Some e, p1) | None \<Rightarrow> (None, p1\<lparr>fp_redis := Closed\<rparr>)))"

text \<open>After connecting, \<open>connect_and_run\<close> holds both clients.\<close>

definition connected :: "fraud_proc \<Rightarrow> fraud_proc" where
  "connected p = p\<lparr>fp_consumer := Open, fp_producer := Open\<rparr>"

text \<open>
  When every client stops without an error, shutdown closes them all exactly if the task of the
  worker has not failed; after a failed task the consumer, the producer and Redis stay open.
\<close>

lemma fraud_shutdown:
  "lifespan_shutdown None None None (connected (lifespan_startup e)) =
     (if e = TaskFailed
      then (Some ''task'', (connected (lifespan_startup e))\<lparr>fp_draining := True, fp_stopping := True\<rparr>)
      else (None, (lifespan_startup e)\<lparr>fp_draining := True, fp_stopping := True, fp_redis := Closed\<rparr>))"
  by (simp add: lifespan_shutdown_def stop_worker_def close_worker_def connected_def lifespan_startup_def
      start_worker_def Let_def)

text \<open>The worker is stopped after it finished: a failure of one client is reported and what follows is left open.\<close>

lemma fraud_shutdown_consumer_fails:
  "e \<noteq> TaskFailed \<Longrightarrow> lifespan_shutdown (Some err) perr rerr (connected (lifespan_startup e)) =
     (Some err, (connected (lifespan_startup e))\<lparr>fp_draining := True, fp_stopping := True\<rparr>)"
  by (simp add: lifespan_shutdown_def stop_worker_def close_worker_def connected_def lifespan_startup_def
      start_worker_def)

section \<open>Connecting\<close>

text \<open>Kafka may be down for any time: the waits stay below ten seconds, and the first attempt that succeeds starts the worker.\<close>

lemma connect_waits:
  "backoff \<le> 10000 \<Longrightarrow> connect backoff attempts = (res, waits) \<Longrightarrow> list_all (\<lambda>w. w \<le> 10000) waits"
  by (induction backoff attempts arbitrary: res waits rule: connect.induct)
    (auto split: if_splits option.splits prod.splits)

lemma connect_succeeds:
  "(\<forall>a\<in>set failed. \<exists>e. a = (False, Some e, None)) \<Longrightarrow>
   fst (connect backoff (failed @ (False, None, c) # later)) = Linked"
proof (induction failed arbitrary: backoff)
  case (Cons a failed)
  from Cons.prems obtain e where a: "a = (False, Some e, None)" by auto
  have "fst (connect (min (backoff * 2) 10000) (failed @ (False, None, c) # later)) = Linked"
    using Cons.prems by (intro Cons.IH) simp
  then show ?case by (auto simp: a split: prod.split)
qed simp

lemma worker_starts:
  assumes "\<forall>a\<in>set failed. \<exists>e. a = (False, Some e, None)"
  shows "connect_and_run (failed @ (False, None, c) # later) False ds s = run_worker ds (s\<lparr>fw_started := True\<rparr>)"
  using connect_succeeds [OF assms] by (simp add: connect_and_run_def)

text \<open>An error of closing the clients ends the task before the worker has started: the pod stays not ready.\<close>

lemma close_failure_ends_task:
  assumes "\<not> fw_started s"
  shows "connect_and_run ((False, Some e, Some e') # later) stopping ds s = (TaskFailed, s) \<and>
    fst (fraud_readyz False ping_ok s) = 503"
  using assms by (simp add: connect_and_run_def fraud_readyz_def)

end
