(* ===== verification/DataSource.thy ===== *)
theory DataSource
  imports GoText
begin

text \<open>
  The start-up of the ledger, \<open>DataSourceConfig.java\<close>: the connection settings it derives from
  the \<open>DATABASE_URL\<close> that every service reads.  A Java \<open>String\<close> is the list of its UTF-16 code
  units.  Of the standard library the file uses \<open>java.net.URI\<close> (the grammar of RFC 2396 with the
  deviations its documentation names) and \<open>java.net.URLDecoder\<close>; both are written out below.
  Parameters are the tables of Unicode (\<open>visible\<close>: a character outside ASCII that is neither a
  space nor a control character; \<open>digit16\<close>: \<open>Character.digit(c, 16)\<close>), the decoder
  \<open>new String(bytes, UTF_8)\<close> (\<open>utf8\<close>) and the test for the text of an IPv6 address (\<open>ipv6\<close>).
\<close>

type_synonym jstring = "int list"

definition lit :: "string \<Rightarrow> jstring" where
  "lit s = map of_char s"

section \<open>\<open>URI.create\<close>\<close>

definition is_digit16 :: "int \<Rightarrow> bool" where
  "is_digit16 c \<longleftrightarrow> 48 \<le> c \<and> c \<le> 57 \<or> 65 \<le> c \<and> c \<le> 70 \<or> 97 \<le> c \<and> c \<le> 102"

definition hex_digit :: "int \<Rightarrow> int" where
  "hex_digit c = (if c \<le> 57 then c - 48 else if c \<le> 70 then c - 55 else c - 87)"

definition is_num :: "int \<Rightarrow> bool" where
  "is_num c \<longleftrightarrow> 48 \<le> c \<and> c \<le> 57"

definition is_alpha :: "int \<Rightarrow> bool" where
  "is_alpha c \<longleftrightarrow> 65 \<le> c \<and> c \<le> 90 \<or> 97 \<le> c \<and> c \<le> 122"

definition alphanum :: "int \<Rightarrow> bool" where
  "alphanum c \<longleftrightarrow> is_num c \<or> is_alpha c"

definition one_of :: "string \<Rightarrow> int \<Rightarrow> bool" where
  "one_of s c \<longleftrightarrow> c \<in> set (lit s)"

definition unreserved :: "int \<Rightarrow> bool" where
  "unreserved c \<longleftrightarrow> alphanum c \<or> c = 39 \<or> one_of ''-_.!~*()'' c"

text \<open>
  \<open>checkChars\<close> with a mask that has the escape bit: the characters of the class, visible
  characters outside ASCII, and \<open>%\<close> with two hexadecimal digits.
\<close>

fun escaped_ok :: "(int \<Rightarrow> bool) \<Rightarrow> (int \<Rightarrow> bool) \<Rightarrow> jstring \<Rightarrow> bool" where
  "escaped_ok visible cls [] = True"
| "escaped_ok visible cls (c # s) =
     (if c = 37
      then case s of a # b # t \<Rightarrow> is_digit16 a \<and> is_digit16 b \<and> escaped_ok visible cls t | _ \<Rightarrow> False
      else (cls c \<or> 128 < c \<and> visible c) \<and> escaped_ok visible cls s)"

definition userinfo_ok :: "(int \<Rightarrow> bool) \<Rightarrow> jstring \<Rightarrow> bool" where
  "userinfo_ok visible = escaped_ok visible (\<lambda>c. unreserved c \<or> one_of '';:&=+$,'' c)"

definition reg_name_ok :: "(int \<Rightarrow> bool) \<Rightarrow> jstring \<Rightarrow> bool" where
  "reg_name_ok visible = escaped_ok visible (\<lambda>c. unreserved c \<or> one_of ''$,;:@&=+'' c)"

definition path_ok :: "(int \<Rightarrow> bool) \<Rightarrow> jstring \<Rightarrow> bool" where
  "path_ok visible = escaped_ok visible (\<lambda>c. unreserved c \<or> one_of '':@&=+$,;/'' c)"

definition uric_ok :: "(int \<Rightarrow> bool) \<Rightarrow> jstring \<Rightarrow> bool" where
  "uric_ok visible = escaped_ok visible (\<lambda>c. unreserved c \<or> one_of '';/?:@&=+$,[]'' c)"

definition part_ok :: "(jstring \<Rightarrow> bool) \<Rightarrow> jstring option \<Rightarrow> bool" where
  "part_ok ok s = (case s of None \<Rightarrow> True | Some t \<Rightarrow> ok t)"

text \<open>Splitting at the first occurrence of a character, and at all of them.\<close>

definition cut :: "int \<Rightarrow> jstring \<Rightarrow> jstring \<times> jstring option" where
  "cut c s = (takeWhile (\<lambda>x. x \<noteq> c) s, case dropWhile (\<lambda>x. x \<noteq> c) s of [] \<Rightarrow> None | _ # t \<Rightarrow> Some t)"

fun pieces :: "int \<Rightarrow> jstring \<Rightarrow> jstring list" where
  "pieces c [] = [[]]"
| "pieces c (x # s) =
     (if x = c then [] # pieces c s else (case pieces c s of [] \<Rightarrow> [[x]] | p # ps \<Rightarrow> (x # p) # ps))"

definition number :: "jstring \<Rightarrow> int" where
  "number s = foldl (\<lambda>n c. 10 * n + (c - 48)) 0 s"

definition ipv4_host :: "jstring \<Rightarrow> bool" where
  "ipv4_host h \<longleftrightarrow> length (pieces 46 h) = 4 \<and>
     (\<forall>p\<in>set (pieces 46 h). p \<noteq> [] \<and> list_all is_num p \<and> number p \<le> 255)"

definition label_ok :: "jstring \<Rightarrow> bool" where
  "label_ok l \<longleftrightarrow> l \<noteq> [] \<and> list_all (\<lambda>c. alphanum c \<or> c = 45) l \<and> alphanum (hd l) \<and> alphanum (last l)"

text \<open>A host name: labels between dots, perhaps a last dot; the last of several starts with a letter.\<close>

definition name_host :: "jstring \<Rightarrow> bool" where
  "name_host h =
     (let ls = pieces 46 h; ls' = (if 1 < length ls \<and> last ls = [] then butlast ls else ls)
      in list_all label_ok ls' \<and> (1 < length ls' \<longrightarrow> is_alpha (hd (last ls'))))"

record uri =
  uri_userInfo :: "jstring option"
  uri_host :: "jstring option"
  uri_port :: int
  uri_path :: "jstring option"
  uri_query :: "jstring option"

definition parse_port :: "jstring option \<Rightarrow> int option" where
  "parse_port p =
     (case p of
        None \<Rightarrow> Some (-1)
      | Some [] \<Rightarrow> Some (-1)
      | Some ds \<Rightarrow> if list_all is_num ds \<and> number ds < 2 ^ 31 then Some (number ds) else None)"

text \<open>\<open>parseServer\<close>: user info up to the first \<open>@\<close>, then a host and perhaps a port.\<close>

definition parse_server ::
    "(int \<Rightarrow> bool) \<Rightarrow> (jstring \<Rightarrow> bool) \<Rightarrow> jstring \<Rightarrow> (jstring option \<times> jstring \<times> int) option" where
  "parse_server visible ipv6 a =
     (let (info, rest) = (case cut 64 a of (x, None) \<Rightarrow> (None, a) | (x, Some r) \<Rightarrow> (Some x, r))
      in if \<not> part_ok (userinfo_ok visible) info then None
         else if take 1 rest = [91]
         then (case cut 93 (drop 1 rest) of
                 (h, Some t) \<Rightarrow>
                   if \<not> ipv6 h \<or> t \<noteq> [] \<and> hd t \<noteq> 58 then None
                   else map_option (\<lambda>n. (info, 91 # h @ [93], n)) (parse_port (if t = [] then None else Some (tl t)))
               | (h, None) \<Rightarrow> None)
         else (case cut 58 rest of
                 (h, p) \<Rightarrow> if ipv4_host h \<or> name_host h then map_option (\<lambda>n. (info, h, n)) (parse_port p) else None))"

text \<open>
  \<open>parseAuthority\<close>: when the text is no server with a host it is taken as a registry-based name,
  which leaves user info, host and port undefined, if its characters allow that.
\<close>

definition parse_authority ::
    "(int \<Rightarrow> bool) \<Rightarrow> (jstring \<Rightarrow> bool) \<Rightarrow> jstring \<Rightarrow> (jstring option \<times> jstring option \<times> int) option" where
  "parse_authority visible ipv6 a =
     (case parse_server visible ipv6 a of
        Some (info, h, n) \<Rightarrow> Some (info, Some h, n)
      | None \<Rightarrow> if reg_name_ok visible a then Some (None, None, -1) else None)"

definition scheme_ok :: "jstring \<Rightarrow> bool" where
  "scheme_ok s \<longleftrightarrow> s \<noteq> [] \<and> is_alpha (hd s) \<and> list_all (\<lambda>c. alphanum c \<or> one_of ''+-.'' c) s"

definition upto_chars :: "string \<Rightarrow> jstring \<Rightarrow> jstring \<times> jstring" where
  "upto_chars stop s = (takeWhile (\<lambda>c. \<not> one_of stop c) s, dropWhile (\<lambda>c. \<not> one_of stop c) s)"

text \<open>\<open>parseHierarchical\<close> and the fragment after it.\<close>

definition parse_hierarchical :: "(int \<Rightarrow> bool) \<Rightarrow> (jstring \<Rightarrow> bool) \<Rightarrow> jstring \<Rightarrow> uri option" where
  "parse_hierarchical visible ipv6 s0 =
     (let (s, frag) = cut 35 s0;
          (au, s1) = (if take 2 s = lit ''//'' then (let (a, r) = upto_chars ''/?'' (drop 2 s) in (Some a, r)) else (None, s));
          (path, q) = cut 63 s1
      in if \<not> part_ok (uric_ok visible) frag then None
         else if \<not> path_ok visible path \<or> \<not> part_ok (uric_ok visible) q then None
         else case au of
           None \<Rightarrow> Some \<lparr>uri_userInfo = None, uri_host = None, uri_port = -1, uri_path = Some path, uri_query = q\<rparr>
         | Some a \<Rightarrow>
             if a = [] then
               (if s1 = [] \<and> frag = None then None
                else Some \<lparr>uri_userInfo = None, uri_host = None, uri_port = -1, uri_path = Some path, uri_query = q\<rparr>)
             else map_option (\<lambda>(info, h, n).
                 \<lparr>uri_userInfo = info, uri_host = h, uri_port = n, uri_path = Some path, uri_query = q\<rparr>)
               (parse_authority visible ipv6 a))"

text \<open>\<open>URI.create\<close>: \<open>None\<close> is the \<open>IllegalArgumentException\<close> around a syntax error.\<close>

definition URI_create :: "(int \<Rightarrow> bool) \<Rightarrow> (jstring \<Rightarrow> bool) \<Rightarrow> jstring \<Rightarrow> uri option" where
  "URI_create visible ipv6 s =
     (let (scheme, rest) = upto_chars ''/?#:'' s
      in if take 1 rest \<noteq> [58] then parse_hierarchical visible ipv6 s
         else if \<not> scheme_ok scheme then None
         else if take 2 rest = [58, 47] then parse_hierarchical visible ipv6 (drop 1 rest)
         else case cut 35 (drop 1 rest) of
           (part, frag) \<Rightarrow>
             if part = [] \<or> \<not> uric_ok visible part \<or> \<not> part_ok (uric_ok visible) frag
             then None
             else Some \<lparr>uri_userInfo = None, uri_host = None, uri_port = -1, uri_path = None, uri_query = None\<rparr>)"

section \<open>Decoding\<close>

text \<open>A run of escapes: its bytes and what follows.\<close>

fun escapes :: "jstring \<Rightarrow> int list \<times> jstring" where
  "escapes [] = ([], [])"
| "escapes (c # s) =
     (if c \<noteq> 37 then ([], c # s)
      else case s of
        a # b # t \<Rightarrow>
          if is_digit16 a \<and> is_digit16 b
          then (case escapes t of (bs, r) \<Rightarrow> ((16 * hex_digit a + hex_digit b) # bs, r))
          else ([], c # s)
      | _ \<Rightarrow> ([], c # s))"

lemma escapes_length: "escapes s = (bs, r) \<Longrightarrow> length r + 3 * length bs = length s"
  by (induction s arbitrary: bs r rule: escapes.induct) (auto split: if_splits list.splits prod.splits)

lemma escapes_shorter: "(b # bs, r) = escapes (c # s) \<Longrightarrow> length r < Suc (length s)"
  using escapes_length [of "c # s" "b # bs" r] by simp

text \<open>\<open>URI.getUserInfo\<close>, \<open>getPath\<close> and \<open>getQuery\<close> decode the escapes of the component.\<close>

function uri_decode :: "(int list \<Rightarrow> jstring) \<Rightarrow> jstring \<Rightarrow> jstring" where
  "uri_decode utf8 [] = []"
| "uri_decode utf8 (c # s) =
     (case escapes (c # s) of
        ([], _) \<Rightarrow> c # uri_decode utf8 s
      | (b # bs, r) \<Rightarrow> utf8 (b # bs) @ uri_decode utf8 r)"
  by pat_completeness auto

termination uri_decode
  by (relation "measure (length \<circ> snd)") (simp_all del: escapes.simps add: escapes_shorter)

text \<open>\<open>Integer.parseInt\<close> with radix 16 on two characters; a negative value is refused.\<close>

definition parse_byte :: "(int \<Rightarrow> int option) \<Rightarrow> int \<Rightarrow> int \<Rightarrow> int option" where
  "parse_byte digit16 a b =
     (if a = 43 then digit16 b
      else if a = 45 then (if digit16 b = Some 0 then Some 0 else None)
      else case (digit16 a, digit16 b) of (Some x, Some y) \<Rightarrow> Some (16 * x + y) | _ \<Rightarrow> None)"

text \<open>The inner loop of \<open>URLDecoder.decode\<close>: \<open>None\<close> is its \<open>IllegalArgumentException\<close>.\<close>

fun url_run :: "(int \<Rightarrow> int option) \<Rightarrow> jstring \<Rightarrow> (int list \<times> jstring) option" where
  "url_run digit16 [] = Some ([], [])"
| "url_run digit16 (c # s) =
     (if c \<noteq> 37 then Some ([], c # s)
      else case s of
        a # b # t \<Rightarrow>
          (case parse_byte digit16 a b of
             None \<Rightarrow> None
           | Some v \<Rightarrow> map_option (\<lambda>(bs, r). (v # bs, r)) (url_run digit16 t))
      | _ \<Rightarrow> None)"

lemma url_run_length: "url_run digit16 s = Some (bs, r) \<Longrightarrow> length r + 3 * length bs = length s"
  by (induction digit16 s arbitrary: bs rule: url_run.induct) (auto split: if_splits list.splits option.splits)

lemma url_run_shorter: "url_run digit16 (37 # s) = Some (bs, r) \<Longrightarrow> length r + 3 \<le> length (37 # s)"
  using url_run_length [of digit16 "37 # s" bs r] by (cases bs) (auto split: list.splits option.splits)

function url_decode :: "(int \<Rightarrow> int option) \<Rightarrow> (int list \<Rightarrow> jstring) \<Rightarrow> jstring \<Rightarrow> jstring option" where
  "url_decode digit16 utf8 [] = Some []"
| "url_decode digit16 utf8 (c # s) =
     (if c = 43 then map_option (Cons 32) (url_decode digit16 utf8 s)
      else if c = 37 then
        (case url_run digit16 (c # s) of
           None \<Rightarrow> None
         | Some (bs, r) \<Rightarrow> map_option ((@) (utf8 bs)) (url_decode digit16 utf8 r))
      else map_option (Cons c) (url_decode digit16 utf8 s))"
  by pat_completeness auto

termination url_decode
  by (relation "measure (length \<circ> snd \<circ> snd)") (auto simp del: url_run.simps dest!: url_run_shorter)

section \<open>The data source\<close>

datatype startup_error = IllegalArgument | NullPointer

record data_source =
  ds_jdbcUrl :: jstring
  ds_username :: jstring
  ds_password :: jstring
  ds_maximumPoolSize :: int
  ds_poolName :: string

text \<open>An absent reference prints as \<open>null\<close>.\<close>

definition shown :: "jstring option \<Rightarrow> jstring" where
  "shown s = (case s of None \<Rightarrow> lit ''null'' | Some t \<Rightarrow> t)"

definition dataSource ::
    "(int \<Rightarrow> bool) \<Rightarrow> (jstring \<Rightarrow> bool) \<Rightarrow> (int \<Rightarrow> int option) \<Rightarrow> (int list \<Rightarrow> jstring) \<Rightarrow> jstring \<Rightarrow> int \<Rightarrow>
     startup_error + data_source" where
  "dataSource visible ipv6 digit16 utf8 databaseUrl poolMax =
     (case URI_create visible ipv6 databaseUrl of
        None \<Rightarrow> Inl IllegalArgument
      | Some uri \<Rightarrow>
          (case uri_userInfo uri of
             None \<Rightarrow> Inl NullPointer
           | Some raw \<Rightarrow>
               (case cut 58 (uri_decode utf8 raw) of
                  (user, pass) \<Rightarrow>
                    let port = (if uri_port uri = -1 then 5432 else uri_port uri);
                        query = (case uri_query uri of None \<Rightarrow> [] | Some q \<Rightarrow> 63 # uri_decode utf8 q);
                        jdbc = lit ''jdbc:postgresql://'' @ shown (uri_host uri) @ [58] @ lit (strconv_Itoa port)
                          @ shown (map_option (uri_decode utf8) (uri_path uri)) @ query
                    in (case url_decode digit16 utf8 user of
                          None \<Rightarrow> Inl IllegalArgument
                        | Some name \<Rightarrow>
                            (case (case pass of None \<Rightarrow> Some [] | Some p \<Rightarrow> url_decode digit16 utf8 p) of
                               None \<Rightarrow> Inl IllegalArgument
                             | Some word \<Rightarrow>
                                 Inr \<lparr>ds_jdbcUrl = jdbc, ds_username = name, ds_password = word,
                                   ds_maximumPoolSize = poolMax, ds_poolName = ''ledger''\<rparr>)))))"

end
