(* ===== verification/DataSourceClaims.thy ===== *)
theory DataSourceClaims
  imports DataSource
begin

text \<open>Which database credentials the ledger derives from a \<open>DATABASE_URL\<close>.\<close>

section \<open>What the URL denotes\<close>

text \<open>
  RFC 3986: the user info is split at its first colon, then each part is percent-decoded.
  This is how \<open>net/url\<close> reads it for the Go services.
\<close>

definition url_credentials :: "(int list \<Rightarrow> jstring) \<Rightarrow> jstring \<Rightarrow> jstring \<times> jstring" where
  "url_credentials utf8 raw =
     (case cut 58 raw of (a, b) \<Rightarrow> (uri_decode utf8 a, case b of None \<Rightarrow> [] | Some p \<Rightarrow> uri_decode utf8 p))"

section \<open>Cutting and decoding\<close>

lemma cut_whole: "c \<notin> set s \<Longrightarrow> cut c s = (s, None)"
  by (induction s) (simp_all add: cut_def)

lemma cut_first: "c \<notin> set a \<Longrightarrow> cut c (a @ c # b) = (a, Some b)"
  by (induction a) (simp_all add: cut_def)

lemma cut_cases:
  obtains "c \<notin> set s" "cut c s = (s, None)" | a b where "c \<notin> set a" "s = a @ c # b" "cut c s = (a, Some b)"
proof (cases "c \<in> set s")
  case True
  then obtain a b where "s = a @ c # b" "c \<notin> set a" by (meson split_list_first)
  then show ?thesis using that(2) cut_first by blast
qed (use that(1) cut_whole in blast)

lemma escapes_append: "escapes s = (bs, r) \<Longrightarrow> escapes (s @ 58 # t) = (bs, r @ 58 # t)"
proof (induction s arbitrary: bs r rule: escapes.induct)
  case (2 c s)
  then show ?case
    by (cases s; cases "tl s") (auto simp: is_digit16_def Cons_eq_append_conv split: if_splits list.splits prod.splits)
qed simp

lemma uri_decode_append: "uri_decode utf8 (a @ 58 # b) = uri_decode utf8 a @ 58 # uri_decode utf8 b"
proof (induction "length a" arbitrary: a rule: less_induct)
  case less
  show ?case
  proof (cases a)
    case Nil
    then show ?thesis by simp
  next
    case (Cons c s)
    obtain bs r where e: "escapes (c # s) = (bs, r)" by fastforce
    then have f: "escapes (c # s @ 58 # b) = (bs, r @ 58 # b)" using escapes_append [OF e] by simp
    show ?thesis
    proof (cases bs)
      case Nil
      then show ?thesis using less [of s] e f Cons by (simp del: escapes.simps)
    next
      case (Cons b' bs')
      then have "length r < length a" using escapes_length [OF e] \<open>a = c # s\<close> by simp
      then show ?thesis using less [of r] e f Cons \<open>a = c # s\<close> by (simp del: escapes.simps)
    qed
  qed
qed

lemma url_decode_plain: "37 \<notin> set s \<Longrightarrow> 43 \<notin> set s \<Longrightarrow> url_decode digit16 utf8 s = Some s"
  by (induction s) auto

lemma url_decode_length:
  assumes utf8: "\<forall>bs. length (utf8 bs) \<le> length bs"
  shows "url_decode digit16 utf8 s = Some t \<Longrightarrow> length t \<le> length s \<and> (37 \<in> set s \<longrightarrow> length t < length s)"
proof (induction "length s" arbitrary: s t rule: less_induct)
  case less
  show ?case
  proof (cases s)
    case Nil
    then show ?thesis using less.prems by simp
  next
    case (Cons c u)
    show ?thesis
    proof (cases "c = 37")
      case True
      then obtain bs r t' where run: "url_run digit16 (37 # u) = Some (bs, r)" and t: "url_decode digit16 utf8 r = Some t'" "t = utf8 bs @ t'"
        using less.prems Cons by (auto simp del: url_run.simps split: option.splits)
      have "length r + 3 * length bs = length s" and r: "length r + 3 \<le> length s"
        using url_run_length [OF run] url_run_shorter [OF run] Cons True by simp_all
      moreover have "length t' \<le> length r" using less.hyps [OF _ t(1)] r by simp
      moreover have "length (utf8 bs) \<le> length bs" using utf8 by blast
      ultimately show ?thesis using t(2) by simp
    next
      case False
      then obtain t' x where "url_decode digit16 utf8 u = Some t'" "t = x # t'"
        using less.prems Cons by (auto split: if_splits)
      then show ?thesis using less.hyps [of u t'] Cons False by auto
    qed
  qed
qed

lemma url_decode_fixed:
  assumes "\<forall>bs. length (utf8 bs) \<le> length bs"
  shows "url_decode digit16 utf8 s = Some s \<longleftrightarrow> 37 \<notin> set s \<and> 43 \<notin> set s"
proof
  assume fixed: "url_decode digit16 utf8 s = Some s"
  then have "37 \<notin> set s" using url_decode_length [OF assms] by blast
  then show "37 \<notin> set s \<and> 43 \<notin> set s" using fixed by (induction s) (auto split: if_splits)
qed (simp add: url_decode_plain)

section \<open>Properties\<close>

definition demo_url :: "string \<Rightarrow> jstring" where
  "demo_url w = lit (''postgres://user:'' @ w @ ''@host/wallet?sslmode=disable'')"

definition demo_digit16 :: "int \<Rightarrow> int option" where
  "demo_digit16 c = (if is_digit16 c then Some (hex_digit c) else None)"

definition demo_uri :: "string \<Rightarrow> uri" where
  "demo_uri w = \<lparr>uri_userInfo = Some (lit (''user:'' @ w)), uri_host = Some (lit ''host''), uri_port = -1,
     uri_path = Some (lit ''/wallet''), uri_query = Some (lit ''sslmode=disable'')\<rparr>"

lemma demo_urls:
  "URI_create (\<lambda>_. False) (\<lambda>_. False) (demo_url ''password'') = Some (demo_uri ''password'')"
  "URI_create (\<lambda>_. False) (\<lambda>_. False) (demo_url ''p%2Bq'') = Some (demo_uri ''p%2Bq'')"
  by code_simp+

lemma demo_credentials:
  "url_credentials id (lit ''user:password'') = (lit ''user'', lit ''password'')"
  "url_credentials id (lit ''user:p%2Bq'') = (lit ''user'', lit ''p+q'')"
  by code_simp+

lemma dataSource_credentials:
  assumes "URI_create visible ipv6 url = Some uri" and "uri_userInfo uri = Some raw"
    and "cut 58 (uri_decode utf8 raw) = (user, pass)"
  shows "(\<exists>ds. dataSource visible ipv6 digit16 utf8 url poolMax = Inr ds \<and> (ds_username ds, ds_password ds) = (name, word)) \<longleftrightarrow>
    url_decode digit16 utf8 user = Some name \<and>
    (case pass of None \<Rightarrow> word = [] | Some p \<Rightarrow> url_decode digit16 utf8 p = Some word)"
  using assms by (auto simp: dataSource_def Let_def split: option.splits)

text \<open>
  C39: The ledger connects with the user name and the password that the shared \<open>DATABASE_URL\<close> denotes
  exactly when neither of them contains \<open>+\<close> or \<open>%\<close> and the user name contains no colon: the
  user info it splits is decoded already, and each part is decoded a second time.
\<close>

theorem ledger_credentials:
  assumes utf8: "\<forall>bs. length (utf8 bs) \<le> length bs"
    and uri: "URI_create visible ipv6 url = Some uri" and raw: "uri_userInfo uri = Some raw"
    and denoted: "url_credentials utf8 raw = (name, word)"
  shows "(\<exists>ds. dataSource visible ipv6 digit16 utf8 url poolMax = Inr ds \<and> (ds_username ds, ds_password ds) = (name, word)) \<longleftrightarrow>
    37 \<notin> set (name @ word) \<and> 43 \<notin> set (name @ word) \<and> 58 \<notin> set name"
    (is "?reads \<longleftrightarrow> ?plain")
proof (cases "58 \<in> set name")
  case True
  have "\<exists>rest. uri_decode utf8 raw = name @ rest"
    by (rule cut_cases [of 58 raw]) (use denoted in \<open>auto simp: url_credentials_def uri_decode_append\<close>)
  then obtain rest where d: "uri_decode utf8 raw = name @ rest" by blast
  from True obtain a b where ab: "58 \<notin> set a" "name = a @ 58 # b" by (meson split_list_first)
  have "cut 58 (uri_decode utf8 raw) = (a, Some (b @ rest))" using d ab cut_first [of 58 a "b @ rest"] by simp
  moreover have "url_decode digit16 utf8 a \<noteq> Some name"
    using url_decode_length [OF utf8, of digit16 a name] ab by auto
  ultimately show ?thesis using True dataSource_credentials [OF uri raw] by simp
next
  case False
  show ?thesis
  proof (rule cut_cases [of 58 raw])
    assume "cut 58 raw = (raw, None)"
    then have "uri_decode utf8 raw = name" "word = []" using denoted by (simp_all add: url_credentials_def)
    then show ?thesis
      using False dataSource_credentials [OF uri raw, of utf8 name None] url_decode_fixed [OF utf8] by (simp add: cut_whole)
  next
    fix a b
    assume "cut 58 raw = (a, Some b)" and ab: "raw = a @ 58 # b"
    then have "uri_decode utf8 raw = name @ 58 # word" using denoted by (auto simp: url_credentials_def uri_decode_append)
    then have "cut 58 (uri_decode utf8 raw) = (name, Some word)" using False by (simp add: cut_first)
    from dataSource_credentials [OF uri raw this] show ?thesis using False url_decode_fixed [OF utf8] by auto
  qed
qed

theorem ledger_credentials_witness:
  "(\<exists>ds. dataSource (\<lambda>_. False) (\<lambda>_. False) demo_digit16 id (demo_url ''password'') 10 = Inr ds \<and>
      (ds_username ds, ds_password ds) = (lit ''user'', lit ''password'')) \<and>
   \<not> (\<exists>ds. dataSource (\<lambda>_. False) (\<lambda>_. False) demo_digit16 id (demo_url ''p%2Bq'') 10 = Inr ds \<and>
      (ds_username ds, ds_password ds) = (lit ''user'', lit ''p+q'')) \<and>
   map_sum id ds_jdbcUrl (dataSource (\<lambda>_. False) (\<lambda>_. False) demo_digit16 id (demo_url ''p%2Bq'') 10) =
     Inr (lit ''jdbc:postgresql://host:5432/wallet?sslmode=disable'')"
proof (intro conjI)
  have short: "\<forall>bs. length (id bs :: jstring) \<le> length bs" by simp
  show "\<exists>ds. dataSource (\<lambda>_. False) (\<lambda>_. False) demo_digit16 id (demo_url ''password'') 10 = Inr ds \<and>
      (ds_username ds, ds_password ds) = (lit ''user'', lit ''password'')"
    by (subst ledger_credentials [OF short demo_urls(1) _ demo_credentials(1)]) (simp add: demo_uri_def, code_simp)
  show "\<not> (\<exists>ds. dataSource (\<lambda>_. False) (\<lambda>_. False) demo_digit16 id (demo_url ''p%2Bq'') 10 = Inr ds \<and>
      (ds_username ds, ds_password ds) = (lit ''user'', lit ''p+q''))"
    by (subst ledger_credentials [OF short demo_urls(2) _ demo_credentials(2)]) (simp add: demo_uri_def, code_simp)
  show "map_sum id ds_jdbcUrl (dataSource (\<lambda>_. False) (\<lambda>_. False) demo_digit16 id (demo_url ''p%2Bq'') 10) =
      Inr (lit ''jdbc:postgresql://host:5432/wallet?sslmode=disable'')"
    by code_simp
qed

end
