(* ===== verification/Metrics.thy ===== *)
theory Metrics
  imports Main
begin

text \<open>
  The Prometheus metrics of the Go services (\<open>services/wallet/metrics.go\<close>, \<open>services/gateway/httpx.go\<close>,
  \<open>services/gateway/ratelimit.go\<close>).  They are package variables made by \<open>promauto\<close>, which registers
  each with the default registry before \<open>main\<close> runs and panics when that fails;
  \<open>WithLabelValues\<close> panics when the number of values is not the number of labels.  Both are the
  documented behaviour of \<open>client_golang\<close>; the rules for names are those of the Prometheus data model.
  The buckets of the histograms (the default ones) are left out.
\<close>

section \<open>Metrics and the registry\<close>

datatype metric_type = Counter | Gauge | Histogram

record metric =
  mt_type :: metric_type
  mt_name :: string
  mt_help :: string
  mt_labels :: "string list"

definition is_letter :: "char \<Rightarrow> bool" where
  "is_letter c \<longleftrightarrow> c \<in> set ''abcdefghijklmnopqrstuvwxyzABCDEFGHIJKLMNOPQRSTUVWXYZ_''"

definition is_decimal :: "char \<Rightarrow> bool" where
  "is_decimal c \<longleftrightarrow> c \<in> set ''0123456789''"

definition metric_name_ok :: "string \<Rightarrow> bool" where
  "metric_name_ok n \<longleftrightarrow> n \<noteq> [] \<and> \<not> is_decimal (hd n) \<and> list_all (\<lambda>c. is_letter c \<or> is_decimal c \<or> c = CHR '':'') n"

definition label_name_ok :: "string \<Rightarrow> bool" where
  "label_name_ok n \<longleftrightarrow> n \<noteq> [] \<and> \<not> is_decimal (hd n) \<and> list_all (\<lambda>c. is_letter c \<or> is_decimal c) n \<and> take 2 n \<noteq> ''__''"

text \<open>A histogram keeps the label \<open>le\<close> for its buckets.\<close>

definition metric_ok :: "metric \<Rightarrow> bool" where
  "metric_ok m \<longleftrightarrow> metric_name_ok (mt_name m) \<and> list_all label_name_ok (mt_labels m) \<and> distinct (mt_labels m) \<and>
     (mt_type m = Histogram \<longrightarrow> ''le'' \<notin> set (mt_labels m))"

text \<open>\<open>MustRegister\<close> on the names registered so far; \<open>None\<close> is the panic.\<close>

definition MustRegister :: "metric \<Rightarrow> string list \<Rightarrow> string list option" where
  "MustRegister m names = (if metric_ok m \<and> mt_name m \<notin> set names then Some (names @ [mt_name m]) else None)"

fun init_vars :: "metric list \<Rightarrow> string list \<Rightarrow> string list option" where
  "init_vars [] names = Some names"
| "init_vars (m # ms) names = (case MustRegister m names of None \<Rightarrow> None | Some names' \<Rightarrow> init_vars ms names')"

text \<open>\<open>WithLabelValues\<close>: the series with these values; \<open>None\<close> is the panic.\<close>

definition WithLabelValues :: "metric \<Rightarrow> string list \<Rightarrow> (string \<times> string) list option" where
  "WithLabelValues m lvs = (if length lvs = length (mt_labels m) then Some (zip (mt_labels m) lvs) else None)"

section \<open>The metrics of the wallet service\<close>

definition grpc_requests_vec :: metric where
  "grpc_requests_vec = \<lparr>mt_type = Counter, mt_name = ''wallet_grpc_requests_total'',
     mt_help = ''gRPC calls by method and status code.'', mt_labels = [''method'', ''code'']\<rparr>"

definition grpc_duration_vec :: metric where
  "grpc_duration_vec = \<lparr>mt_type = Histogram, mt_name = ''wallet_grpc_duration_seconds'',
     mt_help = ''gRPC call duration.'', mt_labels = [''method'']\<rparr>"

definition transactions_vec :: metric where
  "transactions_vec = \<lparr>mt_type = Counter, mt_name = ''wallet_transactions_total'',
     mt_help = ''Deposits and transfers by result: ok, replayed, rejected, error.'', mt_labels = [''kind'', ''result'']\<rparr>"

definition lock_retries_vec :: metric where
  "lock_retries_vec = \<lparr>mt_type = Counter, mt_name = ''wallet_optimistic_lock_retries_total'',
     mt_help = ''Times a balance update lost the optimistic-lock race and retried.'', mt_labels = [''kind'']\<rparr>"

definition outbox_published_vec :: metric where
  "outbox_published_vec = \<lparr>mt_type = Counter, mt_name = ''wallet_outbox_published_total'',
     mt_help = ''Outbox events published to Kafka.'', mt_labels = [''topic'']\<rparr>"

definition outbox_failures_metric :: metric where
  "outbox_failures_metric = \<lparr>mt_type = Counter, mt_name = ''wallet_outbox_publish_failures_total'',
     mt_help = ''Outbox batches that failed to publish and will be retried.'', mt_labels = []\<rparr>"

definition outbox_pending_metric :: metric where
  "outbox_pending_metric = \<lparr>mt_type = Gauge, mt_name = ''wallet_outbox_pending'',
     mt_help = ''Outbox events not yet published.'', mt_labels = []\<rparr>"

definition outbox_oldest_metric :: metric where
  "outbox_oldest_metric = \<lparr>mt_type = Gauge, mt_name = ''wallet_outbox_oldest_pending_seconds'',
     mt_help = ''Age of the oldest unpublished event. If this keeps growing, Kafka is unreachable.'', mt_labels = []\<rparr>"

definition wallet_metrics :: "metric list" where
  "wallet_metrics = [grpc_requests_vec, grpc_duration_vec, transactions_vec, lock_retries_vec, outbox_published_vec,
     outbox_failures_metric, outbox_pending_metric, outbox_oldest_metric]"

section \<open>The metrics of the gateway\<close>

definition http_requests_vec :: metric where
  "http_requests_vec = \<lparr>mt_type = Counter, mt_name = ''http_requests_total'',
     mt_help = ''HTTP requests by method, route and status.'', mt_labels = [''method'', ''route'', ''status'']\<rparr>"

definition http_duration_vec :: metric where
  "http_duration_vec = \<lparr>mt_type = Histogram, mt_name = ''http_request_duration_seconds'',
     mt_help = ''HTTP request duration.'', mt_labels = [''method'', ''route'']\<rparr>"

definition rate_limited_vec :: metric where
  "rate_limited_vec = \<lparr>mt_type = Counter, mt_name = ''gateway_rate_limited_total'',
     mt_help = ''Requests rejected by the rate limiter.'', mt_labels = [''bucket'']\<rparr>"

text \<open>The variables of a package are made file by file, in the order of the file names.\<close>

definition gateway_metrics :: "metric list" where
  "gateway_metrics = [http_requests_vec, http_duration_vec, rate_limited_vec]"

lemmas metric_defs = wallet_metrics_def gateway_metrics_def grpc_requests_vec_def grpc_duration_vec_def transactions_vec_def
  lock_retries_vec_def outbox_published_vec_def outbox_failures_metric_def outbox_pending_metric_def
  outbox_oldest_metric_def http_requests_vec_def http_duration_vec_def rate_limited_vec_def

section \<open>Registration\<close>

lemma init_vars_ok:
  "list_all metric_ok ms \<Longrightarrow> distinct (map mt_name ms) \<Longrightarrow> set (map mt_name ms) \<inter> set names = {} \<Longrightarrow>
   init_vars ms names = Some (names @ map mt_name ms)"
  by (induction ms arbitrary: names) (auto simp: MustRegister_def)

lemma metrics_ok: "list_all metric_ok wallet_metrics" "list_all metric_ok gateway_metrics"
  by code_simp+

text \<open>The collectors a new default registry has: the Go runtime and the process.\<close>

definition default_name :: "string \<Rightarrow> bool" where
  "default_name n \<longleftrightarrow> take 3 n = ''go_'' \<or> take 8 n = ''process_''"

text \<open>
  Neither service panics while its package is initialised: the names are well formed, distinct
  and different from those the default registry has.
\<close>

lemma metrics_registered:
  assumes "list_all default_name names"
  shows "init_vars wallet_metrics names = Some (names @ map mt_name wallet_metrics)"
    and "init_vars gateway_metrics names = Some (names @ map mt_name gateway_metrics)"
proof -
  have new: "set (map mt_name ms) \<inter> set names = {}" if "list_all (\<lambda>m. \<not> default_name (mt_name m)) ms" for ms
    using assms that by (auto simp: list_all_iff)
  have "list_all (\<lambda>m. \<not> default_name (mt_name m)) wallet_metrics" "distinct (map mt_name wallet_metrics)" by code_simp+
  from init_vars_ok [OF metrics_ok(1) this(2) new [OF this(1)]]
  show "init_vars wallet_metrics names = Some (names @ map mt_name wallet_metrics)" .
  have "list_all (\<lambda>m. \<not> default_name (mt_name m)) gateway_metrics" "distinct (map mt_name gateway_metrics)" by code_simp+
  from init_vars_ok [OF metrics_ok(2) this(2) new [OF this(1)]]
  show "init_vars gateway_metrics names = Some (names @ map mt_name gateway_metrics)" .
qed

text \<open>The calls of \<open>WithLabelValues\<close> in the two services give as many values as there are labels.\<close>

lemma label_values_fit:
  "WithLabelValues grpc_requests_vec [meth, code] = Some [(''method'', meth), (''code'', code)]"
  "WithLabelValues grpc_duration_vec [meth] = Some [(''method'', meth)]"
  "WithLabelValues transactions_vec [kind, result] = Some [(''kind'', kind), (''result'', result)]"
  "WithLabelValues lock_retries_vec [kind] = Some [(''kind'', kind)]"
  "WithLabelValues outbox_published_vec [topic] = Some [(''topic'', topic)]"
  "WithLabelValues http_requests_vec [meth, route, status] = Some [(''method'', meth), (''route'', route), (''status'', status)]"
  "WithLabelValues http_duration_vec [meth, route] = Some [(''method'', meth), (''route'', route)]"
  "WithLabelValues rate_limited_vec [bucket] = Some [(''bucket'', bucket)]"
  by (simp_all add: WithLabelValues_def metric_defs)

end
