(* ===== verification/Spec2Isabelle.thy ===== *)
theory Spec2Isabelle
  imports StoreClaims OutboxClaims ServerClaims GatewayClaims PlatformClaims Consumers EndToEnd
    ProcessClaims NotificationProcess FraudProcess DataSourceClaims Metrics
begin

text \<open>
  Verification of the services of the wallet ledger: in Go the wallet service, which holds balances
  and moves money, and the gateway, which authenticates users and calls it; and the three
  consumers of the wallet's events, the ledger (Java), fraud (Python) and notification
  (JavaScript) services.

  \<^bold>\<open>The program.\<close>  A client sends HTTP requests to the gateway (\<open>src/services/gateway\<close>).  The gateway
  limits the rate in Redis, checks the bearer token, and calls the wallet service over gRPC
  (\<open>src/services/wallet/server.go\<close>).  The wallet service runs each deposit and transfer as one
  PostgreSQL transaction with optimistic locking and retries (\<open>store.go\<close>) that also writes an
  event to the outbox table; a relay (\<open>outbox.go\<close>) sends the pending events to Kafka.  Both
  services share \<open>src/internal/platform\<close> for settings, the ops server and graceful shutdown.  The
  ledger (\<open>src/services/ledger\<close>) writes a double-entry journal from the events, the fraud service
  (\<open>src/services/fraud\<close>) checks transfers against its rules and publishes alerts, and the
  notification service (\<open>src/services/notification\<close>) turns events and alerts into messages on the
  WebSockets of the users concerned.

  \<^bold>\<open>Theories and sources.\<close>

  \<^item> \<open>Prelude\<close>: 64-bit arithmetic, lists with keys, shared lemmas.  \<open>GoErrors\<close>: the errors of \<open>store.go\<close>,
    \<open>errors.Is\<close> and \<open>errors.As\<close>.  \<open>GoTime\<close>, \<open>GoText\<close>, \<open>GoDuration\<close>: what the services use of Go's
    \<open>time\<close>, \<open>strings\<close>, \<open>strconv\<close>, \<open>net\<close> and \<open>encoding/hex\<close>.  \<open>Events\<close>: the event payloads.
  \<^item> \<open>Schema\<close>: the tables of \<open>db/migrations/V2__wallet.sql\<close> as lists of rows and one function per SQL
    statement, with constraints and out-of-range errors.  \<open>Store\<close>: the operations of \<open>store.go\<close>;
    \<open>Deposit_fn\<close> and \<open>Transfer_fn\<close> are the closures given to \<open>withRetries\<close>, which theory \<open>Retry\<close> models
    with \<open>pgx.BeginFunc\<close> as a parameter (\<open>BeginFunc_doc\<close> is its documented behaviour, lost commit
    acknowledgements included).
  \<^item> \<open>Accounting\<close>, \<open>Books\<close>, \<open>WalletProps\<close>: reference definitions of the two bodies, the invariant
    \<open>wallet_inv\<close> of the tables, the map of balances as abstract bank.
  \<^item> \<open>Sessions\<close>, \<open>Interleaving\<close>, \<open>Serial\<close>, \<open>Schedules\<close>: requests executed statement by statement at
    \<open>READ COMMITTED\<close> with row locks and unique-key waits, any number of them at once, as a step
    relation; an executable scheduler for examples.
  \<^item> \<open>StoreClaims\<close>: the properties of the store.
  \<^item> \<open>Outbox\<close>, \<open>OutboxProofs\<close>, \<open>OutboxClaims\<close>: the relay, its polling loop and housekeeping, and the
    pipeline of requests, relays and clean-ups in any order.
  \<^item> \<open>WalletServer\<close>, \<open>ServerProofs\<close>, \<open>ServerClaims\<close>: the gRPC handlers of \<open>server.go\<close>, the metrics of
    \<open>metrics.go\<close>, and the contract \<open>wallet_client\<close> the gateway relies on.
  \<^item> \<open>Http\<close>, \<open>RateLimit\<close>, \<open>Gateway\<close>: \<open>httpx.go\<close>, \<open>walletclient.go\<close>, \<open>ratelimit.go\<close>, \<open>auth.go\<close>, \<open>handlers.go\<close>
    and the routes of \<open>main.go\<close>.  \<open>GatewayProofs\<close>, \<open>GatewayDemo\<close>, \<open>GatewayClaims\<close>: how handlers answer,
    what the middleware keeps, and the properties through the whole stack.
  \<^item> \<open>Platform\<close>, \<open>PlatformClaims\<close>: \<open>config.go\<close>, \<open>ops.go\<close>, \<open>shutdown.go\<close>, and the start and the end of the
    two \<open>main\<close> functions.  \<open>Process\<close>, \<open>ProcessClaims\<close>: the goroutines of a running service, signals and
    the clean-up as a step relation (\<open>proc_step\<close>); \<open>logging.go\<close> and \<open>sleep\<close>.  \<open>Metrics\<close>: the metrics of the
    two services and their registration.

  \<^item> \<open>EventFields\<close>: what a consumer reads in an event of the wallet.  \<open>Redelivery\<close>: the contract of a
    consumer that deduplicates.
  \<^item> \<open>Ledger\<close>, \<open>LedgerProofs\<close>, \<open>LedgerClaims\<close>: \<open>LedgerListener\<close>, \<open>JournalService\<close>, \<open>KafkaErrorConfig\<close> and the
    tables and triggers of \<open>db/migrations/V3__ledger.sql\<close>; the system of wallet, relay, Kafka and
    ledger as a step relation (\<open>system_step\<close>).
  \<^item> \<open>DataSource\<close>, \<open>DataSourceClaims\<close>: \<open>DataSourceConfig\<close> of the ledger, with what it uses of \<open>java.net.URI\<close>
    and \<open>java.net.URLDecoder\<close>.
  \<^item> \<open>Fraud\<close>, \<open>FraudClaims\<close>: \<open>rules.py\<close>, \<open>worker.py\<close> and the readiness check of \<open>main.py\<close>.  \<open>FraudProcess\<close>: start
    and stop of the worker and the lifespan of the application.
  \<^item> \<open>Notification\<close>, \<open>NotificationClaims\<close>: \<open>index.js\<close>, the handler of events and the sockets of a pod.
    \<open>NotificationProcess\<close>: its settings, \<open>ops.js\<close>, connecting to Kafka and the shutdown.
  \<^item> \<open>Consumers\<close>: the properties of the wallet's events at all three consumers.  \<open>EndToEnd\<close>: from an HTTP
    answer of the gateway to the entry in the journal.

  \<^bold>\<open>State and operations.\<close>  A database is the record \<open>db\<close> of three lists of rows.  A body maps what
  the server draws (\<open>tx_handle\<close>: time, ids, faults of single statements) and the tables to an
  error or a result with new tables.  The retry loop returns a value, an error or a panic, and
  the number of retries.  The service's state is \<open>server_state\<close> (tables, counters, log), the
  gateway's is \<open>gateway\<close> (Redis, users, the wallet service, counters, log); a handler maps a
  request, a response writer and a state to a writer and a state, and middleware is a function
  from handlers to handlers, composed as in \<open>main.go\<close>.  The consumers are functions on the records
  \<open>ledger_state\<close> (journal and counters), \<open>worker\<close> (Redis, alerts, commits) and \<open>notifier\<close> (Redis,
  counters, dead letters), and \<open>pod\<close> (sockets); a Go process is the record \<open>proc\<close> (where \<open>main\<close> is,
  requests and connections, the relay, finished calls, exit code); one delivery takes what it meets (ids the database
  draws, how the commit ends, answers of Redis and Kafka) as an argument.

  \<^bold>\<open>Interfaces.\<close>  \<open>environment\<close>, \<open>tx_body\<close> and \<open>keyed_body\<close> (theory \<open>Retry\<close>) say what a body under
  \<open>withRetries\<close> promises while other requests move on; they are interpreted on both bodies.
  \<open>wallet_client\<close> (theory \<open>ServerProofs\<close>) is the contract between gateway and wallet service,
  interpreted on the handlers as the gRPC server runs them; the gateway's lemmas are proved in
  it (theory \<open>GatewayProofs\<close>).  \<open>redelivery\<close> (theory \<open>Redelivery\<close>) is the contract of a deduplicating
  consumer, interpreted on \<open>post\<close> of the ledger and on the handler of the notification service.
  \<open>graceful\<close> (theory \<open>ProcessClaims\<close>) is what the two Go processes share when they stop, interpreted on
  the server goroutine and the clean-up of each.

  \<^bold>\<open>What is shown.\<close>

  \<^item> Store: in every interleaving the books balance, money is conserved, every commit is as if
    alone, keys are used once, and some request can always go on; the bodies compute their
    references and refine the bank; calls with the same key agree; the retry loop is bounded.
  \<^item> Relay: no event is lost or made up, the backlog drains, back-off and stopping; two relays can
    send the events of one wallet out of order.
  \<^item> Service: statuses hide internals, bad input has no effect, RPCs are idempotent.
  \<^item> Gateway: a transfer answered 201 moved the caller's own money once; unauthenticated requests
    have no effect; sign-up and login round trip; the wallet's identity is stable; every
    request has one answer and one count; the rate limit.
  \<^item> Platform: settings are read back, readiness, shutdown ends in time.  Process: the wallet stops in
    order, with nothing closed under a request or a batch; both services can always stop; the
    gateway may cut off a request that outlasts its deadline.  Metrics: registration never panics.
  \<^item> Ledger: with the wallet and the relay in any order and under any failures, the journal is one
    entry per wallet transaction, and once everything is handled its balances are those of the
    wallet service; it catches up after failures; it is balanced whatever Kafka delivers; a
    message with a malformed transaction id blocks its partition.  Start-up: it reads the
    credentials of the URL exactly when decoding them twice does no harm.
  \<^item> Fraud: no large transfer is acknowledged without its alert; the velocity rule counts the last
    minute exactly for steady transfers, and forgets them after a pause of two minutes; a failed
    dead-letter send ends the worker.
  \<^item> Notification: at most once, to the right users and sockets only; a failed publish loses the
    notification.
  \<^item> Shutdown of the consumers: a failed task of the fraud worker leaves its clients open; a slow
    WebSocket or a malformed delay makes the notification service exit without closing.
  \<^item> All three accept every event of the wallet; a transfer answered 201 ends up in the journal.

  \<^bold>\<open>Bounds.\<close>  The retry loop is total (a measure on the attempts left), so is \<open>ParseDuration\<close>.  The
  polling loop is run on a list of rounds: the properties hold for lists of any length, and the
  claims that it drains or stops give the number of rounds needed.  \<open>int64\<close> arithmetic wraps
  where the code can reach it (the negated amount, the shift of the back-off, the shutdown
  deadline); row values carry the ranges of their columns.

  \<^bold>\<open>Not modelled.\<close>  Generated protobuf code, the format of log lines, histograms of durations, the
  construction of third-party clients and servers (pgx, Redis, Kafka, gRPC, Hikari), what Spring
  and uvicorn do around the services, and deployment files.  Parameters stand for third-party code: pgx, Kafka, Redis, JWT, bcrypt,
  UUID parsing, UTF-8 decoding and Unicode tables of Java, Jackson's \<open>asLong\<close>; and for parts of the standard library that are not worth restating: the JSON
  decoder, \<open>mail.ParseAddress\<close>, lower-casing outside ASCII, the floating-point product in
  \<open>time.ParseDuration\<close>.  Paths reach the mux clean and split into segments.  A batch of the relay is
  one step, since its rows are locked until the commit; \<open>retention.Hours()\<close> is exact for the
  durations that floating point represents exactly.  Gateway requests are served one after the
  other; what the others do to the wallet service in between is any sequence of store steps.  A
  transaction of the ledger is one step: its unique key makes concurrent ones wait.  JSON objects
  have each key once.
\<close>

end
